theory Spec2Isabelle
  imports Main "HOL-Library.Word"
begin

unbundle bit_operations_syntax

section \<open>Data model\<close>

text \<open>
  An endpoint ID is compared, ordered and hashed through its URI string \<open>m_uri\<close> only
  (\<open>EndpointID::operator==\<close>), so the URI stands for the endpoint. \<open>NodeID\<close> is an alias
  of \<open>EndpointID\<close>. An ns-3 \<open>Time\<close> is a signed count of nanoseconds.
\<close>

type_synonym EndpointID = string
type_synonym NodeID = EndpointID
type_synonym Time = int

record DtnTime =
  m_dtnTimeSeconds :: nat
  m_dtnTimeNanoseconds :: nat

definition ToTime :: "DtnTime \<Rightarrow> Time" where
  "ToTime t = int (m_dtnTimeSeconds t) * 1000000000 + int (m_dtnTimeNanoseconds t)"

text \<open>Block and CRC type codes are enums over \<open>uint64_t\<close>; a decoded block may carry any code.\<close>

type_synonym BlockType = nat
type_synonym CRCType = nat

definition PAYLOAD_BLOCK :: BlockType where "PAYLOAD_BLOCK = 1"
definition PREVIOUS_NODE_BLOCK :: BlockType where "PREVIOUS_NODE_BLOCK = 6"
definition BUNDLE_AGE_BLOCK :: BlockType where "BUNDLE_AGE_BLOCK = 7"
definition HOP_COUNT_BLOCK :: BlockType where "HOP_COUNT_BLOCK = 10"

definition NO_CRC :: CRCType where "NO_CRC = 0"
definition CRC_16 :: CRCType where "CRC_16 = 1"
definition CRC_32 :: CRCType where "CRC_32 = 2"

definition BUNDLE_MUST_NOT_BE_FRAGMENTED :: "64 word" where
  "BUNDLE_MUST_NOT_BE_FRAGMENTED = push_bit 4 1"
definition PAYLOAD_IS_AN_ADMINISTRATIVE_RECORD :: "64 word" where
  "PAYLOAD_IS_AN_ADMINISTRATIVE_RECORD = push_bit 5 1"
definition BUNDLE_IS_A_FRAGMENT :: "64 word" where
  "BUNDLE_IS_A_FRAGMENT = push_bit 6 1"
definition BLOCK_MUST_BE_REPLICATED :: "64 word" where
  "BLOCK_MUST_BE_REPLICATED = push_bit 0 1"

record PrimaryBlock =
  m_version :: nat
  m_bundleControlFlags :: "64 word"
  m_crcType :: CRCType
  m_destinationEID :: EndpointID
  m_sourceNodeEID :: EndpointID
  m_reportToEID :: EndpointID
  m_creationTimestamp :: DtnTime
  m_sequenceNumber :: nat
  m_lifetime :: Time
  m_fragmentOffset :: nat
  m_totalApplicationDataUnitLength :: nat
  m_crcValue :: "8 word list"

definition IsFragment :: "PrimaryBlock \<Rightarrow> bool" where
  "IsFragment p \<longleftrightarrow> m_bundleControlFlags p AND BUNDLE_IS_A_FRAGMENT \<noteq> 0"

definition MustNotFragment :: "PrimaryBlock \<Rightarrow> bool" where
  "MustNotFragment p \<longleftrightarrow> m_bundleControlFlags p AND BUNDLE_MUST_NOT_BE_FRAGMENTED \<noteq> 0"

definition IsAdministrativeRecord :: "PrimaryBlock \<Rightarrow> bool" where
  "IsAdministrativeRecord p \<longleftrightarrow>
     m_bundleControlFlags p AND PAYLOAD_IS_AN_ADMINISTRATIVE_RECORD \<noteq> 0"

definition SetFragmentation :: "bool \<Rightarrow> PrimaryBlock \<Rightarrow> PrimaryBlock" where
  "SetFragmentation enable p =
     (if enable then p\<lparr>m_bundleControlFlags := m_bundleControlFlags p OR BUNDLE_IS_A_FRAGMENT\<rparr>
      else p\<lparr>m_bundleControlFlags := m_bundleControlFlags p AND NOT BUNDLE_IS_A_FRAGMENT\<rparr>)"

text \<open>
  A canonical block is held through \<open>Ptr<CanonicalBlock>\<close>; \<open>dyn_class\<close> records the class
  the object was created as, which is what \<open>DynamicCast\<close> inspects.
\<close>

datatype BlockClass =
  CanonicalBlockClass | PayloadBlockClass | PreviousNodeBlockClass
  | BundleAgeBlockClass | HopCountBlockClass

record CanonicalBlock =
  dyn_class :: BlockClass
  m_blockType :: BlockType
  m_blockNumber :: nat
  m_blockControlFlags :: "64 word"
  m_crcTypeB :: CRCType
  m_data :: "8 word list"
  m_crcValueB :: "8 word list"

definition MustBeReplicated :: "CanonicalBlock \<Rightarrow> bool" where
  "MustBeReplicated b \<longleftrightarrow> m_blockControlFlags b AND BLOCK_MUST_BE_REPLICATED \<noteq> 0"

record Bundle =
  m_primaryBlock :: PrimaryBlock
  m_canonicalBlocks :: "CanonicalBlock list"

record BundleID =
  m_source :: EndpointID
  m_timestamp :: DtnTime
  m_sequenceNumberI :: nat
  m_isFragment :: bool
  m_fragmentOffsetI :: nat

text \<open>\<open>BundleID::operator==\<close>: the fragment offset counts only between two fragments.\<close>

definition BundleID_eq :: "BundleID \<Rightarrow> BundleID \<Rightarrow> bool" where
  "BundleID_eq a b =
     (if m_isFragment a \<noteq> m_isFragment b then False
      else if m_source a \<noteq> m_source b then False
      else if m_timestamp a \<noteq> m_timestamp b then False
      else if m_sequenceNumberI a \<noteq> m_sequenceNumberI b then False
      else if m_isFragment a \<and> m_isFragment b \<and> m_fragmentOffsetI a \<noteq> m_fragmentOffsetI b
        then False
      else True)"

definition GetId :: "Bundle \<Rightarrow> BundleID" where
  "GetId b =
     \<lparr>m_source = m_sourceNodeEID (m_primaryBlock b),
      m_timestamp = m_creationTimestamp (m_primaryBlock b),
      m_sequenceNumberI = m_sequenceNumber (m_primaryBlock b),
      m_isFragment = IsFragment (m_primaryBlock b),
      m_fragmentOffsetI = m_fragmentOffset (m_primaryBlock b)\<rparr>"

text \<open>
  A \<open>std::unordered_map<BundleID, V>\<close> is a list of entries whose keys are pairwise
  different under \<open>operator==\<close>; \<open>umap_find\<close> is \<open>find\<close>, \<open>umap_assign\<close> is
  \<open>m[k] = v\<close>, \<open>umap_erase\<close> is \<open>erase\<close>. The iteration order of the container is not
  specified by the language; the list order stands for it.
\<close>

fun umap_find :: "BundleID \<Rightarrow> (BundleID \<times> 'v) list \<Rightarrow> 'v option" where
  "umap_find k [] = None"
| "umap_find k ((k', v) # xs) = (if BundleID_eq k' k then Some v else umap_find k xs)"

fun umap_assign :: "BundleID \<Rightarrow> 'v \<Rightarrow> (BundleID \<times> 'v) list \<Rightarrow> (BundleID \<times> 'v) list" where
  "umap_assign k v [] = [(k, v)]"
| "umap_assign k v ((k', v') # xs) =
     (if BundleID_eq k' k then (k', v) # xs else (k', v') # umap_assign k v xs)"

fun umap_erase :: "BundleID \<Rightarrow> (BundleID \<times> 'v) list \<Rightarrow> (BundleID \<times> 'v) list" where
  "umap_erase k [] = []"
| "umap_erase k ((k', v') # xs) =
     (if BundleID_eq k' k then xs else (k', v') # umap_erase k xs)"

section \<open>CRC (crc.cc)\<close>

text \<open>One round of the inner loop of \<open>CalculateCRC32\<close>, for a given polynomial constant.\<close>

definition crc32_shift :: "32 word \<Rightarrow> 32 word \<Rightarrow> 32 word" where
  "crc32_shift polynomial crc =
     (if crc AND 1 \<noteq> 0 then drop_bit 1 crc XOR polynomial else drop_bit 1 crc)"

definition crc32_byte :: "32 word \<Rightarrow> 32 word \<Rightarrow> 8 word \<Rightarrow> 32 word" where
  "crc32_byte polynomial crc byte = ((crc32_shift polynomial) ^^ 8) (crc XOR ucast byte)"

definition CalculateCRC32 :: "8 word list \<Rightarrow> 32 word" where
  "CalculateCRC32 data = NOT (foldl (crc32_byte 0x1EDC6F41) 0xFFFFFFFF data)"

text \<open>
  The checksum as the specification words it: the same right-shifting (reflected) loop with
  the reflected form \<open>0x82F63B78\<close> of the polynomial, initial value \<open>0xFFFFFFFF\<close>, final
  XOR with \<open>0xFFFFFFFF\<close>.
\<close>

definition crc32c_spec :: "8 word list \<Rightarrow> 32 word" where
  "crc32c_spec data = foldl (crc32_byte 0x82F63B78) 0xFFFFFFFF data XOR 0xFFFFFFFF"

section \<open>Bundle store (memory-bundle-store.cc)\<close>

record MemoryBundleStore =
  m_bundles :: "(BundleID \<times> Bundle) list"
  m_pushCount :: nat
  m_getCount :: nat
  m_removeCount :: nat

text \<open>
  The second copy of the store in the repository adds the attribute \<open>MaxBundles\<close>
  (default 1000) and the member \<open>m_maxBundles\<close>.
\<close>

record MemoryBundleStoreMax = MemoryBundleStore +
  m_maxBundles :: nat

text \<open>A null \<open>Ptr<Bundle>\<close> is \<open>None\<close>.\<close>

definition Push ::
  "'a MemoryBundleStore_scheme \<Rightarrow> Bundle option \<Rightarrow> 'a MemoryBundleStore_scheme \<times> bool" where
  "Push st bundle =
     (case bundle of
        None \<Rightarrow> (st, False)
      | Some b \<Rightarrow>
          (st\<lparr>m_bundles := umap_assign (GetId b) b (m_bundles st),
              m_pushCount := m_pushCount st + 1\<rparr>, True))"

definition PushMax ::
  "'a MemoryBundleStoreMax_scheme \<Rightarrow> Bundle option \<Rightarrow> 'a MemoryBundleStoreMax_scheme \<times> bool" where
  "PushMax st bundle =
     (case bundle of
        None \<Rightarrow> (st, False)
      | Some b \<Rightarrow>
          if length (m_bundles st) \<ge> m_maxBundles st then (st, False)
          else (st\<lparr>m_bundles := umap_assign (GetId b) b (m_bundles st),
                   m_pushCount := m_pushCount st + 1\<rparr>, True))"

definition Get ::
  "'a MemoryBundleStore_scheme \<Rightarrow> BundleID \<Rightarrow> 'a MemoryBundleStore_scheme \<times> Bundle option" where
  "Get st id' =
     (case umap_find id' (m_bundles st) of
        Some b \<Rightarrow> (st\<lparr>m_getCount := m_getCount st + 1\<rparr>, Some b)
      | None \<Rightarrow> (st, None))"

definition Has :: "'a MemoryBundleStore_scheme \<Rightarrow> BundleID \<Rightarrow> bool" where
  "Has st id' \<longleftrightarrow> umap_find id' (m_bundles st) \<noteq> None"

definition GetAll :: "'a MemoryBundleStore_scheme \<Rightarrow> Bundle list" where
  "GetAll st = map snd (m_bundles st)"

text \<open>\<open>MemoryBundleStore::IsExpired\<close>, with \<open>Simulator::Now ()\<close> as the argument \<open>now\<close>.\<close>

definition IsExpired :: "Time \<Rightarrow> Bundle \<Rightarrow> bool" where
  "IsExpired now b \<longleftrightarrow>
     now > ToTime (m_creationTimestamp (m_primaryBlock b)) + m_lifetime (m_primaryBlock b)"

definition Cleanup ::
  "Time \<Rightarrow> 'a MemoryBundleStore_scheme \<Rightarrow> 'a MemoryBundleStore_scheme \<times> nat" where
  "Cleanup now st =
     (let kept = filter (\<lambda>(k, b). \<not> IsExpired now b) (m_bundles st);
          removedCount = length (m_bundles st) - length kept
      in (st\<lparr>m_bundles := kept, m_removeCount := m_removeCount st + removedCount\<rparr>,
          removedCount))"

section \<open>CBOR codec (cbor.cc) over the ns-3 buffer\<close>

text \<open>
  Failures that stop the program: a write past the end of an ns-3 \<open>Buffer\<close> (an assertion
  of \<open>Buffer::Iterator\<close>), an integer division by zero, and a thread that locks a
  \<open>std::mutex\<close> it already holds, which does not come back from the call.
\<close>

datatype error = BufferOverrun | DivisionByZero | Deadlock

text \<open>
  An ns-3 \<open>Buffer\<close> is the byte sequence between \<open>Begin ()\<close> and \<open>End ()\<close>, so that
  \<open>GetSize ()\<close> is its length and \<open>CopyData\<close> copies it out. \<open>AddAtStart n\<close> on an
  empty buffer makes room for \<open>n\<close> bytes and does not initialise them: \<open>mem i\<close> stands for
  the byte found at offset \<open>i\<close>. An iterator writes in place and never grows the buffer.
\<close>

type_synonym Buffer = "8 word list"

definition AddAtStart :: "nat \<Rightarrow> (nat \<Rightarrow> 8 word) \<Rightarrow> Buffer" where
  "AddAtStart n mem = map mem [0..<n]"

definition Write :: "nat \<Rightarrow> 8 word list \<Rightarrow> Buffer \<Rightarrow> error + Buffer" where
  "Write pos bytes buffer =
     (if pos + length bytes > length buffer then Inl BufferOverrun
      else Inr (take pos buffer @ bytes @ drop (pos + length bytes) buffer))"

datatype CborValue =
  UnsignedInteger nat
  | NegativeInteger int
  | ByteString "8 word list"
  | TextString string
  | Array "CborValue list"
  | Map "(CborValue \<times> CborValue) list"
  | Tag nat CborValue
  | Simple "8 word"
  | Invalid

definition EncodeHeader :: "8 word \<Rightarrow> 8 word \<Rightarrow> 8 word" where
  "EncodeHeader majorType additionalInfo = push_bit 5 majorType OR (additionalInfo AND 0x1F)"

definition DecodeHeader :: "8 word \<Rightarrow> 8 word \<times> 8 word" where
  "DecodeHeader header = (drop_bit 5 header AND 0x07, header AND 0x1F)"

text \<open>The \<open>n\<close> low-order bytes of a value, most significant first (\<open>WriteHtonU16/32/64\<close>).\<close>

definition be_bytes :: "nat \<Rightarrow> nat \<Rightarrow> 8 word list" where
  "be_bytes n v = map (\<lambda>i. of_nat (v div 256 ^ (n - 1 - i))) [0..<n]"

definition be_value :: "8 word list \<Rightarrow> nat" where
  "be_value bytes = foldl (\<lambda>acc b. acc * 256 + unat b) 0 bytes"

text \<open>
  \<open>EncodeUnsigned\<close> writes the header, and the argument bytes after it, through an
  iterator placed at the start of the buffer.
\<close>

definition EncodeUnsigned_bytes :: "8 word \<Rightarrow> nat \<Rightarrow> 8 word list" where
  "EncodeUnsigned_bytes majorType v =
     (if v \<le> 23 then [EncodeHeader majorType (of_nat v)]
      else if v \<le> 0xFF then [EncodeHeader majorType 24, of_nat v]
      else if v \<le> 0xFFFF then EncodeHeader majorType 25 # be_bytes 2 v
      else if v \<le> 0xFFFFFFFF then EncodeHeader majorType 26 # be_bytes 4 v
      else EncodeHeader majorType 27 # be_bytes 8 v)"

definition EncodeUnsigned :: "Buffer \<Rightarrow> 8 word \<Rightarrow> nat \<Rightarrow> error + Buffer" where
  "EncodeUnsigned buffer majorType v = Write 0 (EncodeUnsigned_bytes majorType v) buffer"

text \<open>
  \<open>Cbor::Encode\<close>. Every call starts from a fresh buffer of 1024 bytes. The header goes
  through an iterator of its own, placed at the start; the string bytes go through the
  iterator \<open>it\<close>, also placed at the start. The encodings of the items of an array, of the
  pairs of a map and of a tagged value are computed, in order, and dropped; \<open>first_error\<close>
  is the failure of the first of these calls that fails.
\<close>

fun first_error :: "(error + 'a) list \<Rightarrow> error + unit" where
  "first_error [] = Inr ()"
| "first_error (Inl e # rs) = Inl e"
| "first_error (Inr b # rs) = first_error rs"

fun first_error_pairs :: "((error + 'a) \<times> (error + 'a)) list \<Rightarrow> error + unit" where
  "first_error_pairs [] = Inr ()"
| "first_error_pairs ((Inl e, r) # rs) = Inl e"
| "first_error_pairs ((Inr b, Inl e) # rs) = Inl e"
| "first_error_pairs ((Inr b, Inr b') # rs) = first_error_pairs rs"

primrec Encode :: "(nat \<Rightarrow> 8 word) \<Rightarrow> CborValue \<Rightarrow> error + Buffer" where
  "Encode mem (UnsignedInteger v) = EncodeUnsigned (AddAtStart 1024 mem) 0 v"
| "Encode mem (NegativeInteger v) = EncodeUnsigned (AddAtStart 1024 mem) 1 (nat (- 1 - v))"
| "Encode mem (ByteString bytes) =
     (case EncodeUnsigned (AddAtStart 1024 mem) 2 (length bytes) of
        Inl e \<Rightarrow> Inl e
      | Inr buffer \<Rightarrow> Write 0 bytes buffer)"
| "Encode mem (TextString text) =
     (case EncodeUnsigned (AddAtStart 1024 mem) 3 (length text) of
        Inl e \<Rightarrow> Inl e
      | Inr buffer \<Rightarrow> Write 0 (map (\<lambda>c. of_nat (of_char c)) text) buffer)"
| "Encode mem (Array items) =
     (case EncodeUnsigned (AddAtStart 1024 mem) 4 (length items) of
        Inl e \<Rightarrow> Inl e
      | Inr buffer \<Rightarrow>
          (case first_error (map (Encode mem) items) of
             Inl e \<Rightarrow> Inl e
           | Inr u \<Rightarrow> Inr buffer))"
| "Encode mem (Map pairs) =
     (case EncodeUnsigned (AddAtStart 1024 mem) 5 (length pairs) of
        Inl e \<Rightarrow> Inl e
      | Inr buffer \<Rightarrow>
          (case first_error_pairs (map (map_prod (Encode mem) (Encode mem)) pairs) of
             Inl e \<Rightarrow> Inl e
           | Inr u \<Rightarrow> Inr buffer))"
| "Encode mem (Tag t v) =
     (case EncodeUnsigned (AddAtStart 1024 mem) 6 t of
        Inl e \<Rightarrow> Inl e
      | Inr buffer \<Rightarrow> (case Encode mem v of Inl e \<Rightarrow> Inl e | Inr b \<Rightarrow> Inr buffer))"
| "Encode mem (Simple val) =
     (if val \<le> 23 then Write 0 [EncodeHeader 7 val] (AddAtStart 1024 mem)
      else Write 0 [EncodeHeader 7 24, val] (AddAtStart 1024 mem))"
| "Encode mem Invalid = Inr (AddAtStart 1024 mem)"

definition DecodeUnsigned :: "Buffer \<Rightarrow> 8 word \<Rightarrow> nat option" where
  "DecodeUnsigned buffer majorType =
     (if length buffer < 1 then None
      else let (readMajorType, additionalInfo) = DecodeHeader (hd buffer) in
        if readMajorType \<noteq> majorType then None
        else if additionalInfo \<le> 23 then Some (unat additionalInfo)
        else if additionalInfo = 24 then
          (if length buffer < 2 then None else Some (be_value (take 1 (tl buffer))))
        else if additionalInfo = 25 then
          (if length buffer < 3 then None else Some (be_value (take 2 (tl buffer))))
        else if additionalInfo = 26 then
          (if length buffer < 5 then None else Some (be_value (take 4 (tl buffer))))
        else if additionalInfo = 27 then
          (if length buffer < 9 then None else Some (be_value (take 8 (tl buffer))))
        else None)"

text \<open>
  \<open>Cbor::Decode\<close> has cases for the major types 0 and 1 only. The negative case converts
  the unsigned argument to \<open>int64_t\<close> before the subtraction.
\<close>

definition Decode :: "Buffer \<Rightarrow> CborValue option" where
  "Decode buffer =
     (if length buffer = 0 then None
      else let (majorType, additionalInfo) = DecodeHeader (hd buffer) in
        if majorType = 0 then
          (case DecodeUnsigned buffer majorType of
             None \<Rightarrow> None
           | Some v \<Rightarrow> Some (UnsignedInteger v))
        else if majorType = 1 then
          (case DecodeUnsigned buffer majorType of
             None \<Rightarrow> None
           | Some v \<Rightarrow>
               (let n = - 1 - sint (word_of_nat v :: 64 word)
                in Some (if n \<ge> 0 then UnsignedInteger (nat n) else NegativeInteger n)))
        else None)"

section \<open>Blocks of a bundle (bundle.cc, canonical-block.cc, endpoint.cc)\<close>

text \<open>
  Every \<open>EndpointID\<close> object is built by a constructor that either keeps the URI and
  splits it at its first colon into \<open>m_scheme\<close> and \<open>m_ssp\<close>, or falls back to
  \<open>dtn:none\<close>; the two parts are therefore read off the URI.
\<close>

definition GetScheme :: "EndpointID \<Rightarrow> string" where
  "GetScheme eid = takeWhile (\<lambda>c. c \<noteq> CHR '':'') eid"

definition GetSsp :: "EndpointID \<Rightarrow> string" where
  "GetSsp eid = drop (length (GetScheme eid) + 1) eid"

definition EndpointID_ToCbor :: "(nat \<Rightarrow> 8 word) \<Rightarrow> EndpointID \<Rightarrow> error + Buffer" where
  "EndpointID_ToCbor mem eid = Encode mem (Array [TextString (GetScheme eid), TextString (GetSsp eid)])"

definition SetPreviousNode ::
  "(nat \<Rightarrow> 8 word) \<Rightarrow> EndpointID \<Rightarrow> CanonicalBlock \<Rightarrow> error + CanonicalBlock" where
  "SetPreviousNode mem previousNode blk =
     (case EndpointID_ToCbor mem previousNode of
        Inl e \<Rightarrow> Inl e
      | Inr buffer \<Rightarrow> Inr (blk\<lparr>m_data := buffer\<rparr>))"

text \<open>\<open>Create<PreviousNodeBlock> (previousNode)\<close>.\<close>

definition PreviousNodeBlock_new :: "(nat \<Rightarrow> 8 word) \<Rightarrow> EndpointID \<Rightarrow> error + CanonicalBlock" where
  "PreviousNodeBlock_new mem previousNode =
     SetPreviousNode mem previousNode
       \<lparr>dyn_class = PreviousNodeBlockClass, m_blockType = PREVIOUS_NODE_BLOCK, m_blockNumber = 2,
        m_blockControlFlags = 0, m_crcTypeB = NO_CRC, m_data = [], m_crcValueB = []\<rparr>"

text \<open>\<open>Create<PayloadBlock> (payload)\<close>.\<close>

definition PayloadBlock_new :: "8 word list \<Rightarrow> CanonicalBlock" where
  "PayloadBlock_new payload =
     \<lparr>dyn_class = PayloadBlockClass, m_blockType = PAYLOAD_BLOCK, m_blockNumber = 1,
      m_blockControlFlags = 0, m_crcTypeB = NO_CRC, m_data = payload, m_crcValueB = []\<rparr>"

definition AddBlock :: "CanonicalBlock \<Rightarrow> Bundle \<Rightarrow> Bundle" where
  "AddBlock blk bundle =
     (let blk' =
        (if m_blockNumber blk = 0
         then blk\<lparr>m_blockNumber :=
                foldl max 0 (map m_blockNumber (m_canonicalBlocks bundle)) + 1\<rparr>
         else blk)
      in bundle\<lparr>m_canonicalBlocks := m_canonicalBlocks bundle @ [blk']\<rparr>)"

definition GetBlockByType :: "Bundle \<Rightarrow> BlockType \<Rightarrow> CanonicalBlock option" where
  "GetBlockByType bundle blockType =
     find (\<lambda>blk. m_blockType blk = blockType) (m_canonicalBlocks bundle)"

definition GetPayloadBlock :: "Bundle \<Rightarrow> CanonicalBlock option" where
  "GetPayloadBlock bundle = GetBlockByType bundle PAYLOAD_BLOCK"

definition GetPayload :: "Bundle \<Rightarrow> 8 word list" where
  "GetPayload bundle = (case GetPayloadBlock bundle of Some blk \<Rightarrow> m_data blk | None \<Rightarrow> [])"

text \<open>The object \<open>GetBlockByType\<close> points to, replaced by its mutated state.\<close>

fun replace_first :: "('a \<Rightarrow> bool) \<Rightarrow> 'a \<Rightarrow> 'a list \<Rightarrow> 'a list" where
  "replace_first P y [] = []"
| "replace_first P y (x # xs) = (if P x then y # xs else x # replace_first P y xs)"

section \<open>Encoding and decoding of blocks and bundles (primary-block.cc, canonical-block.cc, bundle.cc)\<close>

definition GetUnsignedInteger :: "CborValue \<Rightarrow> nat" where
  "GetUnsignedInteger v = (case v of UnsignedInteger n \<Rightarrow> n | _ \<Rightarrow> 0)"

definition IsTextString :: "CborValue \<Rightarrow> bool" where
  "IsTextString v = (case v of TextString s \<Rightarrow> True | _ \<Rightarrow> False)"

definition GetTextString :: "CborValue \<Rightarrow> string" where
  "GetTextString v = (case v of TextString s \<Rightarrow> s | _ \<Rightarrow> [])"

definition IsByteString :: "CborValue \<Rightarrow> bool" where
  "IsByteString v = (case v of ByteString b \<Rightarrow> True | _ \<Rightarrow> False)"

definition GetByteString :: "CborValue \<Rightarrow> 8 word list" where
  "GetByteString v = (case v of ByteString b \<Rightarrow> b | _ \<Rightarrow> [])"

definition IsArray :: "CborValue \<Rightarrow> bool" where
  "IsArray v = (case v of Array a \<Rightarrow> True | _ \<Rightarrow> False)"

definition GetArray :: "CborValue \<Rightarrow> CborValue list" where
  "GetArray v = (case v of Array a \<Rightarrow> a | _ \<Rightarrow> [])"

text \<open>The constructor \<open>CborValue (int64_t)\<close>.\<close>

definition CborValue_of_int64 :: "int \<Rightarrow> CborValue" where
  "CborValue_of_int64 v = (if v \<ge> 0 then UnsignedInteger (nat v) else NegativeInteger v)"

text \<open>\<open>Time::GetMilliSeconds\<close> and \<open>MilliSeconds\<close>; the division truncates towards zero.\<close>

definition GetMilliSeconds :: "Time \<Rightarrow> int" where
  "GetMilliSeconds t = sgn t * (\<bar>t\<bar> div 1000000)"

definition MilliSeconds :: "int \<Rightarrow> Time" where
  "MilliSeconds ms = ms * 1000000"

definition PrimaryBlock_array :: "PrimaryBlock \<Rightarrow> CborValue list" where
  "PrimaryBlock_array p =
     [UnsignedInteger (m_version p),
      UnsignedInteger (unat (m_bundleControlFlags p)),
      UnsignedInteger (m_crcType p),
      TextString (m_destinationEID p),
      TextString (m_sourceNodeEID p),
      TextString (m_reportToEID p),
      Array [UnsignedInteger (m_dtnTimeSeconds (m_creationTimestamp p)),
             UnsignedInteger (m_sequenceNumber p)],
      CborValue_of_int64 (GetMilliSeconds (m_lifetime p))]
     @ (if IsFragment p
        then [UnsignedInteger (m_fragmentOffset p),
              UnsignedInteger (m_totalApplicationDataUnitLength p)]
        else [])
     @ (if m_crcType p \<noteq> NO_CRC \<and> m_crcValue p \<noteq> [] then [ByteString (m_crcValue p)] else [])"

definition PrimaryBlock_ToCbor :: "(nat \<Rightarrow> 8 word) \<Rightarrow> PrimaryBlock \<Rightarrow> error + Buffer" where
  "PrimaryBlock_ToCbor mem p = Encode mem (Array (PrimaryBlock_array p))"

definition CanonicalBlock_array :: "CanonicalBlock \<Rightarrow> CborValue list" where
  "CanonicalBlock_array blk =
     [UnsignedInteger (m_blockType blk),
      UnsignedInteger (m_blockNumber blk),
      UnsignedInteger (unat (m_blockControlFlags blk)),
      UnsignedInteger (m_crcTypeB blk),
      ByteString (m_data blk)]
     @ (if m_crcTypeB blk \<noteq> NO_CRC \<and> m_crcValueB blk \<noteq> []
        then [ByteString (m_crcValueB blk)] else [])"

definition CanonicalBlock_ToCbor :: "(nat \<Rightarrow> 8 word) \<Rightarrow> CanonicalBlock \<Rightarrow> error + Buffer" where
  "CanonicalBlock_ToCbor mem blk = Encode mem (Array (CanonicalBlock_array blk))"

text \<open>The 16-bit checksum of crc.cc and the bytes \<open>CalculateCRC\<close> stores, high byte first.\<close>

definition crc16_shift :: "16 word \<Rightarrow> 16 word" where
  "crc16_shift crc =
     (if crc AND 0x8000 \<noteq> 0 then push_bit 1 crc XOR 0x1021 else push_bit 1 crc)"

definition CalculateCRC16 :: "8 word list \<Rightarrow> 16 word" where
  "CalculateCRC16 data =
     foldl (\<lambda>crc byte. (crc16_shift ^^ 8) (crc XOR push_bit 8 (ucast byte))) 0xFFFF data"

definition crc_bytes :: "CRCType \<Rightarrow> 8 word list \<Rightarrow> 8 word list" where
  "crc_bytes crcType data =
     (if crcType = CRC_16 then
        (let crc = CalculateCRC16 data in [ucast (drop_bit 8 crc), ucast crc])
      else if crcType = CRC_32 then
        (let crc = CalculateCRC32 data
         in [ucast (drop_bit 24 crc), ucast (drop_bit 16 crc), ucast (drop_bit 8 crc), ucast crc])
      else [])"

definition PrimaryBlock_CalculateCRC ::
  "(nat \<Rightarrow> 8 word) \<Rightarrow> PrimaryBlock \<Rightarrow> error + PrimaryBlock" where
  "PrimaryBlock_CalculateCRC mem p =
     (if m_crcType p = NO_CRC then Inr (p\<lparr>m_crcValue := []\<rparr>)
      else (case PrimaryBlock_ToCbor mem (p\<lparr>m_crcValue := []\<rparr>) of
              Inl e \<Rightarrow> Inl e
            | Inr buffer \<Rightarrow> Inr (p\<lparr>m_crcValue := crc_bytes (m_crcType p) buffer\<rparr>)))"

definition CanonicalBlock_CalculateCRC ::
  "(nat \<Rightarrow> 8 word) \<Rightarrow> CanonicalBlock \<Rightarrow> error + CanonicalBlock" where
  "CanonicalBlock_CalculateCRC mem blk =
     (if m_crcTypeB blk = NO_CRC then Inr (blk\<lparr>m_crcValueB := []\<rparr>)
      else (case CanonicalBlock_ToCbor mem (blk\<lparr>m_crcValueB := []\<rparr>) of
              Inl e \<Rightarrow> Inl e
            | Inr buffer \<Rightarrow> Inr (blk\<lparr>m_crcValueB := crc_bytes (m_crcTypeB blk) buffer\<rparr>)))"

fun blocks_CalculateCRC ::
  "(nat \<Rightarrow> 8 word) \<Rightarrow> CanonicalBlock list \<Rightarrow> error + CanonicalBlock list" where
  "blocks_CalculateCRC mem [] = Inr []"
| "blocks_CalculateCRC mem (blk # blks) =
     (case CanonicalBlock_CalculateCRC mem blk of
        Inl e \<Rightarrow> Inl e
      | Inr blk' \<Rightarrow>
          (case blocks_CalculateCRC mem blks of
             Inl e \<Rightarrow> Inl e
           | Inr blks' \<Rightarrow> Inr (blk' # blks')))"

definition Bundle_CalculateCRC :: "(nat \<Rightarrow> 8 word) \<Rightarrow> Bundle \<Rightarrow> error + Bundle" where
  "Bundle_CalculateCRC mem bundle =
     (case PrimaryBlock_CalculateCRC mem (m_primaryBlock bundle) of
        Inl e \<Rightarrow> Inl e
      | Inr p \<Rightarrow>
          (case blocks_CalculateCRC mem (m_canonicalBlocks bundle) of
             Inl e \<Rightarrow> Inl e
           | Inr blks \<Rightarrow> Inr \<lparr>m_primaryBlock = p, m_canonicalBlocks = blks\<rparr>))"

text \<open>
  \<open>Bundle::ToCbor\<close> encodes each block, decodes the bytes again and keeps the value only
  when the decoder returns one.
\<close>

fun blocks_decoded :: "(nat \<Rightarrow> 8 word) \<Rightarrow> CanonicalBlock list \<Rightarrow> error + CborValue list" where
  "blocks_decoded mem [] = Inr []"
| "blocks_decoded mem (blk # blks) =
     (case CanonicalBlock_ToCbor mem blk of
        Inl e \<Rightarrow> Inl e
      | Inr blockBuffer \<Rightarrow>
          (case blocks_decoded mem blks of
             Inl e \<Rightarrow> Inl e
           | Inr items \<Rightarrow>
               Inr ((case Decode blockBuffer of Some c \<Rightarrow> [c] | None \<Rightarrow> []) @ items)))"

definition Bundle_ToCbor :: "(nat \<Rightarrow> 8 word) \<Rightarrow> Bundle \<Rightarrow> error + Buffer" where
  "Bundle_ToCbor mem bundle =
     (case PrimaryBlock_ToCbor mem (m_primaryBlock bundle) of
        Inl e \<Rightarrow> Inl e
      | Inr primaryBuffer \<Rightarrow>
          (case blocks_decoded mem (m_canonicalBlocks bundle) of
             Inl e \<Rightarrow> Inl e
           | Inr items \<Rightarrow>
               Encode mem
                 (Array ((case Decode primaryBuffer of Some c \<Rightarrow> [c] | None \<Rightarrow> []) @ items))))"

text \<open>
  The constructor \<open>EndpointID (eid)\<close>. The two patterns it matches the URI against are
  \<open>^dtn:(//)?([^/]+)(/.*)?$\<close> and \<open>^ipn:(\d+)\.(\d+)$\<close>, where \<open>.\<close> stops at a line
  terminator.
\<close>

definition ParseDtn :: "string \<Rightarrow> bool" where
  "ParseDtn uri =
     (take 4 uri = ''dtn:'' \<and>
      (let rest = drop 4 uri;
           r = (if take 2 rest = ''//'' then drop 2 rest else rest);
           service = dropWhile (\<lambda>c. c \<noteq> CHR ''/'') r
       in r \<noteq> [] \<and> hd r \<noteq> CHR ''/''
          \<and> list_all (\<lambda>c. c \<noteq> CHR 0x0A \<and> c \<noteq> CHR 0x0D) service))"

definition is_digit :: "char \<Rightarrow> bool" where
  "is_digit c \<longleftrightarrow> (48::nat) \<le> of_char c \<and> of_char c \<le> (57::nat)"

definition ParseIpn :: "string \<Rightarrow> bool" where
  "ParseIpn uri =
     (take 4 uri = ''ipn:'' \<and>
      (let rest = drop 4 uri;
           node = takeWhile is_digit rest;
           service = drop (length node + 1) rest
       in node \<noteq> [] \<and> take 1 (drop (length node) rest) = ''.''
          \<and> service \<noteq> [] \<and> list_all is_digit service))"

definition EndpointID_new :: "string \<Rightarrow> EndpointID" where
  "EndpointID_new eid =
     (if eid = [] then ''dtn:none''
      else if CHR '':'' \<notin> set eid then ''dtn:none''
      else if GetScheme eid = ''dtn'' then (if ParseDtn eid then eid else ''dtn:none'')
      else if GetScheme eid = ''ipn'' then (if ParseIpn eid then eid else ''dtn:none'')
      else ''dtn:none'')"

text \<open>
  \<open>EndpointID::FromCbor\<close>, and \<open>PreviousNodeBlock::GetPreviousNode\<close>, which copies the
  data of the block into a buffer and decodes it.
\<close>

definition EndpointID_FromCbor :: "Buffer \<Rightarrow> EndpointID option" where
  "EndpointID_FromCbor buffer =
     (case Decode buffer of
        None \<Rightarrow> None
      | Some cbor \<Rightarrow>
          if IsArray cbor then
            (let array = GetArray cbor in
               if length array = 2 then
                 (if IsTextString (array ! 0) \<and> IsTextString (array ! 1)
                  then Some (EndpointID_new
                               (GetTextString (array ! 0) @ '':'' @ GetTextString (array ! 1)))
                  else None)
               else None)
          else None)"

definition GetPreviousNode :: "CanonicalBlock \<Rightarrow> EndpointID" where
  "GetPreviousNode blk =
     (case EndpointID_FromCbor (m_data blk) of
        Some eid \<Rightarrow> eid
      | None \<Rightarrow> EndpointID_new ''dtn:none'')"

text \<open>\<open>PrimaryBlock::FromCbor\<close>, after the call of the decoder.\<close>

definition PrimaryBlock_FromValue :: "CborValue \<Rightarrow> PrimaryBlock option" where
  "PrimaryBlock_FromValue cbor =
     (if \<not> IsArray cbor then None
      else let array = GetArray cbor in
        if length array < 8 then None
        else if \<not> IsArray (array ! 6) \<or> length (GetArray (array ! 6)) \<noteq> 2 then None
        else
          let bundleControlFlags = (word_of_nat (GetUnsignedInteger (array ! 1)) :: 64 word);
              crcType = GetUnsignedInteger (array ! 2);
              block =
                \<lparr>m_version = GetUnsignedInteger (array ! 0),
                 m_bundleControlFlags = bundleControlFlags,
                 m_crcType = crcType,
                 m_destinationEID = EndpointID_new (GetTextString (array ! 3)),
                 m_sourceNodeEID = EndpointID_new (GetTextString (array ! 4)),
                 m_reportToEID = EndpointID_new (GetTextString (array ! 5)),
                 m_creationTimestamp =
                   \<lparr>m_dtnTimeSeconds = GetUnsignedInteger (GetArray (array ! 6) ! 0),
                    m_dtnTimeNanoseconds = 0\<rparr>,
                 m_sequenceNumber = GetUnsignedInteger (GetArray (array ! 6) ! 1),
                 m_lifetime =
                   MilliSeconds (sint (word_of_nat (GetUnsignedInteger (array ! 7)) :: 64 word)),
                 m_fragmentOffset = 0,
                 m_totalApplicationDataUnitLength = 0,
                 m_crcValue = []\<rparr>;
              isFragment = (bundleControlFlags AND BUNDLE_IS_A_FRAGMENT \<noteq> 0)
          in
            if isFragment \<and> length array < 10 then None
            else
              let block' =
                    (if isFragment
                     then block\<lparr>m_fragmentOffset := GetUnsignedInteger (array ! 8),
                                m_totalApplicationDataUnitLength := GetUnsignedInteger (array ! 9)\<rparr>
                     else block);
                  crcIndex = (if isFragment then 10 else 8)
              in
                if crcType \<noteq> NO_CRC then
                  (if length array \<le> crcIndex then None
                   else if \<not> IsByteString (array ! crcIndex) then None
                   else Some (block'\<lparr>m_crcValue := GetByteString (array ! crcIndex)\<rparr>))
                else Some block')"

definition PrimaryBlock_FromCbor :: "Buffer \<Rightarrow> PrimaryBlock option" where
  "PrimaryBlock_FromCbor buffer =
     (case Decode buffer of None \<Rightarrow> None | Some cbor \<Rightarrow> PrimaryBlock_FromValue cbor)"

text \<open>\<open>CanonicalBlock::CreateBlock\<close>: the class of the new object follows the block type.\<close>

definition CreateBlock ::
  "BlockType \<Rightarrow> nat \<Rightarrow> 64 word \<Rightarrow> CRCType \<Rightarrow> 8 word list \<Rightarrow> CanonicalBlock" where
  "CreateBlock blockType blockNumber blockControlFlags crcType data =
     \<lparr>dyn_class =
        (if blockType = PAYLOAD_BLOCK then PayloadBlockClass
         else if blockType = PREVIOUS_NODE_BLOCK then PreviousNodeBlockClass
         else if blockType = BUNDLE_AGE_BLOCK then BundleAgeBlockClass
         else if blockType = HOP_COUNT_BLOCK then HopCountBlockClass
         else CanonicalBlockClass),
      m_blockType = blockType, m_blockNumber = blockNumber,
      m_blockControlFlags = blockControlFlags, m_crcTypeB = crcType, m_data = data,
      m_crcValueB = []\<rparr>"

definition CanonicalBlock_FromValue :: "CborValue \<Rightarrow> CanonicalBlock option" where
  "CanonicalBlock_FromValue cbor =
     (if \<not> IsArray cbor then None
      else let array = GetArray cbor in
        if length array < 5 then None
        else if \<not> IsByteString (array ! 4) then None
        else
          let crcType = GetUnsignedInteger (array ! 3);
              block =
                CreateBlock (GetUnsignedInteger (array ! 0)) (GetUnsignedInteger (array ! 1))
                  (word_of_nat (GetUnsignedInteger (array ! 2))) crcType
                  (GetByteString (array ! 4))
          in
            if crcType \<noteq> NO_CRC then
              (if length array \<le> 5 then None
               else if \<not> IsByteString (array ! 5) then None
               else Some (block\<lparr>m_crcValueB := GetByteString (array ! 5)\<rparr>))
            else Some block)"

definition CanonicalBlock_FromCbor :: "Buffer \<Rightarrow> CanonicalBlock option" where
  "CanonicalBlock_FromCbor buffer =
     (case Decode buffer of None \<Rightarrow> None | Some cbor \<Rightarrow> CanonicalBlock_FromValue cbor)"

text \<open>The loop of \<open>Bundle::FromCbor\<close> over the elements after the first.\<close>

fun blocks_FromCbor :: "(nat \<Rightarrow> 8 word) \<Rightarrow> Bundle \<Rightarrow> CborValue list \<Rightarrow> error + Bundle" where
  "blocks_FromCbor mem bundle [] = Inr bundle"
| "blocks_FromCbor mem bundle (item # items) =
     (if \<not> IsArray item then blocks_FromCbor mem bundle items
      else (case Encode mem item of
              Inl e \<Rightarrow> Inl e
            | Inr blockBuffer \<Rightarrow>
                (case CanonicalBlock_FromCbor blockBuffer of
                   None \<Rightarrow> blocks_FromCbor mem bundle items
                 | Some blk \<Rightarrow> blocks_FromCbor mem (AddBlock blk bundle) items)))"

definition Bundle_FromCbor :: "(nat \<Rightarrow> 8 word) \<Rightarrow> Buffer \<Rightarrow> error + Bundle option" where
  "Bundle_FromCbor mem buffer =
     (case Decode buffer of
        None \<Rightarrow> Inr None
      | Some cbor \<Rightarrow>
          if \<not> IsArray cbor \<or> GetArray cbor = [] then Inr None
          else if \<not> IsArray (GetArray cbor ! 0) then Inr None
          else (case Encode mem (GetArray cbor ! 0) of
                  Inl e \<Rightarrow> Inl e
                | Inr primaryBuffer \<Rightarrow>
                    (case PrimaryBlock_FromCbor primaryBuffer of
                       None \<Rightarrow> Inr None
                     | Some p \<Rightarrow>
                         (case blocks_FromCbor mem \<lparr>m_primaryBlock = p, m_canonicalBlocks = []\<rparr>
                                 (tl (GetArray cbor)) of
                            Inl e \<Rightarrow> Inl e
                          | Inr bundle \<Rightarrow> Inr (Some bundle)))))"

section \<open>Routing engine (routing.cc)\<close>

record BundleDescriptor =
  id_of :: BundleID
  receiver :: EndpointID
  sentNodes :: "NodeID list"
  expirationTime :: Time

record PeerInfo =
  nodeID :: NodeID
  lastSeen :: Time
  receptionTime :: Time
  reachable :: bool
  cla :: string
  endpoint :: string

definition SentTo :: "BundleDescriptor \<Rightarrow> NodeID \<Rightarrow> bool" where
  "SentTo d node \<longleftrightarrow> node \<in> set (sentNodes d)"

definition AddSentNode :: "NodeID \<Rightarrow> BundleDescriptor \<Rightarrow> BundleDescriptor" where
  "AddSentNode node d = (if \<not> SentTo d node then d\<lparr>sentNodes := sentNodes d @ [node]\<rparr> else d)"

definition Descriptor_IsExpired :: "Time \<Rightarrow> BundleDescriptor \<Rightarrow> bool" where
  "Descriptor_IsExpired now d \<longleftrightarrow> now > expirationTime d"

definition IsActive :: "Time \<Rightarrow> PeerInfo \<Rightarrow> bool" where
  "IsActive now p \<longleftrightarrow> reachable p \<and> now - lastSeen p < 300000000000"

text \<open>
  A convergence-layer sender, seen from the routing engine: whether it reports an endpoint
  reachable, and whether a \<open>Send\<close> of a bundle to an endpoint succeeds.
\<close>

record ConvergenceSender =
  IsEndpointReachable :: "string \<Rightarrow> bool"
  Send :: "Bundle \<Rightarrow> string \<Rightarrow> bool"

text \<open>
  \<open>m_bundleSentTrace\<close> is the list of the calls of the trace source, oldest first, each
  with the bundle as it was sent. \<open>m_bundlesD\<close> is the descriptor table \<open>m_bundles\<close> of
  the routing algorithm. The store is the object that the node shares with the engine.
\<close>

record RoutingAlgorithm =
  m_localNodeID :: NodeID
  m_store :: MemoryBundleStoreMax
  m_senders :: "ConvergenceSender list"
  m_peers :: "(NodeID \<times> PeerInfo) list"
  m_bundlesD :: "(BundleID \<times> BundleDescriptor) list"
  m_sentBundles :: nat
  m_failedBundles :: nat
  m_bundleSentTrace :: "(Bundle \<times> NodeID) list"

fun umap_update ::
  "BundleID \<Rightarrow> ('v \<Rightarrow> 'v) \<Rightarrow> (BundleID \<times> 'v) list \<Rightarrow> (BundleID \<times> 'v) list" where
  "umap_update k f [] = []"
| "umap_update k f ((k', v) # xs) =
     (if BundleID_eq k' k then (k', f v) # xs else (k', v) # umap_update k f xs)"

text \<open>
  The first part of the loop body of \<open>SendBundle\<close>: the previous-node block is looked up
  by type and cast to \<open>PreviousNodeBlock\<close>; a block that is missing, or that is not an
  object of that class, makes the engine create and add a new one.
\<close>

definition DynamicCast_PreviousNodeBlock :: "CanonicalBlock option \<Rightarrow> CanonicalBlock option" where
  "DynamicCast_PreviousNodeBlock p =
     (case p of
        None \<Rightarrow> None
      | Some blk \<Rightarrow> if dyn_class blk = PreviousNodeBlockClass then Some blk else None)"

definition UpdatePreviousNode :: "(nat \<Rightarrow> 8 word) \<Rightarrow> NodeID \<Rightarrow> Bundle \<Rightarrow> error + Bundle" where
  "UpdatePreviousNode mem localNodeID bundle =
     (case DynamicCast_PreviousNodeBlock (GetBlockByType bundle PREVIOUS_NODE_BLOCK) of
        None \<Rightarrow>
          (case PreviousNodeBlock_new mem localNodeID of
             Inl e \<Rightarrow> Inl e
           | Inr prevNode \<Rightarrow> Inr (AddBlock prevNode bundle))
      | Some prevNode \<Rightarrow>
          (case SetPreviousNode mem localNodeID prevNode of
             Inl e \<Rightarrow> Inl e
           | Inr prevNode' \<Rightarrow>
               Inr (bundle\<lparr>m_canonicalBlocks :=
                      replace_first (\<lambda>blk. m_blockType blk = PREVIOUS_NODE_BLOCK) prevNode'
                        (m_canonicalBlocks bundle)\<rparr>)))"

text \<open>
  \<open>SendBundle\<close> returns the engine, the bundle object as the call leaves it, and the
  result. Only the first sender that reports the endpoint reachable is tried.
\<close>

definition SendBundle ::
  "(nat \<Rightarrow> 8 word) \<Rightarrow> 'a RoutingAlgorithm_scheme \<Rightarrow> Bundle \<Rightarrow> NodeID \<Rightarrow> string
     \<Rightarrow> error + ('a RoutingAlgorithm_scheme \<times> Bundle \<times> bool)" where
  "SendBundle mem st bundle receiver' endpoint' =
     (case find (\<lambda>sender. IsEndpointReachable sender endpoint') (m_senders st) of
        None \<Rightarrow> Inr (st\<lparr>m_failedBundles := m_failedBundles st + 1\<rparr>, bundle, False)
      | Some sender \<Rightarrow>
          (case UpdatePreviousNode mem (m_localNodeID st) bundle of
             Inl e \<Rightarrow> Inl e
           | Inr bundle' \<Rightarrow>
               if Send sender bundle' endpoint' then
                 Inr (st\<lparr>m_bundlesD :=
                          umap_update (GetId bundle') (AddSentNode receiver') (m_bundlesD st),
                        m_sentBundles := m_sentBundles st + 1,
                        m_bundleSentTrace := m_bundleSentTrace st @ [(bundle', receiver')]\<rparr>,
                      bundle', True)
               else Inr (st\<lparr>m_failedBundles := m_failedBundles st + 1\<rparr>, bundle', False)))"

text \<open>
  \<open>m_bundlesMutex\<close> is a \<open>std::mutex\<close>, which is not recursive. The success branch of
  \<open>SendBundle\<close> opens with a \<open>lock_guard\<close> on it; the other branches take no lock.
  \<open>SendBundle_locked\<close> is the call made by a thread that holds \<open>m_bundlesMutex\<close>: the
  sender has transmitted the bundle when the thread stops at the \<open>lock_guard\<close>, and neither the
  descriptor nor the counters are written.
\<close>

definition SendBundle_locked ::
  "(nat \<Rightarrow> 8 word) \<Rightarrow> 'a RoutingAlgorithm_scheme \<Rightarrow> Bundle \<Rightarrow> NodeID \<Rightarrow> string
     \<Rightarrow> error + ('a RoutingAlgorithm_scheme \<times> Bundle \<times> bool)" where
  "SendBundle_locked mem st bundle receiver' endpoint' =
     (case find (\<lambda>sender. IsEndpointReachable sender endpoint') (m_senders st) of
        None \<Rightarrow> Inr (st\<lparr>m_failedBundles := m_failedBundles st + 1\<rparr>, bundle, False)
      | Some sender \<Rightarrow>
          (case UpdatePreviousNode mem (m_localNodeID st) bundle of
             Inl e \<Rightarrow> Inl e
           | Inr bundle' \<Rightarrow>
               if Send sender bundle' endpoint' then Inl Deadlock
               else Inr (st\<lparr>m_failedBundles := m_failedBundles st + 1\<rparr>, bundle', False)))"

definition CalculateExpirationTime :: "Bundle \<Rightarrow> Time" where
  "CalculateExpirationTime bundle =
     ToTime (m_creationTimestamp (m_primaryBlock bundle)) + m_lifetime (m_primaryBlock bundle)"

text \<open>\<open>UpdateBundleDescriptor\<close>: the table afterwards; an existing descriptor is kept.\<close>

definition UpdateBundleDescriptor ::
  "Bundle \<Rightarrow> (BundleID \<times> BundleDescriptor) list \<Rightarrow> (BundleID \<times> BundleDescriptor) list" where
  "UpdateBundleDescriptor bundle table =
     (case umap_find (GetId bundle) table of
        Some d \<Rightarrow> table
      | None \<Rightarrow>
          umap_assign (GetId bundle)
            \<lparr>id_of = GetId bundle, receiver = m_destinationEID (m_primaryBlock bundle),
             sentNodes = [], expirationTime = CalculateExpirationTime bundle\<rparr> table)"

definition Initialize ::
  "MemoryBundleStoreMax \<Rightarrow> ConvergenceSender list \<Rightarrow> NodeID \<Rightarrow> RoutingAlgorithm" where
  "Initialize store senders localNodeID =
     \<lparr>m_localNodeID = localNodeID, m_store = store, m_senders = senders, m_peers = [],
      m_bundlesD = [], m_sentBundles = 0, m_failedBundles = 0, m_bundleSentTrace = []\<rparr>"

fun peers_assign :: "NodeID \<Rightarrow> PeerInfo \<Rightarrow> (NodeID \<times> PeerInfo) list \<Rightarrow> (NodeID \<times> PeerInfo) list" where
  "peers_assign k v [] = [(k, v)]"
| "peers_assign k v ((k', v') # xs) =
     (if k' = k then (k', v) # xs else (k', v') # peers_assign k v xs)"

definition activePeers :: "Time \<Rightarrow> 'a RoutingAlgorithm_scheme \<Rightarrow> PeerInfo list" where
  "activePeers now st = filter (IsActive now) (map snd (m_peers st))"

section \<open>Epidemic routing (epidemic-routing.cc)\<close>

definition NotifyNewBundle ::
  "'a RoutingAlgorithm_scheme \<Rightarrow> Bundle option \<Rightarrow> NodeID \<Rightarrow> 'a RoutingAlgorithm_scheme" where
  "NotifyNewBundle st bundle source =
     (case PushMax (m_store st) bundle of
        (store', False) \<Rightarrow> st\<lparr>m_store := store'\<rparr>
      | (store', True) \<Rightarrow>
          (case bundle of
             None \<Rightarrow> st\<lparr>m_store := store'\<rparr>
           | Some b \<Rightarrow>
               st\<lparr>m_store := store',
                  m_bundlesD :=
                    umap_update (GetId b) (AddSentNode source)
                      (UpdateBundleDescriptor b (m_bundlesD st))\<rparr>))"

text \<open>
  The inner loop of \<open>DispatchBundles\<close> over the active peers, for one bundle. The iterator
  \<open>it\<close> points into the descriptor table, so each test reads the descriptor as the
  earlier sends of the pass left it. The loop runs with \<open>m_bundlesMutex\<close> held, like the
  one of the spray engine below. Here the mutex is left out and the pass goes on after a
  transmission, as if the lock could be taken again; the code stops at that point, so its
  runs are among those of this loop, and what holds after every run of the loop holds after
  every run of the code.
\<close>

fun epidemic_peers ::
  "(nat \<Rightarrow> 8 word) \<Rightarrow> 'a RoutingAlgorithm_scheme \<Rightarrow> Bundle \<Rightarrow> PeerInfo list
     \<Rightarrow> error + ('a RoutingAlgorithm_scheme \<times> Bundle)" where
  "epidemic_peers mem st bundle [] = Inr (st, bundle)"
| "epidemic_peers mem st bundle (peer # peers) =
     (if m_destinationEID (m_primaryBlock bundle) = m_localNodeID st
        then epidemic_peers mem st bundle peers
      else if m_destinationEID (m_primaryBlock bundle) \<noteq> nodeID peer
              \<and> nodeID peer = m_localNodeID st
        then epidemic_peers mem st bundle peers
      else if (case umap_find (GetId bundle) (m_bundlesD st) of
                 Some d \<Rightarrow> SentTo d (nodeID peer) | None \<Rightarrow> False)
        then epidemic_peers mem st bundle peers
      else (case SendBundle mem st bundle (nodeID peer) (endpoint peer) of
              Inl e \<Rightarrow> Inl e
            | Inr (st', bundle', r) \<Rightarrow> epidemic_peers mem st' bundle' peers))"

text \<open>
  The outer loop over the bundles of the store. The bundles are shared objects, so what
  \<open>SendBundle\<close> does to a bundle is seen in the store: the loop returns the entries of the
  store with the bundles as the pass leaves them.
\<close>

fun epidemic_bundles ::
  "(nat \<Rightarrow> 8 word) \<Rightarrow> Time \<Rightarrow> PeerInfo list \<Rightarrow> 'a RoutingAlgorithm_scheme
     \<Rightarrow> (BundleID \<times> Bundle) list
     \<Rightarrow> error + ('a RoutingAlgorithm_scheme \<times> (BundleID \<times> Bundle) list)" where
  "epidemic_bundles mem now peers st [] = Inr (st, [])"
| "epidemic_bundles mem now peers st ((k, bundle) # entries) =
     (if (case umap_find (GetId bundle) (m_bundlesD st) of
            Some d \<Rightarrow> Descriptor_IsExpired now d | None \<Rightarrow> False)
      then (case epidemic_bundles mem now peers st entries of
              Inl e \<Rightarrow> Inl e
            | Inr (st', entries') \<Rightarrow> Inr (st', (k, bundle) # entries'))
      else (case epidemic_peers mem st bundle peers of
              Inl e \<Rightarrow> Inl e
            | Inr (st', bundle') \<Rightarrow>
                (case epidemic_bundles mem now peers st' entries of
                   Inl e \<Rightarrow> Inl e
                 | Inr (st'', entries') \<Rightarrow> Inr (st'', (k, bundle') # entries'))))"

definition DispatchBundles ::
  "(nat \<Rightarrow> 8 word) \<Rightarrow> Time \<Rightarrow> 'a RoutingAlgorithm_scheme \<Rightarrow> error + 'a RoutingAlgorithm_scheme" where
  "DispatchBundles mem now st =
     (case epidemic_bundles mem now (activePeers now st) st (m_bundles (m_store st)) of
        Inl e \<Rightarrow> Inl e
      | Inr (st', entries') \<Rightarrow> Inr (st'\<lparr>m_store := (m_store st')\<lparr>m_bundles := entries'\<rparr>\<rparr>))"

definition NotifyPeerAppeared ::
  "(nat \<Rightarrow> 8 word) \<Rightarrow> Time \<Rightarrow> 'a RoutingAlgorithm_scheme \<Rightarrow> PeerInfo
     \<Rightarrow> error + 'a RoutingAlgorithm_scheme" where
  "NotifyPeerAppeared mem now st peer =
     DispatchBundles mem now (st\<lparr>m_peers := peers_assign (nodeID peer) peer (m_peers st)\<rparr>)"

definition NotifyPeerDisappeared ::
  "'a RoutingAlgorithm_scheme \<Rightarrow> NodeID \<Rightarrow> 'a RoutingAlgorithm_scheme" where
  "NotifyPeerDisappeared st peer = st\<lparr>m_peers := filter (\<lambda>(k, v). k \<noteq> peer) (m_peers st)\<rparr>"

section \<open>Spray-and-wait routing (spray-routing.cc)\<close>

record SprayAndWaitRouting = RoutingAlgorithm +
  m_copies :: "(BundleID \<times> nat) list"
  m_maxCopies :: nat

definition SetCopyCount ::
  "BundleID \<Rightarrow> nat \<Rightarrow> 'a SprayAndWaitRouting_scheme \<Rightarrow> 'a SprayAndWaitRouting_scheme" where
  "SetCopyCount k count st = st\<lparr>m_copies := umap_assign k count (m_copies st)\<rparr>"

definition GetCopyCount :: "'a SprayAndWaitRouting_scheme \<Rightarrow> BundleID \<Rightarrow> nat" where
  "GetCopyCount st k = (case umap_find k (m_copies st) of Some c \<Rightarrow> c | None \<Rightarrow> 1)"

definition DecreaseCopyCount ::
  "'a SprayAndWaitRouting_scheme \<Rightarrow> BundleID \<Rightarrow> 'a SprayAndWaitRouting_scheme \<times> nat" where
  "DecreaseCopyCount st k =
     (case umap_find k (m_copies st) of
        Some c \<Rightarrow>
          if c > 1 then (st\<lparr>m_copies := umap_update k (\<lambda>c. c - 1) (m_copies st)\<rparr>, c - 1)
          else (st, 1)
      | None \<Rightarrow> (st, 1))"

definition Spray_NotifyNewBundle ::
  "'a SprayAndWaitRouting_scheme \<Rightarrow> Bundle option \<Rightarrow> NodeID \<Rightarrow> 'a SprayAndWaitRouting_scheme" where
  "Spray_NotifyNewBundle st bundle source =
     (case PushMax (m_store st) bundle of
        (store', False) \<Rightarrow> st\<lparr>m_store := store'\<rparr>
      | (store', True) \<Rightarrow>
          (case bundle of
             None \<Rightarrow> st\<lparr>m_store := store'\<rparr>
           | Some b \<Rightarrow>
               SetCopyCount (GetId b)
                 (if m_sourceNodeEID (m_primaryBlock b) = m_localNodeID st then m_maxCopies st
                  else max 1 (m_maxCopies st div 2))
                 (st\<lparr>m_store := store',
                     m_bundlesD :=
                       umap_update (GetId b) (AddSentNode source)
                         (UpdateBundleDescriptor b (m_bundlesD st))\<rparr>)))"

text \<open>
  \<open>DispatchBundles\<close> takes \<open>m_bundlesMutex\<close> at the start of each round of the loop over
  the bundles and holds it to the end of the round, so both phases call \<open>SendBundle\<close> with
  the mutex held.
\<close>

text \<open>The wait phase: the loop over the active peers for a bundle whose count is at most 1.\<close>

fun wait_peers ::
  "(nat \<Rightarrow> 8 word) \<Rightarrow> 'a SprayAndWaitRouting_scheme \<Rightarrow> Bundle \<Rightarrow> PeerInfo list
     \<Rightarrow> error + ('a SprayAndWaitRouting_scheme \<times> Bundle)" where
  "wait_peers mem st bundle [] = Inr (st, bundle)"
| "wait_peers mem st bundle (peer # peers) =
     (if nodeID peer = m_destinationEID (m_primaryBlock bundle)
         \<and> (case umap_find (GetId bundle) (m_bundlesD st) of
               Some d \<Rightarrow> \<not> SentTo d (nodeID peer) | None \<Rightarrow> False)
      then (case SendBundle_locked mem st bundle (nodeID peer) (endpoint peer) of
              Inl e \<Rightarrow> Inl e
            | Inr (st', bundle', r) \<Rightarrow> wait_peers mem st' bundle' peers)
      else wait_peers mem st bundle peers)"

text \<open>
  One forwarding attempt of the spray phase: the statements of the loop body after the
  three skip tests. The result tells whether the bundle was sent.
\<close>

definition spray_attempt ::
  "(nat \<Rightarrow> 8 word) \<Rightarrow> 'a SprayAndWaitRouting_scheme \<Rightarrow> Bundle \<Rightarrow> PeerInfo
     \<Rightarrow> error + ('a SprayAndWaitRouting_scheme \<times> Bundle \<times> bool)" where
  "spray_attempt mem st bundle peer =
     (let (st1, newCount) = DecreaseCopyCount st (GetId bundle);
          peerCopies = newCount div 2;
          localCopies = newCount - peerCopies
      in case SendBundle_locked mem st1 bundle (nodeID peer) (endpoint peer) of
           Inl e \<Rightarrow> Inl e
         | Inr (st2, bundle', True) \<Rightarrow> Inr (SetCopyCount (GetId bundle) localCopies st2, bundle', True)
         | Inr (st2, bundle', False) \<Rightarrow> Inr (SetCopyCount (GetId bundle) newCount st2, bundle', False))"

text \<open>The spray phase: the loop leaves at the first send after which at most one copy is left.\<close>

fun spray_peers ::
  "(nat \<Rightarrow> 8 word) \<Rightarrow> 'a SprayAndWaitRouting_scheme \<Rightarrow> Bundle \<Rightarrow> PeerInfo list
     \<Rightarrow> error + ('a SprayAndWaitRouting_scheme \<times> Bundle)" where
  "spray_peers mem st bundle [] = Inr (st, bundle)"
| "spray_peers mem st bundle (peer # peers) =
     (if m_destinationEID (m_primaryBlock bundle) = m_localNodeID st
        then spray_peers mem st bundle peers
      else if m_destinationEID (m_primaryBlock bundle) \<noteq> nodeID peer
              \<and> nodeID peer = m_localNodeID st
        then spray_peers mem st bundle peers
      else if (case umap_find (GetId bundle) (m_bundlesD st) of
                 Some d \<Rightarrow> SentTo d (nodeID peer) | None \<Rightarrow> False)
        then spray_peers mem st bundle peers
      else (case spray_attempt mem st bundle peer of
              Inl e \<Rightarrow> Inl e
            | Inr (st', bundle', sent) \<Rightarrow>
                if sent \<and> GetCopyCount st' (GetId bundle) \<le> 1 then Inr (st', bundle')
                else spray_peers mem st' bundle' peers))"

fun spray_bundles ::
  "(nat \<Rightarrow> 8 word) \<Rightarrow> Time \<Rightarrow> PeerInfo list \<Rightarrow> 'a SprayAndWaitRouting_scheme
     \<Rightarrow> (BundleID \<times> Bundle) list
     \<Rightarrow> error + ('a SprayAndWaitRouting_scheme \<times> (BundleID \<times> Bundle) list)" where
  "spray_bundles mem now peers st [] = Inr (st, [])"
| "spray_bundles mem now peers st ((k, bundle) # entries) =
     (if (case umap_find (GetId bundle) (m_bundlesD st) of
            Some d \<Rightarrow> Descriptor_IsExpired now d | None \<Rightarrow> False)
      then (case spray_bundles mem now peers st entries of
              Inl e \<Rightarrow> Inl e
            | Inr (st', entries') \<Rightarrow> Inr (st', (k, bundle) # entries'))
      else (case (if GetCopyCount st (GetId bundle) \<le> 1 then wait_peers mem st bundle peers
                  else spray_peers mem st bundle peers) of
              Inl e \<Rightarrow> Inl e
            | Inr (st', bundle') \<Rightarrow>
                (case spray_bundles mem now peers st' entries of
                   Inl e \<Rightarrow> Inl e
                 | Inr (st'', entries') \<Rightarrow> Inr (st'', (k, bundle') # entries'))))"

definition Spray_DispatchBundles ::
  "(nat \<Rightarrow> 8 word) \<Rightarrow> Time \<Rightarrow> 'a SprayAndWaitRouting_scheme
     \<Rightarrow> error + 'a SprayAndWaitRouting_scheme" where
  "Spray_DispatchBundles mem now st =
     (case spray_bundles mem now (activePeers now st) st (m_bundles (m_store st)) of
        Inl e \<Rightarrow> Inl e
      | Inr (st', entries') \<Rightarrow> Inr (st'\<lparr>m_store := (m_store st')\<lparr>m_bundles := entries'\<rparr>\<rparr>))"

section \<open>Runs of the epidemic engine\<close>

text \<open>
  What can happen to an engine after \<open>Initialize\<close>: the calls the node makes, the periodic
  \<open>Cleanup\<close> of the store the node shares with the engine, and a change of what the
  convergence layers answer (reachability and the outcome of \<open>Send\<close> vary with the
  network). Each call that reads the clock carries the value of \<open>Simulator::Now ()\<close>.
\<close>

datatype event =
  NotifyNewBundleEv "Bundle option" NodeID
  | NotifyPeerAppearedEv Time PeerInfo
  | NotifyPeerDisappearedEv NodeID
  | DispatchBundlesEv Time
  | StoreCleanupEv Time
  | SendersChangeEv "ConvergenceSender list"

fun step :: "(nat \<Rightarrow> 8 word) \<Rightarrow> RoutingAlgorithm \<Rightarrow> event \<Rightarrow> error + RoutingAlgorithm" where
  "step mem st (NotifyNewBundleEv bundle source) = Inr (NotifyNewBundle st bundle source)"
| "step mem st (NotifyPeerAppearedEv now peer) = NotifyPeerAppeared mem now st peer"
| "step mem st (NotifyPeerDisappearedEv peer) = Inr (NotifyPeerDisappeared st peer)"
| "step mem st (DispatchBundlesEv now) = DispatchBundles mem now st"
| "step mem st (StoreCleanupEv now) = Inr (st\<lparr>m_store := fst (Cleanup now (m_store st))\<rparr>)"
| "step mem st (SendersChangeEv senders) = Inr (st\<lparr>m_senders := senders\<rparr>)"

fun run :: "(nat \<Rightarrow> 8 word) \<Rightarrow> RoutingAlgorithm \<Rightarrow> event list \<Rightarrow> error + RoutingAlgorithm" where
  "run mem st [] = Inr st"
| "run mem st (ev # evs) =
     (case step mem st ev of Inl e \<Rightarrow> Inl e | Inr st' \<Rightarrow> run mem st' evs)"

text \<open>
  A successful send of a bundle with the ID \<open>k\<close> to the peer \<open>p\<close> was recorded when the
  trace source \<open>BundleSent\<close> fired for such a bundle and \<open>p\<close>.
\<close>

definition send_recorded :: "(Bundle \<times> NodeID) list \<Rightarrow> BundleID \<Rightarrow> NodeID \<Rightarrow> bool" where
  "send_recorded trace k p = list_ex (\<lambda>(b, r). r = p \<and> BundleID_eq (GetId b) k) trace"

text \<open>The peer \<open>p\<close> was the source handed to \<open>NotifyNewBundle\<close> with a bundle of the ID \<open>k\<close>.\<close>

fun notifies :: "BundleID \<Rightarrow> NodeID \<Rightarrow> event \<Rightarrow> bool" where
  "notifies k p (NotifyNewBundleEv (Some b) source) = (source = p \<and> BundleID_eq (GetId b) k)"
| "notifies k p ev = False"

definition notified :: "event list \<Rightarrow> BundleID \<Rightarrow> NodeID \<Rightarrow> bool" where
  "notified evs k p = list_ex (notifies k p) evs"

text \<open>The invariant as the specification states it, and the one that holds.\<close>

definition sent_to_recorded :: "RoutingAlgorithm \<Rightarrow> bool" where
  "sent_to_recorded st =
     list_all (\<lambda>(k, d). list_all (send_recorded (m_bundleSentTrace st) (id_of d)) (sentNodes d))
       (m_bundlesD st)"

definition sent_to_justified :: "event list \<Rightarrow> RoutingAlgorithm \<Rightarrow> bool" where
  "sent_to_justified evs st =
     list_all
       (\<lambda>(k, d). list_all
          (\<lambda>p. notified evs (id_of d) p \<or> send_recorded (m_bundleSentTrace st) (id_of d) p)
          (sentNodes d))
       (m_bundlesD st)"

text \<open>
  The invariant the proof carries for one entry of the descriptor table: the key is the ID
  of the descriptor, and each peer of the sent-to list is accounted for.
\<close>

definition entry_ok :: "event list \<Rightarrow> (Bundle \<times> NodeID) list \<Rightarrow> BundleID \<times> BundleDescriptor \<Rightarrow> bool" where
  "entry_ok evs trace e =
     (BundleID_eq (fst e) (id_of (snd e))
      \<and> list_all (\<lambda>p. notified evs (id_of (snd e)) p \<or> send_recorded trace (id_of (snd e)) p)
           (sentNodes (snd e)))"

section \<open>Fragmentation manager (fragmentation-manager.cc)\<close>

record FragmentInfo =
  sourceId :: BundleID
  totalLength :: nat
  fragments :: "Bundle list"
  expirationTimeF :: Time
  complete :: bool

record FragmentationManager =
  m_fragmentSets :: "(BundleID \<times> FragmentInfo) list"
  m_fragmentedBundles :: nat
  m_createdFragments :: nat
  m_reassembledBundles :: nat
  m_abandonedFragmentSets :: nat

text \<open>
  The header overhead: the size of the encoded primary block plus the sizes of the encoded
  blocks that are not payload blocks and must be replicated.
\<close>

fun replicated_sizes :: "(nat \<Rightarrow> 8 word) \<Rightarrow> CanonicalBlock list \<Rightarrow> error + nat" where
  "replicated_sizes mem [] = Inr 0"
| "replicated_sizes mem (blk # blks) =
     (if m_blockType blk \<noteq> PAYLOAD_BLOCK \<and> MustBeReplicated blk
      then (case CanonicalBlock_ToCbor mem blk of
              Inl e \<Rightarrow> Inl e
            | Inr blockBuffer \<Rightarrow>
                (case replicated_sizes mem blks of
                   Inl e \<Rightarrow> Inl e
                 | Inr n \<Rightarrow> Inr (length blockBuffer + n)))
      else replicated_sizes mem blks)"

definition headerOverhead :: "(nat \<Rightarrow> 8 word) \<Rightarrow> Bundle \<Rightarrow> error + nat" where
  "headerOverhead mem bundle =
     (case PrimaryBlock_ToCbor mem (m_primaryBlock bundle) of
        Inl e \<Rightarrow> Inl e
      | Inr primaryBuffer \<Rightarrow>
          (case replicated_sizes mem (m_canonicalBlocks bundle) of
             Inl e \<Rightarrow> Inl e
           | Inr n \<Rightarrow> Inr (length primaryBuffer + n)))"

text \<open>
  The payload budget of a fragment, as \<open>FragmentBundle\<close> and
  \<open>CalculateFragmentPayloadSize\<close> both compute it from the maximum fragment size and the
  header overhead.
\<close>

definition maxPayloadPerFragment :: "nat \<Rightarrow> nat \<Rightarrow> nat" where
  "maxPayloadPerFragment maxFragmentSize overhead =
     (if maxFragmentSize > overhead then maxFragmentSize - overhead else maxFragmentSize div 2)"

text \<open>
  \<open>size_t\<close> and \<open>uint64_t\<close> have 64 bits. Sizes are natural numbers below \<open>2 ^ 64\<close>;
  a difference, a sum and a product of two of them wrap around.
\<close>

definition size_sub :: "nat \<Rightarrow> nat \<Rightarrow> nat" where
  "size_sub a b = (a + (2 ^ 64 - b mod 2 ^ 64)) mod 2 ^ 64"

definition size_add :: "nat \<Rightarrow> nat \<Rightarrow> nat" where
  "size_add a b = (a + b) mod 2 ^ 64"

definition size_mul :: "nat \<Rightarrow> nat \<Rightarrow> nat" where
  "size_mul a b = (a * b) mod 2 ^ 64"

definition CalculateFragmentPayloadSize ::
  "(nat \<Rightarrow> 8 word) \<Rightarrow> Bundle \<Rightarrow> nat \<Rightarrow> nat \<Rightarrow> nat \<Rightarrow> error + nat" where
  "CalculateFragmentPayloadSize mem bundle maxFragmentSize fragmentIndex totalFragments =
     (case headerOverhead mem bundle of
        Inl e \<Rightarrow> Inl e
      | Inr overhead \<Rightarrow>
          (let effectiveMaxSize = maxPayloadPerFragment maxFragmentSize overhead
           in if fragmentIndex = size_sub totalFragments 1
              then Inr (size_sub (length (GetPayload bundle))
                          (size_mul fragmentIndex effectiveMaxSize))
              else Inr effectiveMaxSize))"

text \<open>The replicas of the blocks to replicate: plain \<open>CanonicalBlock\<close> objects without CRC value.\<close>

definition replicas :: "CanonicalBlock list \<Rightarrow> CanonicalBlock list" where
  "replicas blks =
     map (\<lambda>blk. \<lparr>dyn_class = CanonicalBlockClass, m_blockType = m_blockType blk,
                  m_blockNumber = m_blockNumber blk,
                  m_blockControlFlags = m_blockControlFlags blk,
                  m_crcTypeB = m_crcTypeB blk, m_data = m_data blk, m_crcValueB = []\<rparr>)
       (filter (\<lambda>blk. m_blockType blk \<noteq> PAYLOAD_BLOCK \<and> MustBeReplicated blk) blks)"

text \<open>
  One round of the loop that creates the fragments; \<open>None\<close> is a round that is skipped
  because its offset is not inside the payload. The bytes of the fragment are those between
  two iterators into the payload; a second iterator beyond the end of the payload is a read
  past the end of the vector.
\<close>

definition make_fragment ::
  "(nat \<Rightarrow> 8 word) \<Rightarrow> Bundle \<Rightarrow> CanonicalBlock \<Rightarrow> nat \<Rightarrow> nat \<Rightarrow> nat \<Rightarrow> nat
     \<Rightarrow> error + Bundle option" where
  "make_fragment mem bundle payloadBlock maxFragmentSize budget numFragments i =
     (let fullPayload = m_data payloadBlock;
          totalLen = length fullPayload;
          offset = size_mul i budget
      in case CalculateFragmentPayloadSize mem bundle maxFragmentSize i numFragments of
           Inl e \<Rightarrow> Inl e
         | Inr size0 \<Rightarrow>
             if offset \<ge> totalLen then Inr None
             else
               (let payloadSize =
                      (if size_add offset size0 > totalLen then size_sub totalLen offset
                       else size0);
                    fragmentPrimary =
                      (SetFragmentation True (m_primaryBlock bundle))
                        \<lparr>m_fragmentOffset := offset,
                         m_totalApplicationDataUnitLength := totalLen\<rparr>
                in if offset + payloadSize > totalLen then Inl BufferOverrun
                   else
                     (let fragmentPayloadBlock =
                            (PayloadBlock_new (take payloadSize (drop offset fullPayload)))
                              \<lparr>m_crcTypeB := m_crcTypeB payloadBlock\<rparr>;
                          fragment =
                            foldl (\<lambda>f blk. AddBlock blk f)
                              (AddBlock fragmentPayloadBlock
                                 \<lparr>m_primaryBlock = fragmentPrimary, m_canonicalBlocks = []\<rparr>)
                              (replicas (m_canonicalBlocks bundle))
                      in case Bundle_CalculateCRC mem fragment of
                           Inl e \<Rightarrow> Inl e
                         | Inr fragment' \<Rightarrow> Inr (Some fragment'))))"

fun make_fragments ::
  "(nat \<Rightarrow> 8 word) \<Rightarrow> Bundle \<Rightarrow> CanonicalBlock \<Rightarrow> nat \<Rightarrow> nat \<Rightarrow> nat \<Rightarrow> nat list
     \<Rightarrow> error + Bundle list" where
  "make_fragments mem bundle payloadBlock maxFragmentSize budget numFragments [] = Inr []"
| "make_fragments mem bundle payloadBlock maxFragmentSize budget numFragments (i # is) =
     (case make_fragment mem bundle payloadBlock maxFragmentSize budget numFragments i of
        Inl e \<Rightarrow> Inl e
      | Inr f \<Rightarrow>
          (case make_fragments mem bundle payloadBlock maxFragmentSize budget numFragments is of
             Inl e \<Rightarrow> Inl e
           | Inr fs \<Rightarrow> Inr ((case f of Some x \<Rightarrow> [x] | None \<Rightarrow> []) @ fs)))"

definition FragmentBundle ::
  "(nat \<Rightarrow> 8 word) \<Rightarrow> FragmentationManager \<Rightarrow> Bundle \<Rightarrow> nat
     \<Rightarrow> error + (FragmentationManager \<times> Bundle list)" where
  "FragmentBundle mem st bundle maxFragmentSize =
     (if MustNotFragment (m_primaryBlock bundle) then Inr (st, [])
      else if IsAdministrativeRecord (m_primaryBlock bundle) then Inr (st, [])
      else case Bundle_ToCbor mem bundle of
        Inl e \<Rightarrow> Inl e
      | Inr fullBuffer \<Rightarrow>
          if length fullBuffer \<le> maxFragmentSize then Inr (st, [])
          else case GetPayloadBlock bundle of
            None \<Rightarrow> Inr (st, [])
          | Some payloadBlock \<Rightarrow>
              (case headerOverhead mem bundle of
                 Inl e \<Rightarrow> Inl e
               | Inr overhead \<Rightarrow>
                   (let budget = maxPayloadPerFragment maxFragmentSize overhead;
                        totalLen = length (m_data payloadBlock)
                    in if budget = 0 then Inl DivisionByZero
                       else
                         (let numFragments = size_sub (size_add totalLen budget) 1 div budget
                          in case make_fragments mem bundle payloadBlock maxFragmentSize budget
                                    numFragments [0..<numFragments] of
                               Inl e \<Rightarrow> Inl e
                             | Inr frags \<Rightarrow>
                                 Inr (if frags \<noteq> []
                                      then st\<lparr>m_fragmentedBundles := m_fragmentedBundles st + 1,
                                              m_createdFragments :=
                                                m_createdFragments st + length frags\<rparr>
                                      else st, frags)))))"

text \<open>Reassembly. A null fragment pointer is \<open>None\<close>.\<close>

definition GetOriginalBundleId :: "Bundle \<Rightarrow> BundleID" where
  "GetOriginalBundleId fragment =
     \<lparr>m_source = m_sourceNodeEID (m_primaryBlock fragment),
      m_timestamp = m_creationTimestamp (m_primaryBlock fragment),
      m_sequenceNumberI = m_sequenceNumber (m_primaryBlock fragment),
      m_isFragment = False,
      m_fragmentOffsetI = 0\<rparr>"

definition fragment_offset :: "Bundle \<Rightarrow> nat" where
  "fragment_offset b = m_fragmentOffset (m_primaryBlock b)"

text \<open>
  The walk over the sorted fragments: \<open>None\<close> when an offset lies beyond what is covered,
  the covered length otherwise.
\<close>

fun covered_walk :: "nat \<Rightarrow> Bundle list \<Rightarrow> nat option" where
  "covered_walk coveredLength [] = Some coveredLength"
| "covered_walk coveredLength (frag # frags) =
     (if fragment_offset frag > coveredLength then None
      else covered_walk (max coveredLength (fragment_offset frag + length (GetPayload frag))) frags)"

text \<open>
  The copy of the fragment payloads into a zeroed buffer of the total length; a payload
  that does not fit runs over the end of the buffer.
\<close>

fun copy_payloads :: "8 word list \<Rightarrow> Bundle list \<Rightarrow> error + 8 word list" where
  "copy_payloads buffer [] = Inr buffer"
| "copy_payloads buffer (frag # frags) =
     (case Write (fragment_offset frag) (GetPayload frag) buffer of
        Inl e \<Rightarrow> Inl e
      | Inr buffer' \<Rightarrow> copy_payloads buffer' frags)"

text \<open>
  The construction of the reassembled bundle from the ordered fragments of a complete set:
  a new payload block, followed by the blocks of the first fragment that are not payload
  blocks, as \<open>AddBlock\<close> and \<open>CalculateCRC\<close> leave them.
\<close>

definition Reassemble :: "(nat \<Rightarrow> 8 word) \<Rightarrow> nat \<Rightarrow> Bundle list \<Rightarrow> error + Bundle" where
  "Reassemble mem totalLen ordered =
     (case copy_payloads (replicate totalLen 0) ordered of
        Inl e \<Rightarrow> Inl e
      | Inr reassembledPayload \<Rightarrow>
          Bundle_CalculateCRC mem
            (foldl (\<lambda>f blk. AddBlock blk f)
               (AddBlock (PayloadBlock_new reassembledPayload)
                  \<lparr>m_primaryBlock = SetFragmentation False (m_primaryBlock (hd ordered)),
                   m_canonicalBlocks = []\<rparr>)
               (filter (\<lambda>blk. m_blockType blk \<noteq> PAYLOAD_BLOCK)
                  (m_canonicalBlocks (hd ordered)))))"

text \<open>
  The blocks that \<open>TryReassemble\<close> adds to the new bundle after the payload block are the
  block objects of the first fragment, not copies: the block number that \<open>AddBlock\<close> gives
  to a block numbered 0 and the CRC value that \<open>CalculateCRC\<close> writes show in the fragment
  that the set holds. \<open>share_back\<close> puts the blocks as the new bundle has them in the places
  of the blocks of the fragment that are not payload blocks. The fragments of a set are
  taken to share no block object with one another.
\<close>

fun share_back :: "CanonicalBlock list \<Rightarrow> CanonicalBlock list \<Rightarrow> CanonicalBlock list" where
  "share_back [] shared = []"
| "share_back (blk # blks) shared =
     (if m_blockType blk = PAYLOAD_BLOCK then blk # share_back blks shared
      else (case shared of
              [] \<Rightarrow> blk # share_back blks []
            | blk' # shared' \<Rightarrow> blk' # share_back blks shared'))"

text \<open>
  \<open>TryReassemble\<close> returns the fragment set as it leaves it and the reassembled bundle,
  if there is one. It is called with at least one fragment in the set. \<open>std::sort\<close> leaves
  the order of fragments with equal offsets open; \<open>AddFragment\<close> stores no two fragments
  with the same offset.
\<close>

definition TryReassemble ::
  "(nat \<Rightarrow> 8 word) \<Rightarrow> FragmentInfo \<Rightarrow> error + (FragmentInfo \<times> Bundle option)" where
  "TryReassemble mem info =
     (if complete info then Inr (info, None)
      else
        (let ordered = sort_key fragment_offset (fragments info);
             info' = info\<lparr>fragments := ordered\<rparr>
         in case covered_walk 0 ordered of
              None \<Rightarrow> Inr (info', None)
            | Some coveredLength \<Rightarrow>
                if coveredLength < totalLength info then Inr (info', None)
                else (case Reassemble mem (totalLength info) ordered of
                        Inl e \<Rightarrow> Inl e
                      | Inr reassembled \<Rightarrow>
                          Inr (info'\<lparr>fragments :=
                                       (hd ordered)
                                         \<lparr>m_canonicalBlocks :=
                                            share_back (m_canonicalBlocks (hd ordered))
                                              (tl (m_canonicalBlocks reassembled))\<rparr>
                                       # tl ordered,
                                     complete := True\<rparr>,
                               Some reassembled))))"

definition AddFragment ::
  "(nat \<Rightarrow> 8 word) \<Rightarrow> FragmentationManager \<Rightarrow> Bundle option
     \<Rightarrow> error + (FragmentationManager \<times> Bundle option)" where
  "AddFragment mem st fragment =
     (case fragment of
        None \<Rightarrow> Inr (st, None)
      | Some f \<Rightarrow>
          if \<not> IsFragment (m_primaryBlock f) then Inr (st, None)
          else
            (let originalId = GetOriginalBundleId f;
                 info0 =
                   (case umap_find originalId (m_fragmentSets st) of
                      Some info \<Rightarrow> info
                    | None \<Rightarrow>
                        \<lparr>sourceId = originalId, totalLength = 0, fragments = [],
                         expirationTimeF = 0, complete = False\<rparr>);
                 info1 =
                   (if fragments info0 = []
                    then info0\<lparr>sourceId := originalId,
                               totalLength := m_totalApplicationDataUnitLength (m_primaryBlock f),
                               expirationTimeF :=
                                 ToTime (m_creationTimestamp (m_primaryBlock f))
                                 + m_lifetime (m_primaryBlock f),
                               complete := False\<rparr>
                    else info0)
             in if list_ex (\<lambda>g. fragment_offset g = fragment_offset f) (fragments info1)
                then Inr (st\<lparr>m_fragmentSets := umap_assign originalId info1 (m_fragmentSets st)\<rparr>,
                          None)
                else (case TryReassemble mem (info1\<lparr>fragments := fragments info1 @ [f]\<rparr>) of
                        Inl e \<Rightarrow> Inl e
                      | Inr (info2, r) \<Rightarrow>
                          Inr (st\<lparr>m_fragmentSets :=
                                    umap_assign originalId info2 (m_fragmentSets st),
                                  m_reassembledBundles :=
                                    m_reassembledBundles st + (if r = None then 0 else 1)\<rparr>,
                               r))))"

section \<open>Concrete inputs\<close>

definition eid_a :: EndpointID where "eid_a = ''dtn://a/''"
definition eid_b :: EndpointID where "eid_b = ''dtn://b/''"

definition primary_ab :: PrimaryBlock where
  "primary_ab =
     \<lparr>m_version = 7, m_bundleControlFlags = 0, m_crcType = NO_CRC,
      m_destinationEID = eid_b, m_sourceNodeEID = eid_a, m_reportToEID = ''dtn:none'',
      m_creationTimestamp = \<lparr>m_dtnTimeSeconds = 100, m_dtnTimeNanoseconds = 0\<rparr>,
      m_sequenceNumber = 0, m_lifetime = 5000000000,
      m_fragmentOffset = 0, m_totalApplicationDataUnitLength = 0, m_crcValue = []\<rparr>"

definition payload_block :: "8 word list \<Rightarrow> CanonicalBlock" where
  "payload_block payload =
     \<lparr>dyn_class = PayloadBlockClass, m_blockType = PAYLOAD_BLOCK, m_blockNumber = 1,
      m_blockControlFlags = 0, m_crcTypeB = NO_CRC, m_data = payload, m_crcValueB = []\<rparr>"

definition bundle_one :: Bundle where
  "bundle_one = \<lparr>m_primaryBlock = primary_ab, m_canonicalBlocks = [payload_block [1, 2, 3]]\<rparr>"

definition bundle_two :: Bundle where
  "bundle_two = \<lparr>m_primaryBlock = primary_ab, m_canonicalBlocks = [payload_block [9]]\<rparr>"

definition store_one :: MemoryBundleStore where
  "store_one =
     \<lparr>m_bundles = [(GetId bundle_one, bundle_one)], m_pushCount = 1, m_getCount = 0,
      m_removeCount = 0\<rparr>"

definition store_one_max :: MemoryBundleStoreMax where
  "store_one_max =
     \<lparr>m_bundles = [(GetId bundle_one, bundle_one)], m_pushCount = 1, m_getCount = 0,
      m_removeCount = 0, m_maxBundles = 1000\<rparr>"

definition bundle_three :: Bundle where
  "bundle_three =
     \<lparr>m_primaryBlock = primary_ab\<lparr>m_sequenceNumber := 7\<rparr>, m_canonicalBlocks = []\<rparr>"

definition sender_up :: ConvergenceSender where
  "sender_up = \<lparr>IsEndpointReachable = (\<lambda>e. True), Send = (\<lambda>b e. True)\<rparr>"

definition sender_failing :: ConvergenceSender where
  "sender_failing = \<lparr>IsEndpointReachable = (\<lambda>e. True), Send = (\<lambda>b e. False)\<rparr>"

definition engine_a_failing :: RoutingAlgorithm where
  "engine_a_failing = Initialize store_one_max [sender_failing] eid_a"

definition previous_node_a :: CanonicalBlock where
  "previous_node_a =
     \<lparr>dyn_class = PreviousNodeBlockClass, m_blockType = PREVIOUS_NODE_BLOCK, m_blockNumber = 2,
      m_blockControlFlags = 0, m_crcTypeB = NO_CRC,
      m_data = 0x82 # drop 1 (AddAtStart 1024 (\<lambda>i. 0)), m_crcValueB = []\<rparr>"

definition peer_b :: PeerInfo where
  "peer_b =
     \<lparr>nodeID = eid_b, lastSeen = 0, receptionTime = 0, reachable = True, cla = ''tcp'',
      endpoint = ''10.0.0.2''\<rparr>"

text \<open>A spray-and-wait engine at node \<open>a\<close> that holds \<open>bundle_one\<close> with a given copy count.\<close>

definition spray_engine :: "ConvergenceSender \<Rightarrow> nat \<Rightarrow> SprayAndWaitRouting" where
  "spray_engine sender c =
     \<lparr>m_localNodeID = eid_a, m_store = store_one_max, m_senders = [sender],
      m_peers = [(eid_b, peer_b)],
      m_bundlesD =
        [(GetId bundle_one,
          \<lparr>id_of = GetId bundle_one, receiver = eid_b, sentNodes = [eid_a],
           expirationTime = 105000000000\<rparr>)],
      m_sentBundles = 0, m_failedBundles = 0, m_bundleSentTrace = [],
      m_copies = [(GetId bundle_one, c)], m_maxCopies = 6\<rparr>"

definition bundle_one_stamped :: Bundle where
  "bundle_one_stamped =
     bundle_one\<lparr>m_canonicalBlocks := [payload_block [1, 2, 3], previous_node_a]\<rparr>"

definition store_empty :: MemoryBundleStoreMax where
  "store_empty =
     \<lparr>m_bundles = [], m_pushCount = 0, m_getCount = 0, m_removeCount = 0, m_maxBundles = 1000\<rparr>"

definition eid_c :: EndpointID where "eid_c = ''dtn://c/''"

text \<open>
  The engine of node \<open>a\<close> after it was told of \<open>bundle_one\<close>, received from \<open>c\<close>, and then
  met the peer \<open>b\<close>, with a sender that delivers.
\<close>

definition engine_after_meeting_b :: RoutingAlgorithm where
  "engine_after_meeting_b =
     \<lparr>m_localNodeID = eid_a,
      m_store =
        \<lparr>m_bundles = [(GetId bundle_one, bundle_one_stamped)], m_pushCount = 1, m_getCount = 0,
         m_removeCount = 0, m_maxBundles = 1000\<rparr>,
      m_senders = [sender_up],
      m_peers = [(eid_b, peer_b)],
      m_bundlesD =
        [(GetId bundle_one,
          \<lparr>id_of = GetId bundle_one, receiver = eid_b, sentNodes = [eid_c, eid_b],
           expirationTime = 105000000000\<rparr>)],
      m_sentBundles = 1, m_failedBundles = 0,
      m_bundleSentTrace = [(bundle_one_stamped, eid_b)]\<rparr>"

text \<open>
  The two fragments of a bundle with the payload 01 02 03, cut after two bytes. The first
  carries a hop-count block that has not been given a number yet.
\<close>

definition hop_block :: "nat \<Rightarrow> CanonicalBlock" where
  "hop_block number =
     \<lparr>dyn_class = CanonicalBlockClass, m_blockType = HOP_COUNT_BLOCK, m_blockNumber = number,
      m_blockControlFlags = 0, m_crcTypeB = NO_CRC, m_data = [7], m_crcValueB = []\<rparr>"

definition primary_fragment :: "nat \<Rightarrow> PrimaryBlock" where
  "primary_fragment offset =
     primary_ab\<lparr>m_bundleControlFlags := BUNDLE_IS_A_FRAGMENT, m_fragmentOffset := offset,
                m_totalApplicationDataUnitLength := 3\<rparr>"

definition fragment_first :: Bundle where
  "fragment_first =
     \<lparr>m_primaryBlock = primary_fragment 0,
      m_canonicalBlocks = [payload_block [1, 2], hop_block 0]\<rparr>"

definition fragment_second :: Bundle where
  "fragment_second =
     \<lparr>m_primaryBlock = primary_fragment 2, m_canonicalBlocks = [payload_block [3]]\<rparr>"

definition info_first :: FragmentInfo where
  "info_first =
     \<lparr>sourceId = GetOriginalBundleId fragment_first, totalLength = 3,
      fragments = [fragment_first], expirationTimeF = 105000000000, complete = False\<rparr>"

definition manager_first :: FragmentationManager where
  "manager_first =
     \<lparr>m_fragmentSets = [(GetOriginalBundleId fragment_first, info_first)],
      m_fragmentedBundles = 0, m_createdFragments = 0, m_reassembledBundles = 0,
      m_abandonedFragmentSets = 0\<rparr>"

definition reassembled_one :: Bundle where
  "reassembled_one =
     \<lparr>m_primaryBlock = (primary_fragment 0)\<lparr>m_bundleControlFlags := 0\<rparr>,
      m_canonicalBlocks = [payload_block [1, 2, 3], hop_block 2]\<rparr>"

text \<open>
  The bundle of the fragmentation scenario, with a payload of 10000 bytes, and a
  fragmentation manager as its constructor leaves it.
\<close>

definition bundle_large :: Bundle where
  "bundle_large =
     \<lparr>m_primaryBlock = primary_ab, m_canonicalBlocks = [payload_block (replicate 10000 0)]\<rparr>"

definition manager_new :: FragmentationManager where
  "manager_new =
     \<lparr>m_fragmentSets = [], m_fragmentedBundles = 0, m_createdFragments = 0,
      m_reassembledBundles = 0, m_abandonedFragmentSets = 0\<rparr>"

text \<open>
  A previous-node block as the default constructor makes it, and a block of the same type
  that is an object of the base class, as \<open>FragmentBundle\<close> makes its replicas.
\<close>

definition previous_node_empty :: CanonicalBlock where
  "previous_node_empty =
     \<lparr>dyn_class = PreviousNodeBlockClass, m_blockType = PREVIOUS_NODE_BLOCK, m_blockNumber = 2,
      m_blockControlFlags = 0, m_crcTypeB = NO_CRC, m_data = [], m_crcValueB = []\<rparr>"

definition previous_node_plain :: CanonicalBlock where
  "previous_node_plain =
     \<lparr>dyn_class = CanonicalBlockClass, m_blockType = PREVIOUS_NODE_BLOCK, m_blockNumber = 2,
      m_blockControlFlags = 0, m_crcTypeB = NO_CRC, m_data = [1], m_crcValueB = []\<rparr>"

section \<open>Lemmas on the container\<close>

lemma BundleID_eq_refl: "BundleID_eq a a"
  by (simp add: BundleID_eq_def)

lemma BundleID_eq_sym: "BundleID_eq a b \<Longrightarrow> BundleID_eq b a"
  by (auto simp: BundleID_eq_def split: if_splits)

lemma BundleID_eq_trans: "BundleID_eq a b \<Longrightarrow> BundleID_eq b c \<Longrightarrow> BundleID_eq a c"
  by (auto simp: BundleID_eq_def split: if_splits)

lemma umap_find_assign_same: "umap_find k (umap_assign k v xs) = Some v"
  by (induction xs) (auto simp: BundleID_eq_refl)

lemma umap_find_assign_other:
  "\<not> BundleID_eq k' k \<Longrightarrow> umap_find k' (umap_assign k v xs) = umap_find k' xs"
proof (induction xs)
  case Nil
  then show ?case by (auto dest: BundleID_eq_sym)
next
  case (Cons e xs)
  obtain j w where e: "e = (j, w)" by (cases e)
  show ?case
  proof (cases "BundleID_eq j k")
    case True
    with Cons.prems have "\<not> BundleID_eq j k'"
      by (metis BundleID_eq_sym BundleID_eq_trans)
    with True e show ?thesis by simp
  next
    case False
    with Cons e show ?thesis by simp
  qed
qed

lemma umap_find_filter:
  "umap_find k (filter (\<lambda>(j, v). P v) xs) = Some v \<Longrightarrow> P v"
  by (induction xs) (auto split: if_splits)

section \<open>Lemmas on the codec\<close>

lemma length_AddAtStart [simp]: "length (AddAtStart n mem) = n"
  by (simp add: AddAtStart_def)

lemma Write_start:
  "length bytes \<le> length buffer \<Longrightarrow> Write 0 bytes buffer = Inr (bytes @ drop (length bytes) buffer)"
  by (simp add: Write_def)

lemma EncodeUnsigned_bytes_length:
  "EncodeUnsigned_bytes majorType v \<noteq> [] \<and> length (EncodeUnsigned_bytes majorType v) \<le> 9"
  by (simp add: EncodeUnsigned_bytes_def be_bytes_def)

lemma hd_EncodeUnsigned_bytes:
  "\<exists>ai. hd (EncodeUnsigned_bytes majorType v) = EncodeHeader majorType ai"
  by (auto simp: EncodeUnsigned_bytes_def)

lemma EncodeUnsigned_fresh:
  "EncodeUnsigned (AddAtStart 1024 mem) majorType v =
     Inr (EncodeUnsigned_bytes majorType v
          @ drop (length (EncodeUnsigned_bytes majorType v)) (AddAtStart 1024 mem))"
proof -
  have "length (EncodeUnsigned_bytes majorType v) \<le> length (AddAtStart 1024 mem)"
    using EncodeUnsigned_bytes_length [of majorType v] by simp
  then show ?thesis
    unfolding EncodeUnsigned_def by (rule Write_start)
qed

lemma major_of_array_header: "fst (DecodeHeader (EncodeHeader 4 ai)) = 4"
  unfolding DecodeHeader_def EncodeHeader_def fst_conv
  by (rule bit_eqI) (auto simp: bit_simps)

lemma Encode_Array_cases:
  "(\<exists>e. Encode mem (Array items) = Inl e)
   \<or> Encode mem (Array items) =
       Inr (EncodeUnsigned_bytes 4 (length items)
            @ drop (length (EncodeUnsigned_bytes 4 (length items))) (AddAtStart 1024 mem))"
  by (cases "first_error (map (Encode mem) items)") (simp_all add: EncodeUnsigned_fresh)

lemma Encode_Array_Inr:
  assumes "Encode mem (Array items) = Inr buffer"
  shows "length buffer = 1024 \<and> fst (DecodeHeader (hd buffer)) = 4"
proof -
  let ?h = "EncodeUnsigned_bytes 4 (length items)"
  from assms Encode_Array_cases [of mem items]
  have b: "buffer = ?h @ drop (length ?h) (AddAtStart 1024 mem)" by auto
  have ne: "?h \<noteq> []" and le: "length ?h \<le> 9"
    using EncodeUnsigned_bytes_length [of 4 "length items"] by simp_all
  from ne have "hd buffer = hd ?h" by (simp add: b)
  moreover obtain ai where "hd ?h = EncodeHeader 4 ai"
    using hd_EncodeUnsigned_bytes [of 4 "length items"] by blast
  ultimately have "fst (DecodeHeader (hd buffer)) = 4"
    by (simp add: major_of_array_header)
  moreover from le have "length buffer = 1024" by (simp add: b)
  ultimately show ?thesis by simp
qed

lemma Decode_array_header:
  "fst (DecodeHeader (hd buffer)) = 4 \<Longrightarrow> Decode buffer = None"
  by (cases "DecodeHeader (hd buffer)") (simp add: Decode_def)

lemma Bundle_ToCbor_Inr:
  assumes "Bundle_ToCbor mem bundle = Inr buffer"
  shows "length buffer = 1024 \<and> Decode buffer = None"
proof -
  from assms obtain items where "Encode mem (Array items) = Inr buffer"
    by (auto simp: Bundle_ToCbor_def simp del: Encode.simps split: sum.splits)
  then show ?thesis
    using Encode_Array_Inr Decode_array_header by blast
qed

lemma Bundle_FromCbor_ToCbor:
  "Bundle_ToCbor mem bundle = Inr buffer \<Longrightarrow> Bundle_FromCbor mem' buffer = Inr None"
  by (simp add: Bundle_FromCbor_def Bundle_ToCbor_Inr)

lemma block_ToCbor_not_decodable:
  "PrimaryBlock_ToCbor mem p = Inr buffer \<Longrightarrow> Decode buffer = None"
  "CanonicalBlock_ToCbor mem blk = Inr buffer \<Longrightarrow> Decode buffer = None"
  using Encode_Array_Inr Decode_array_header
  by (auto simp: PrimaryBlock_ToCbor_def CanonicalBlock_ToCbor_def simp del: Encode.simps)

lemma blocks_decoded_Inr: "blocks_decoded mem blks = Inr items \<Longrightarrow> items = []"
  by (induction blks arbitrary: items)
     (auto split: sum.splits simp: block_ToCbor_not_decodable)

lemma Bundle_ToCbor_cases:
  "(\<exists>e. Bundle_ToCbor mem bundle = Inl e)
   \<or> Bundle_ToCbor mem bundle = Inr (0x80 # drop 1 (AddAtStart 1024 mem))"
proof (cases "Bundle_ToCbor mem bundle")
  case (Inl e)
  then show ?thesis by simp
next
  case (Inr buffer)
  then obtain p where p: "PrimaryBlock_ToCbor mem (m_primaryBlock bundle) = Inr p"
    by (auto simp: Bundle_ToCbor_def split: sum.splits)
  with Inr obtain items where i: "blocks_decoded mem (m_canonicalBlocks bundle) = Inr items"
    by (auto simp: Bundle_ToCbor_def split: sum.splits)
  from p i Inr have "Encode mem (Array []) = Inr buffer"
    using block_ToCbor_not_decodable(1) [OF p] blocks_decoded_Inr [OF i]
    by (simp add: Bundle_ToCbor_def del: Encode.simps)
  then have "buffer = 0x80 # drop 1 (AddAtStart 1024 mem)"
    by (simp add: EncodeUnsigned_fresh EncodeUnsigned_bytes_def EncodeHeader_def)
  with Inr show ?thesis by simp
qed

lemma length_fresh_header:
  "length (EncodeUnsigned_bytes majorType v
           @ drop (length (EncodeUnsigned_bytes majorType v)) (AddAtStart 1024 mem)) = 1024"
  using EncodeUnsigned_bytes_length [of majorType v] by simp

lemma Encode_UnsignedInteger_ok: "\<exists>b. Encode mem (UnsignedInteger v) = Inr b"
  by (simp add: EncodeUnsigned_fresh)

lemma Encode_TextString_ok: "length text \<le> 1024 \<Longrightarrow> \<exists>b. Encode mem (TextString text) = Inr b"
  by (simp add: EncodeUnsigned_fresh Write_def length_fresh_header del: length_append)

lemma Encode_ByteString_ok: "length bytes \<le> 1024 \<Longrightarrow> \<exists>b. Encode mem (ByteString bytes) = Inr b"
  by (simp add: EncodeUnsigned_fresh Write_def length_fresh_header del: length_append)

lemma Encode_Array_ok:
  "first_error (map (Encode mem) items) = Inr () \<Longrightarrow> \<exists>b. Encode mem (Array items) = Inr b"
  by (simp add: EncodeUnsigned_fresh)

lemma first_error_Cons_ok:
  "\<exists>b. r = Inr b \<Longrightarrow> first_error (r # rs) = first_error rs"
  by auto

lemma PrimaryBlock_ToCbor_primary_ab: "\<exists>b. PrimaryBlock_ToCbor mem primary_ab = Inr b"
  unfolding PrimaryBlock_ToCbor_def
  apply (rule Encode_Array_ok)
  apply (simp add: PrimaryBlock_array_def primary_ab_def eid_a_def eid_b_def IsFragment_def
      NO_CRC_def CborValue_of_int64_def GetMilliSeconds_def first_error_Cons_ok
      Encode_UnsignedInteger_ok Encode_TextString_ok Encode_Array_ok del: Encode.simps)
  done

lemma CanonicalBlock_ToCbor_payload_block:
  "length payload \<le> 1024 \<Longrightarrow> \<exists>b. CanonicalBlock_ToCbor mem (payload_block payload) = Inr b"
  unfolding CanonicalBlock_ToCbor_def
  apply (rule Encode_Array_ok)
  apply (simp add: CanonicalBlock_array_def payload_block_def NO_CRC_def first_error_Cons_ok
      Encode_UnsignedInteger_ok Encode_ByteString_ok del: Encode.simps)
  done

lemma Bundle_ToCbor_bundle_one: "\<exists>b. Bundle_ToCbor mem bundle_one = Inr b"
proof -
  obtain p where p: "PrimaryBlock_ToCbor mem primary_ab = Inr p"
    using PrimaryBlock_ToCbor_primary_ab by blast
  obtain c where c: "CanonicalBlock_ToCbor mem (payload_block [1, 2, 3]) = Inr c"
    using CanonicalBlock_ToCbor_payload_block [of "[1, 2, 3]" mem] by auto
  from p c show ?thesis
    by (simp add: Bundle_ToCbor_def bundle_one_def block_ToCbor_not_decodable
        EncodeUnsigned_fresh)
qed

lemma PrimaryBlock_FromValue_nanoseconds:
  "PrimaryBlock_FromValue cbor = Some p \<Longrightarrow> m_dtnTimeNanoseconds (m_creationTimestamp p) = 0"
  by (auto simp: PrimaryBlock_FromValue_def Let_def split: if_splits)

section \<open>Lemmas on the routing engine\<close>

lemma EndpointID_ToCbor_short:
  assumes "length eid \<le> 1024"
  shows "EndpointID_ToCbor mem eid = Inr (0x82 # drop 1 (AddAtStart 1024 mem))"
proof -
  have "length (GetScheme eid) \<le> 1024"
    using assms length_takeWhile_le [of "\<lambda>c. c \<noteq> CHR '':''" eid]
    by (simp add: GetScheme_def)
  moreover have "length (GetSsp eid) \<le> 1024"
    using assms by (simp add: GetSsp_def)
  ultimately have "first_error (map (Encode mem) [TextString (GetScheme eid), TextString (GetSsp eid)]) = Inr ()"
    using Encode_TextString_ok [of "GetScheme eid" mem] Encode_TextString_ok [of "GetSsp eid" mem]
    by (auto simp del: Encode.simps)
  then show ?thesis
    by (simp add: EndpointID_ToCbor_def EncodeUnsigned_fresh EncodeUnsigned_bytes_def
        EncodeHeader_def del: Encode.simps(3,4))
qed

lemma replace_first_list_update:
  "\<exists>x \<in> set xs. P x \<Longrightarrow>
   replace_first P y xs = xs[length (takeWhile (\<lambda>x. \<not> P x) xs) := y]"
  by (induction xs) auto

lemma find_takeWhile:
  "find P xs = Some x \<Longrightarrow>
   length (takeWhile (\<lambda>x. \<not> P x) xs) < length xs \<and> xs ! length (takeWhile (\<lambda>x. \<not> P x) xs) = x"
  by (induction xs) (auto split: if_splits)

section \<open>Lemmas on spray-and-wait\<close>

lemma SendBundle_locked_m_copies:
  "SendBundle_locked mem st b rcv ep = Inr (st', b', r) \<Longrightarrow> m_copies st' = m_copies st \<and> \<not> r"
  by (auto simp: SendBundle_locked_def split: option.splits sum.splits if_splits)

text \<open>
  With the mutex held, \<open>SendBundle\<close> does what it does with the mutex free, except that it
  does not return where the latter reports a transmission.
\<close>

lemma SendBundle_locked_SendBundle:
  "SendBundle_locked mem st b rcv ep =
     (case SendBundle mem st b rcv ep of
        Inl e \<Rightarrow> Inl e
      | Inr (st', b', r) \<Rightarrow> if r then Inl Deadlock else Inr (st', b', r))"
  by (auto simp: SendBundle_locked_def SendBundle_def split: option.splits sum.splits)

lemma DecreaseCopyCount_frame:
  "m_senders (fst (DecreaseCopyCount st k)) = m_senders st
   \<and> m_localNodeID (fst (DecreaseCopyCount st k)) = m_localNodeID st"
  by (simp add: DecreaseCopyCount_def split: option.splits)

text \<open>No forwarding attempt of the spray phase comes back with a transmission.\<close>

lemma spray_attempt_not_sent: "spray_attempt mem st b peer \<noteq> Inr (st', b', True)"
  by (auto simp: spray_attempt_def Let_def dest: SendBundle_locked_m_copies
      split: prod.splits sum.splits bool.splits)

lemma umap_find_update:
  "umap_find k (umap_update k f xs) = map_option f (umap_find k xs)"
  by (induction xs) (auto simp: BundleID_eq_refl)

lemma DecreaseCopyCount_spray:
  assumes "GetCopyCount st k = c" and "c > 1"
  shows "snd (DecreaseCopyCount st k) = c - 1
     \<and> GetCopyCount (fst (DecreaseCopyCount st k)) k = c - 1"
  using assms
  by (auto simp: GetCopyCount_def DecreaseCopyCount_def umap_find_update split: option.splits)

lemma GetCopyCount_SetCopyCount: "GetCopyCount (SetCopyCount k n st) k = n"
  by (simp add: GetCopyCount_def SetCopyCount_def umap_find_assign_same)

lemma EndpointID_ToCbor_eid_a:
  "EndpointID_ToCbor (\<lambda>i. 0) eid_a = Inr (0x82 # drop 1 (AddAtStart 1024 (\<lambda>i. 0)))"
  by (rule EndpointID_ToCbor_short) (simp add: eid_a_def)

lemmas spray_eval =
  spray_attempt_def DecreaseCopyCount_def SetCopyCount_def GetCopyCount_def spray_engine_def
  SendBundle_locked_def UpdatePreviousNode_def DynamicCast_PreviousNodeBlock_def
  GetBlockByType_def bundle_one_def payload_block_def PAYLOAD_BLOCK_def
  PREVIOUS_NODE_BLOCK_def PreviousNodeBlock_new_def SetPreviousNode_def AddBlock_def
  previous_node_a_def bundle_one_stamped_def GetId_def BundleID_eq_def peer_b_def
  sender_failing_def sender_up_def AddSentNode_def SentTo_def eid_a_def eid_b_def

lemma spray_attempt_failing_4:
  "spray_attempt (\<lambda>i. 0) (spray_engine sender_failing 4) bundle_one peer_b
     = Inr ((spray_engine sender_failing 3)\<lparr>m_failedBundles := 1\<rparr>, bundle_one_stamped, False)"
  using EndpointID_ToCbor_eid_a by (simp add: spray_eval)

lemma spray_attempt_up_4:
  "spray_attempt (\<lambda>i. 0) (spray_engine sender_up 4) bundle_one peer_b = Inl Deadlock"
  using EndpointID_ToCbor_eid_a by (simp add: spray_eval)

section \<open>Lemmas on the runs of the epidemic engine\<close>

lemma send_recorded_append:
  "send_recorded tr k p \<Longrightarrow> send_recorded (tr @ tr') k p"
  by (auto simp: send_recorded_def list_ex_iff)

lemma notified_append: "notified evs k p \<Longrightarrow> notified (evs @ evs') k p"
  by (auto simp: notified_def list_ex_iff)

lemma entry_ok_mono:
  "entry_ok evs tr e \<Longrightarrow> entry_ok (evs @ evs') (tr @ tr') e"
  by (auto simp: entry_ok_def list_all_iff send_recorded_append notified_append)

lemma entry_ok_sent:
  assumes "entry_ok evs tr (k, d)" and "BundleID_eq k (GetId b)"
  shows "entry_ok evs (tr @ [(b, rcv)]) (k, AddSentNode rcv d)"
proof -
  from assms have "BundleID_eq (GetId b) (id_of d)"
    by (auto simp: entry_ok_def intro: BundleID_eq_sym BundleID_eq_trans)
  then have "send_recorded (tr @ [(b, rcv)]) (id_of d) rcv"
    by (simp add: send_recorded_def)
  with entry_ok_mono [OF assms(1), of "[]" "[(b, rcv)]"] show ?thesis
    by (auto simp: entry_ok_def AddSentNode_def)
qed

lemma entry_ok_notified:
  assumes "entry_ok evs tr (k, d)" and "BundleID_eq k (GetId b)"
  shows "entry_ok (evs @ [NotifyNewBundleEv (Some b) src]) tr (k, AddSentNode src d)"
proof -
  from assms have "BundleID_eq (GetId b) (id_of d)"
    by (auto simp: entry_ok_def intro: BundleID_eq_sym BundleID_eq_trans)
  then have "notified (evs @ [NotifyNewBundleEv (Some b) src]) (id_of d) src"
    by (simp add: notified_def)
  with entry_ok_mono [OF assms(1), of "[NotifyNewBundleEv (Some b) src]" "[]"] show ?thesis
    by (auto simp: entry_ok_def AddSentNode_def)
qed

lemma list_all_umap_update:
  assumes "list_all P tbl"
    and "\<And>k' d. P (k', d) \<Longrightarrow> BundleID_eq k' k \<Longrightarrow> Q (k', f d)"
    and "\<And>e. P e \<Longrightarrow> Q e"
  shows "list_all Q (umap_update k f tbl)"
  using assms(1)
proof (induction tbl)
  case Nil
  then show ?case by simp
next
  case (Cons e tbl)
  obtain a b where e: "e = (a, b)" by (cases e)
  from Cons.prems e have P: "P (a, b)" and rest: "list_all P tbl" by simp_all
  from rest have restQ: "list_all Q tbl"
    using assms(3) by (auto simp: list_all_iff)
  show ?case
  proof (cases "BundleID_eq a k")
    case True
    with P assms(2) have "Q (a, f b)" by blast
    with True restQ e show ?thesis by simp
  next
    case False
    with P assms(3) Cons.IH [OF rest] e show ?thesis by simp
  qed
qed

lemma list_all_umap_assign:
  assumes "list_all P tbl" and "P (k, v)"
    and "\<And>k' d. P (k', d) \<Longrightarrow> BundleID_eq k' k \<Longrightarrow> P (k', v)"
  shows "list_all P (umap_assign k v tbl)"
  using assms by (induction tbl) auto

lemma SendBundle_entries:
  assumes "SendBundle mem st b rcv ep = Inr (st', b', r)"
    and "list_all (entry_ok evs (m_bundleSentTrace st)) (m_bundlesD st)"
  shows "list_all (entry_ok evs (m_bundleSentTrace st')) (m_bundlesD st')"
proof (cases r)
  case False
  with assms show ?thesis
    by (auto simp: SendBundle_def split: option.splits sum.splits if_splits)
next
  case True
  with assms(1) have tr: "m_bundleSentTrace st' = m_bundleSentTrace st @ [(b', rcv)]"
    and tb: "m_bundlesD st' = umap_update (GetId b') (AddSentNode rcv) (m_bundlesD st)"
    by (auto simp: SendBundle_def split: option.splits sum.splits if_splits)
  show ?thesis
    unfolding tr tb
  proof (rule list_all_umap_update [OF assms(2)])
    fix k' d
    assume "entry_ok evs (m_bundleSentTrace st) (k', d)" and "BundleID_eq k' (GetId b')"
    then show "entry_ok evs (m_bundleSentTrace st @ [(b', rcv)]) (k', AddSentNode rcv d)"
      by (rule entry_ok_sent)
  next
    fix e
    assume "entry_ok evs (m_bundleSentTrace st) e"
    then show "entry_ok evs (m_bundleSentTrace st @ [(b', rcv)]) e"
      using entry_ok_mono [of evs _ e "[]"] by simp
  qed
qed

lemma epidemic_peers_entries:
  "epidemic_peers mem st b peers = Inr (st', b') \<Longrightarrow>
   list_all (entry_ok evs (m_bundleSentTrace st)) (m_bundlesD st) \<Longrightarrow>
   list_all (entry_ok evs (m_bundleSentTrace st')) (m_bundlesD st')"
proof (induction peers arbitrary: st b)
  case Nil
  then show ?case by simp
next
  case (Cons peer peers)
  show ?case
  proof (cases "epidemic_peers mem st b (peer # peers) = epidemic_peers mem st b peers")
    case True
    with Cons show ?thesis by simp
  next
    case False
    then obtain st1 b1 r where s: "SendBundle mem st b (nodeID peer) (endpoint peer) = Inr (st1, b1, r)"
      and rest: "epidemic_peers mem st1 b1 peers = Inr (st', b')"
      using Cons.prems(1) by (auto split: if_splits sum.splits)
    from SendBundle_entries [OF s Cons.prems(2)] Cons.IH [OF rest] show ?thesis by simp
  qed
qed

lemma epidemic_bundles_entries:
  "epidemic_bundles mem now peers st entries = Inr (st', entries') \<Longrightarrow>
   list_all (entry_ok evs (m_bundleSentTrace st)) (m_bundlesD st) \<Longrightarrow>
   list_all (entry_ok evs (m_bundleSentTrace st')) (m_bundlesD st')"
proof (induction entries arbitrary: st entries')
  case Nil
  then show ?case by simp
next
  case (Cons e entries)
  obtain k b where e: "e = (k, b)" by (cases e)
  show ?case
  proof (cases "case umap_find (GetId b) (m_bundlesD st) of
                  Some d \<Rightarrow> Descriptor_IsExpired now d | None \<Rightarrow> False")
    case True
    with Cons.prems(1) e obtain es where "epidemic_bundles mem now peers st entries = Inr (st', es)"
      by (auto split: sum.splits)
    from Cons.IH [OF this Cons.prems(2)] show ?thesis .
  next
    case False
    with Cons.prems(1) e obtain st1 b1 es where p: "epidemic_peers mem st b peers = Inr (st1, b1)"
      and rest: "epidemic_bundles mem now peers st1 entries = Inr (st', es)"
      by (auto split: sum.splits)
    from epidemic_peers_entries [OF p Cons.prems(2)] Cons.IH [OF rest] show ?thesis by simp
  qed
qed

lemma DispatchBundles_entries:
  "DispatchBundles mem now st = Inr st' \<Longrightarrow>
   list_all (entry_ok evs (m_bundleSentTrace st)) (m_bundlesD st) \<Longrightarrow>
   list_all (entry_ok evs (m_bundleSentTrace st')) (m_bundlesD st')"
  using epidemic_bundles_entries
  by (fastforce simp: DispatchBundles_def split: sum.splits)

lemma list_all_entry_ok_mono:
  "list_all (entry_ok evs tr) tbl \<Longrightarrow> list_all (entry_ok (evs @ evs') (tr @ tr')) tbl"
  by (auto simp: list_all_iff entry_ok_mono)

lemma UpdateBundleDescriptor_entries:
  assumes "list_all (entry_ok evs tr) tbl"
  shows "list_all (entry_ok evs tr) (UpdateBundleDescriptor b tbl)"
proof (cases "umap_find (GetId b) tbl")
  case (Some d)
  with assms show ?thesis by (simp add: UpdateBundleDescriptor_def)
next
  case None
  have "list_all (entry_ok evs tr)
          (umap_assign (GetId b)
             \<lparr>id_of = GetId b, receiver = m_destinationEID (m_primaryBlock b),
              sentNodes = [], expirationTime = CalculateExpirationTime b\<rparr> tbl)"
  proof (rule list_all_umap_assign [OF assms])
    show "entry_ok evs tr
           (GetId b, \<lparr>id_of = GetId b, receiver = m_destinationEID (m_primaryBlock b),
              sentNodes = [], expirationTime = CalculateExpirationTime b\<rparr>)"
      by (simp add: entry_ok_def BundleID_eq_refl)
  next
    fix k' d
    assume "entry_ok evs tr (k', d)" and "BundleID_eq k' (GetId b)"
    then show "entry_ok evs tr
           (k', \<lparr>id_of = GetId b, receiver = m_destinationEID (m_primaryBlock b),
              sentNodes = [], expirationTime = CalculateExpirationTime b\<rparr>)"
      by (simp add: entry_ok_def)
  qed
  with None show ?thesis by (simp add: UpdateBundleDescriptor_def)
qed

lemma NotifyNewBundle_entries:
  assumes "list_all (entry_ok evs (m_bundleSentTrace st)) (m_bundlesD st)"
  shows "list_all (entry_ok (evs @ [NotifyNewBundleEv b src])
            (m_bundleSentTrace (NotifyNewBundle st b src)))
           (m_bundlesD (NotifyNewBundle st b src))"
proof (cases "\<exists>x. b = Some x \<and> snd (PushMax (m_store st) b)")
  case False
  then have "m_bundlesD (NotifyNewBundle st b src) = m_bundlesD st"
    and "m_bundleSentTrace (NotifyNewBundle st b src) = m_bundleSentTrace st"
    by (auto simp: NotifyNewBundle_def split: prod.splits bool.splits option.splits)
  with list_all_entry_ok_mono [OF assms, of "[NotifyNewBundleEv b src]" "[]"]
  show ?thesis by simp
next
  case True
  then obtain x where x: "b = Some x" and ok: "snd (PushMax (m_store st) b)" by blast
  then have tb: "m_bundlesD (NotifyNewBundle st (Some x) src) =
      umap_update (GetId x) (AddSentNode src) (UpdateBundleDescriptor x (m_bundlesD st))"
    and tr: "m_bundleSentTrace (NotifyNewBundle st (Some x) src) = m_bundleSentTrace st"
    by (auto simp: NotifyNewBundle_def split: prod.splits bool.splits)
  show ?thesis
    unfolding x tb tr
  proof (rule list_all_umap_update [OF UpdateBundleDescriptor_entries [OF assms]])
    fix k' d
    assume "entry_ok evs (m_bundleSentTrace st) (k', d)" and "BundleID_eq k' (GetId x)"
    then show "entry_ok (evs @ [NotifyNewBundleEv (Some x) src]) (m_bundleSentTrace st)
                 (k', AddSentNode src d)"
      by (rule entry_ok_notified)
  next
    fix e
    assume "entry_ok evs (m_bundleSentTrace st) e"
    then show "entry_ok (evs @ [NotifyNewBundleEv (Some x) src]) (m_bundleSentTrace st) e"
      using entry_ok_mono [of evs _ e _ "[]"] by simp
  qed
qed

lemma step_entries:
  assumes "step mem st ev = Inr st'"
    and "list_all (entry_ok evs (m_bundleSentTrace st)) (m_bundlesD st)"
  shows "list_all (entry_ok (evs @ [ev]) (m_bundleSentTrace st')) (m_bundlesD st')"
proof (cases ev)
  case (NotifyNewBundleEv b src)
  with assms NotifyNewBundle_entries [OF assms(2), of b src] show ?thesis by auto
next
  case (NotifyPeerAppearedEv now peer)
  with assms(1) have "DispatchBundles mem now
      (st\<lparr>m_peers := peers_assign (nodeID peer) peer (m_peers st)\<rparr>) = Inr st'"
    by (simp add: NotifyPeerAppeared_def)
  from DispatchBundles_entries [OF this, of evs] assms(2)
  have "list_all (entry_ok evs (m_bundleSentTrace st')) (m_bundlesD st')" by simp
  from list_all_entry_ok_mono [OF this, of "[ev]" "[]"] show ?thesis by simp
next
  case (NotifyPeerDisappearedEv peer)
  with assms list_all_entry_ok_mono [OF assms(2), of "[ev]" "[]"] show ?thesis
    by (auto simp: NotifyPeerDisappeared_def)
next
  case (DispatchBundlesEv now)
  with assms(1) have "DispatchBundles mem now st = Inr st'" by simp
  from DispatchBundles_entries [OF this assms(2)]
  have "list_all (entry_ok evs (m_bundleSentTrace st')) (m_bundlesD st')" .
  from list_all_entry_ok_mono [OF this, of "[ev]" "[]"] show ?thesis by simp
next
  case (StoreCleanupEv now)
  with assms list_all_entry_ok_mono [OF assms(2), of "[ev]" "[]"] show ?thesis by auto
next
  case (SendersChangeEv senders)
  with assms list_all_entry_ok_mono [OF assms(2), of "[ev]" "[]"] show ?thesis by auto
qed

lemma run_entries:
  "run mem st evs' = Inr st' \<Longrightarrow>
   list_all (entry_ok evs (m_bundleSentTrace st)) (m_bundlesD st) \<Longrightarrow>
   list_all (entry_ok (evs @ evs') (m_bundleSentTrace st')) (m_bundlesD st')"
proof (induction evs' arbitrary: st evs)
  case Nil
  then show ?case by simp
next
  case (Cons ev evs')
  from Cons.prems(1) obtain st1 where s: "step mem st ev = Inr st1"
    and r: "run mem st1 evs' = Inr st'"
    by (auto split: sum.splits)
  from Cons.IH [OF r step_entries [OF s Cons.prems(2)]] show ?case by simp
qed

lemma run_meeting_b:
  "run (\<lambda>i. 0) (Initialize store_empty [sender_up] eid_a)
     [NotifyNewBundleEv (Some bundle_one) eid_c, NotifyPeerAppearedEv 101000000000 peer_b]
   = Inr engine_after_meeting_b"
  using EndpointID_ToCbor_eid_a
  by (simp add: Initialize_def store_empty_def NotifyNewBundle_def PushMax_def
      UpdateBundleDescriptor_def AddSentNode_def SentTo_def BundleID_eq_refl
      NotifyPeerAppeared_def DispatchBundles_def activePeers_def IsActive_def
      Descriptor_IsExpired_def CalculateExpirationTime_def ToTime_def
      SendBundle_def UpdatePreviousNode_def DynamicCast_PreviousNodeBlock_def
      GetBlockByType_def bundle_one_def payload_block_def PAYLOAD_BLOCK_def
      PREVIOUS_NODE_BLOCK_def PreviousNodeBlock_new_def SetPreviousNode_def AddBlock_def
      previous_node_a_def bundle_one_stamped_def GetId_def BundleID_eq_def peer_b_def
      sender_up_def eid_a_def eid_b_def eid_c_def primary_ab_def engine_after_meeting_b_def)

section \<open>Lemmas on reassembly\<close>

lemma umap_assign_same:
  "umap_find k xs = Some v \<Longrightarrow> umap_assign k v xs = xs"
  by (induction xs) (auto split: if_splits)

lemma SetFragmentation_False: "\<not> IsFragment (SetFragmentation False p)"
  by (simp add: IsFragment_def SetFragmentation_def and.assoc)

lemma CalculateCRC_primary:
  "PrimaryBlock_CalculateCRC mem p = Inr p' \<Longrightarrow> \<exists>crc. p' = p\<lparr>m_crcValue := crc\<rparr>"
  by (auto simp: PrimaryBlock_CalculateCRC_def split: if_splits sum.splits)

lemma CalculateCRC_block:
  "CanonicalBlock_CalculateCRC mem blk = Inr blk' \<Longrightarrow> \<exists>crc. blk' = blk\<lparr>m_crcValueB := crc\<rparr>"
  by (auto simp: CanonicalBlock_CalculateCRC_def split: if_splits sum.splits)

lemma CalculateCRC_blocks:
  "blocks_CalculateCRC mem blks = Inr blks' \<Longrightarrow>
   map m_blockType blks' = map m_blockType blks \<and> map m_data blks' = map m_data blks"
proof (induction blks arbitrary: blks')
  case Nil
  then show ?case by simp
next
  case (Cons blk blks)
  then obtain b1 bs where b1: "CanonicalBlock_CalculateCRC mem blk = Inr b1"
    and bs: "blocks_CalculateCRC mem blks = Inr bs" and eq: "blks' = b1 # bs"
    by (auto split: sum.splits)
  from CalculateCRC_block [OF b1] Cons.IH [OF bs] eq show ?case by auto
qed

lemma find_map_eq:
  "map f xs = map f ys \<Longrightarrow> map g xs = map g ys \<Longrightarrow>
   map_option g (find (\<lambda>x. f x = t) xs) = map_option g (find (\<lambda>x. f x = t) ys)"
proof (induction xs arbitrary: ys)
  case Nil
  then show ?case by simp
next
  case (Cons x xs)
  then obtain y ys' where "ys = y # ys'" by (cases ys) auto
  with Cons show ?case by auto
qed

lemma CalculateCRC_bundle:
  assumes "Bundle_CalculateCRC mem b = Inr b'"
  shows "IsFragment (m_primaryBlock b') = IsFragment (m_primaryBlock b)
     \<and> m_fragmentOffset (m_primaryBlock b') = m_fragmentOffset (m_primaryBlock b)
     \<and> m_totalApplicationDataUnitLength (m_primaryBlock b')
         = m_totalApplicationDataUnitLength (m_primaryBlock b)
     \<and> GetPayload b' = GetPayload b"
proof -
  from assms obtain p blks where p: "PrimaryBlock_CalculateCRC mem (m_primaryBlock b) = Inr p"
    and blks: "blocks_CalculateCRC mem (m_canonicalBlocks b) = Inr blks"
    and b': "b' = \<lparr>m_primaryBlock = p, m_canonicalBlocks = blks\<rparr>"
    by (auto simp: Bundle_CalculateCRC_def split: sum.splits)
  from CalculateCRC_blocks [OF blks]
  have "map_option m_data (find (\<lambda>x. m_blockType x = PAYLOAD_BLOCK) blks)
      = map_option m_data (find (\<lambda>x. m_blockType x = PAYLOAD_BLOCK) (m_canonicalBlocks b))"
    by (intro find_map_eq) simp_all
  then have "GetPayload b' = GetPayload b"
    by (auto simp: GetPayload_def GetPayloadBlock_def GetBlockByType_def b' split: option.splits)
  with CalculateCRC_primary [OF p] b' show ?thesis
    by (auto simp: IsFragment_def)
qed

lemma copy_payloads_length:
  "copy_payloads buffer frags = Inr buffer' \<Longrightarrow> length buffer' = length buffer"
proof (induction frags arbitrary: buffer)
  case Nil
  then show ?case by simp
next
  case (Cons f frags)
  then obtain b1 where w: "Write (fragment_offset f) (GetPayload f) buffer = Inr b1"
    and r: "copy_payloads b1 frags = Inr buffer'"
    by (auto split: sum.splits)
  from w have "length b1 = length buffer"
    by (auto simp: Write_def split: if_splits)
  with Cons.IH [OF r] show ?case by simp
qed

lemma find_append_Some: "find P xs = Some x \<Longrightarrow> find P (xs @ ys) = Some x"
  by (induction xs) (auto split: if_splits)

lemma GetPayload_foldl_AddBlock:
  "GetPayload (foldl (\<lambda>f blk. AddBlock blk f) b blks) =
     (case GetPayloadBlock b of
        Some pb \<Rightarrow> m_data pb
      | None \<Rightarrow> GetPayload (foldl (\<lambda>f blk. AddBlock blk f) b blks))"
proof (induction blks arbitrary: b)
  case Nil
  then show ?case by (simp add: GetPayload_def split: option.splits)
next
  case (Cons blk blks)
  show ?case
  proof (cases "GetPayloadBlock b")
    case None
    then show ?thesis by simp
  next
    case (Some pb)
    then have "GetPayloadBlock (AddBlock blk b) = Some pb"
      by (simp add: GetPayloadBlock_def GetBlockByType_def AddBlock_def Let_def find_append_Some)
    with Some Cons.IH [of "AddBlock blk b"] show ?thesis by simp
  qed
qed

lemma Reassemble_result:
  assumes "Reassemble mem n frags = Inr r"
  shows "\<not> IsFragment (m_primaryBlock r) \<and> length (GetPayload r) = n"
proof -
  from assms obtain payload where c: "copy_payloads (replicate n 0) frags = Inr payload"
    and crc: "Bundle_CalculateCRC mem
            (foldl (\<lambda>f blk. AddBlock blk f)
               (AddBlock (PayloadBlock_new payload)
                  \<lparr>m_primaryBlock = SetFragmentation False (m_primaryBlock (hd frags)),
                   m_canonicalBlocks = []\<rparr>)
               (filter (\<lambda>blk. m_blockType blk \<noteq> PAYLOAD_BLOCK)
                  (m_canonicalBlocks (hd frags)))) = Inr r"
    by (auto simp: Reassemble_def split: sum.splits)
  have prim: "m_primaryBlock (foldl (\<lambda>f blk. AddBlock blk f) b blks) = m_primaryBlock b" for b blks
    by (induction blks arbitrary: b) (simp_all add: AddBlock_def Let_def)
  have pb: "GetPayloadBlock (AddBlock (PayloadBlock_new payload)
                  \<lparr>m_primaryBlock = p, m_canonicalBlocks = []\<rparr>)
        = Some (PayloadBlock_new payload)" for p
    by (simp add: GetPayloadBlock_def GetBlockByType_def AddBlock_def PayloadBlock_new_def
        PAYLOAD_BLOCK_def)
  have d: "m_data (PayloadBlock_new payload) = payload"
    by (simp add: PayloadBlock_new_def)
  have prim1: "m_primaryBlock (AddBlock blk b) = m_primaryBlock b" for blk b
    by (simp add: AddBlock_def Let_def)
  from CalculateCRC_bundle [OF crc] copy_payloads_length [OF c] show ?thesis
    by (simp add: prim prim1 SetFragmentation_False GetPayload_foldl_AddBlock pb d)
qed

lemmas fragment_eval =
  hop_block_def HOP_COUNT_BLOCK_def fragment_first_def fragment_second_def primary_fragment_def primary_ab_def payload_block_def
  info_first_def manager_first_def GetOriginalBundleId_def fragment_offset_def IsFragment_def
  BUNDLE_IS_A_FRAGMENT_def BundleID_eq_def GetPayload_def GetPayloadBlock_def GetBlockByType_def
  PAYLOAD_BLOCK_def

lemma Reassemble_fragments:
  "Reassemble mem 3 (sort_key fragment_offset (fragments info_first @ [fragment_second]))
     = Inr reassembled_one"
  by (simp add: fragment_eval Reassemble_def Write_def numeral_3_eq_3 AddBlock_def
      PayloadBlock_new_def SetFragmentation_def Bundle_CalculateCRC_def
      PrimaryBlock_CalculateCRC_def CanonicalBlock_CalculateCRC_def NO_CRC_def
      reassembled_one_def)

section \<open>Lemmas on fragmentation\<close>

text \<open>Which values and blocks the encoder accepts.\<close>

lemma first_error_Cons_iff:
  "first_error (r # rs) = Inr () \<longleftrightarrow> \<not> isl r \<and> first_error rs = Inr ()"
  by (cases r) auto

lemma first_error_append_iff:
  "first_error (rs @ rs') = Inr () \<longleftrightarrow> first_error rs = Inr () \<and> first_error rs' = Inr ()"
proof (induction rs)
  case Nil
  then show ?case by simp
next
  case (Cons r rs)
  then show ?case by (cases r) auto
qed

lemma first_error_cases: "first_error rs = Inr () \<or> (\<exists>e. first_error rs = Inl e)"
  by (cases "first_error rs") auto

lemma Encode_Array_isl:
  "\<not> isl (Encode mem (Array items)) \<longleftrightarrow> first_error (map (Encode mem) items) = Inr ()"
  using first_error_cases [of "map (Encode mem) items"]
  by (auto simp: EncodeUnsigned_fresh)

lemma Encode_UnsignedInteger_isl [simp]: "\<not> isl (Encode mem (UnsignedInteger v))"
  by (simp add: EncodeUnsigned_fresh)

lemma Encode_of_int64_isl [simp]: "\<not> isl (Encode mem (CborValue_of_int64 v))"
  by (simp add: CborValue_of_int64_def EncodeUnsigned_fresh)

lemma Encode_ByteString_isl:
  "\<not> isl (Encode mem (ByteString bytes)) \<longleftrightarrow> length bytes \<le> 1024"
  by (simp add: EncodeUnsigned_fresh Write_def length_fresh_header del: length_append)

lemma Encode_TextString_isl:
  "\<not> isl (Encode mem (TextString text)) \<longleftrightarrow> length text \<le> 1024"
  by (simp add: EncodeUnsigned_fresh Write_def length_fresh_header del: length_append)

lemma CanonicalBlock_ToCbor_isl:
  "\<not> isl (CanonicalBlock_ToCbor mem blk) \<longleftrightarrow>
     length (m_data blk) \<le> 1024
     \<and> (m_crcTypeB blk \<noteq> NO_CRC \<and> m_crcValueB blk \<noteq> [] \<longrightarrow> length (m_crcValueB blk) \<le> 1024)"
  unfolding CanonicalBlock_ToCbor_def Encode_Array_isl
  by (simp add: CanonicalBlock_array_def first_error_Cons_iff Encode_ByteString_isl
      del: Encode.simps)

lemma PrimaryBlock_ToCbor_isl:
  "\<not> isl (PrimaryBlock_ToCbor mem p) \<longleftrightarrow>
     length (m_destinationEID p) \<le> 1024 \<and> length (m_sourceNodeEID p) \<le> 1024
     \<and> length (m_reportToEID p) \<le> 1024
     \<and> (m_crcType p \<noteq> NO_CRC \<and> m_crcValue p \<noteq> [] \<longrightarrow> length (m_crcValue p) \<le> 1024)"
  unfolding PrimaryBlock_ToCbor_def Encode_Array_isl
  by (simp add: PrimaryBlock_array_def first_error_Cons_iff first_error_append_iff
      Encode_ByteString_isl Encode_TextString_isl Encode_Array_isl
      del: Encode.simps)

lemma block_ToCbor_length:
  "PrimaryBlock_ToCbor mem p = Inr buffer \<Longrightarrow> length buffer = 1024"
  "CanonicalBlock_ToCbor mem blk = Inr buffer \<Longrightarrow> length buffer = 1024"
  using Encode_Array_Inr
  by (auto simp: PrimaryBlock_ToCbor_def CanonicalBlock_ToCbor_def simp del: Encode.simps)

lemma blocks_decoded_isl:
  "\<not> isl (blocks_decoded mem blks) \<Longrightarrow> blk \<in> set blks \<Longrightarrow> \<not> isl (CanonicalBlock_ToCbor mem blk)"
  by (induction blks) (auto split: sum.splits)

lemma Bundle_ToCbor_isl:
  assumes "Bundle_ToCbor mem b = Inr full"
  shows "\<not> isl (PrimaryBlock_ToCbor mem (m_primaryBlock b))"
    and "blk \<in> set (m_canonicalBlocks b) \<Longrightarrow> \<not> isl (CanonicalBlock_ToCbor mem blk)"
proof -
  from assms show "\<not> isl (PrimaryBlock_ToCbor mem (m_primaryBlock b))"
    by (auto simp: Bundle_ToCbor_def split: sum.splits)
  from assms have "\<not> isl (blocks_decoded mem (m_canonicalBlocks b))"
    by (auto simp: Bundle_ToCbor_def split: sum.splits)
  then show "blk \<in> set (m_canonicalBlocks b) \<Longrightarrow> \<not> isl (CanonicalBlock_ToCbor mem blk)"
    by (rule blocks_decoded_isl)
qed

lemma CanonicalBlock_CalculateCRC_isl:
  "length (m_data blk) \<le> 1024 \<Longrightarrow> \<not> isl (CanonicalBlock_CalculateCRC mem blk)"
  using CanonicalBlock_ToCbor_isl [of mem "blk\<lparr>m_crcValueB := []\<rparr>"]
  by (auto simp: CanonicalBlock_CalculateCRC_def split: sum.splits)

lemma blocks_CalculateCRC_isl:
  "list_all (\<lambda>blk. length (m_data blk) \<le> 1024) blks \<Longrightarrow> \<not> isl (blocks_CalculateCRC mem blks)"
proof (induction blks)
  case Nil
  then show ?case by simp
next
  case (Cons blk blks)
  then show ?case
    using CanonicalBlock_CalculateCRC_isl [of blk mem]
    by (auto split: sum.splits)
qed

lemma PrimaryBlock_CalculateCRC_isl:
  "length (m_destinationEID p) \<le> 1024 \<Longrightarrow> length (m_sourceNodeEID p) \<le> 1024 \<Longrightarrow>
   length (m_reportToEID p) \<le> 1024 \<Longrightarrow> \<not> isl (PrimaryBlock_CalculateCRC mem p)"
  using PrimaryBlock_ToCbor_isl [of mem "p\<lparr>m_crcValue := []\<rparr>"]
  by (auto simp: PrimaryBlock_CalculateCRC_def split: sum.splits)


lemma not_isl_Inr: "\<not> isl r \<Longrightarrow> \<exists>x. r = Inr x"
  by (cases r) auto

lemma AddBlock_primary: "m_primaryBlock (AddBlock blk b) = m_primaryBlock b"
  by (simp add: AddBlock_def Let_def)

lemma AddBlock_data:
  "map m_data (m_canonicalBlocks (AddBlock blk b)) = map m_data (m_canonicalBlocks b) @ [m_data blk]"
  by (simp add: AddBlock_def Let_def)

lemma foldl_AddBlock_primary:
  "m_primaryBlock (foldl (\<lambda>f blk. AddBlock blk f) b blks) = m_primaryBlock b"
  by (induction blks arbitrary: b) (simp_all add: AddBlock_primary)

lemma foldl_AddBlock_data:
  "map m_data (m_canonicalBlocks (foldl (\<lambda>f blk. AddBlock blk f) b blks))
     = map m_data (m_canonicalBlocks b) @ map m_data blks"
  by (induction blks arbitrary: b) (simp_all add: AddBlock_data)

lemma replicas_data: "set (map m_data (replicas blks)) \<subseteq> set (map m_data blks)"
  by (auto simp: replicas_def)

lemma find_Some_mem: "find P xs = Some x \<Longrightarrow> x \<in> set xs"
  by (induction xs) (auto split: if_splits)

lemma ceil_div_offset:
  fixes budget :: nat
  assumes "0 < budget" and "i < (totalLen + budget - 1) div budget"
  shows "i * budget < totalLen"
proof -
  from assms(2) have "Suc i \<le> (totalLen + budget - 1) div budget" by simp
  with assms(1) have "Suc i * budget \<le> totalLen + budget - 1"
    by (simp add: less_eq_div_iff_mult_less_eq)
  with assms(1) show ?thesis by simp
qed

lemma wrap_sub:
  fixes a b M :: nat
  assumes "b \<le> a" and "a < M"
  shows "(a + (M - b mod M)) mod M = a - b"
proof -
  from assms have "b mod M = b" by simp
  moreover from assms have "a + (M - b) = (a - b) + M" by simp
  moreover from assms have "(a - b) mod M = a - b" by simp
  ultimately show ?thesis by simp
qed

lemma size_small: "a \<le> 2048 \<Longrightarrow> (a::nat) < 2 ^ 64"
proof -
  have "(2048::nat) < 2 ^ 64" by simp
  then show "a \<le> 2048 \<Longrightarrow> a < 2 ^ 64" by (rule le_less_trans [rotated])
qed

lemma size_sub_small: "b \<le> a \<Longrightarrow> a \<le> 2048 \<Longrightarrow> size_sub a b = a - b"
  unfolding size_sub_def by (rule wrap_sub) (auto intro: size_small)

lemma size_add_small: "a + b \<le> 2048 \<Longrightarrow> size_add a b = a + b"
  unfolding size_add_def by (rule mod_less) (rule size_small)

lemma size_mul_small: "a * b \<le> 2048 \<Longrightarrow> size_mul a b = a * b"
  unfolding size_mul_def by (rule mod_less) (rule size_small)

lemma headerOverhead_size:
  assumes "headerOverhead mem b = Inr overhead"
  shows "1024 \<le> overhead"
proof -
  from assms obtain p n where "PrimaryBlock_ToCbor mem (m_primaryBlock b) = Inr p"
    and "overhead = length p + n"
    by (auto simp: headerOverhead_def split: sum.splits)
  with block_ToCbor_length(1) [of mem "m_primaryBlock b" p] show ?thesis by simp
qed

text \<open>
  With the encoder as it is, every encoded bundle and every encoded block has 1024 bytes, so a
  bundle is split only for a maximum fragment size below the header overhead, and the budget
  is then half the maximum fragment size.
\<close>

lemma FragmentBundle_budget_half:
  assumes "Bundle_ToCbor mem b = Inr full" and "m < length full"
    and "headerOverhead mem b = Inr overhead"
  shows "maxPayloadPerFragment m overhead = m div 2"
  using Bundle_ToCbor_Inr [OF assms(1)] assms(2) headerOverhead_size [OF assms(3)]
  by (simp add: maxPayloadPerFragment_def)

text \<open>
  A round of the fragment loop whose offset lies inside the payload, for a bundle whose
  blocks the encoder accepts.
\<close>

lemma make_fragment_inside:
  assumes full: "Bundle_ToCbor mem b = Inr full"
    and big: "m < length full"
    and pb: "GetPayloadBlock b = Some pb"
    and oh: "headerOverhead mem b = Inr overhead"
    and inside: "i * maxPayloadPerFragment m overhead < length (m_data pb)"
    and rounds: "length (m_data pb) \<le> n * maxPayloadPerFragment m overhead"
    and few: "n \<le> length (m_data pb)"
  shows "\<exists>f. make_fragment mem b pb m (maxPayloadPerFragment m overhead) n i = Inr (Some f)
     \<and> IsFragment (m_primaryBlock f)
     \<and> fragment_offset f = i * maxPayloadPerFragment m overhead
     \<and> m_totalApplicationDataUnitLength (m_primaryBlock f) = length (m_data pb)
     \<and> GetPayload f = take (maxPayloadPerFragment m overhead)
                         (drop (i * maxPayloadPerFragment m overhead) (m_data pb))"
proof -
  define budget where "budget = maxPayloadPerFragment m overhead"
  define size0 where
    "size0 = (if i = n - 1 then length (GetPayload b) - i * budget else budget)"
  define payloadSize where
    "payloadSize = (if i * budget + size0 > length (m_data pb)
                    then length (m_data pb) - i * budget else size0)"
  define fragmentPrimary where
    "fragmentPrimary = (SetFragmentation True (m_primaryBlock b))
        \<lparr>m_fragmentOffset := i * budget,
         m_totalApplicationDataUnitLength := length (m_data pb)\<rparr>"
  define slice where
    "slice = (PayloadBlock_new (take payloadSize (drop (i * budget) (m_data pb))))
        \<lparr>m_crcTypeB := m_crcTypeB pb\<rparr>"
  define fragment where
    "fragment = foldl (\<lambda>f blk. AddBlock blk f)
        (AddBlock slice \<lparr>m_primaryBlock = fragmentPrimary, m_canonicalBlocks = []\<rparr>)
        (replicas (m_canonicalBlocks b))"
  have payload: "GetPayload b = m_data pb"
    using pb by (simp add: GetPayload_def)
  have pb_mem: "pb \<in> set (m_canonicalBlocks b)"
    using pb by (auto simp: GetPayloadBlock_def GetBlockByType_def dest: find_Some_mem)
  have fits: "length (m_data blk) \<le> 1024" if "blk \<in> set (m_canonicalBlocks b)" for blk
    using Bundle_ToCbor_isl(2) [OF full that] by (simp add: CanonicalBlock_ToCbor_isl)
  have strings: "length (m_destinationEID (m_primaryBlock b)) \<le> 1024
      \<and> length (m_sourceNodeEID (m_primaryBlock b)) \<le> 1024
      \<and> length (m_reportToEID (m_primaryBlock b)) \<le> 1024"
    using Bundle_ToCbor_isl(1) [OF full] by (simp add: PrimaryBlock_ToCbor_isl)
  have small: "length (m_data pb) \<le> 1024"
    by (rule fits [OF pb_mem])
  have half: "budget \<le> 512"
    using FragmentBundle_budget_half [OF full big oh] Bundle_ToCbor_Inr [OF full] big
    by (simp add: budget_def)
  have positive: "0 < n"
    using inside rounds by (cases n) (simp_all add: budget_def)
  have offset: "size_mul i budget = i * budget"
    using inside small by (intro size_mul_small) (simp add: budget_def)
  have index: "size_sub n 1 = n - 1"
    using positive few small by (intro size_sub_small) simp_all
  have rest: "size_sub (length (m_data pb)) (i * budget) = length (m_data pb) - i * budget"
    using inside small by (intro size_sub_small) (simp_all add: budget_def)
  have "CalculateFragmentPayloadSize mem b m i n =
      (if i = size_sub n 1
       then Inr (size_sub (length (GetPayload b)) (size_mul i budget)) else Inr budget)"
    by (simp add: CalculateFragmentPayloadSize_def oh budget_def)
  then have size: "CalculateFragmentPayloadSize mem b m i n = Inr size0"
    unfolding index payload offset rest size0_def by simp
  have "size0 \<le> 1024"
    using half small by (auto simp: size0_def payload)
  then have sum: "size_add (i * budget) size0 = i * budget + size0"
    using inside small by (intro size_add_small) (simp add: budget_def)
  have within: "i * budget + payloadSize \<le> length (m_data pb)"
    using inside by (simp add: payloadSize_def budget_def)
  have prim: "m_primaryBlock fragment = fragmentPrimary"
    by (simp add: fragment_def foldl_AddBlock_primary AddBlock_primary)
  have data: "map m_data (m_canonicalBlocks fragment)
      = take payloadSize (drop (i * budget) (m_data pb))
        # map m_data (replicas (m_canonicalBlocks b))"
    by (simp add: fragment_def foldl_AddBlock_data AddBlock_data slice_def
        PayloadBlock_new_def)
  have "\<forall>d \<in> set (map m_data (m_canonicalBlocks fragment)). length d \<le> 1024"
    unfolding data using fits [OF pb_mem] fits replicas_data [of "m_canonicalBlocks b"]
    by auto
  then have blocks_fit: "list_all (\<lambda>blk. length (m_data blk) \<le> 1024) (m_canonicalBlocks fragment)"
    by (simp add: list_all_iff)
  have "\<not> isl (PrimaryBlock_CalculateCRC mem fragmentPrimary)"
    using strings
    by (intro PrimaryBlock_CalculateCRC_isl)
      (simp_all add: fragmentPrimary_def SetFragmentation_def)
  moreover note blocks_CalculateCRC_isl [OF blocks_fit, of mem]
  ultimately have "\<not> isl (Bundle_CalculateCRC mem fragment)"
    by (auto simp: Bundle_CalculateCRC_def prim split: sum.splits)
  then obtain f where f: "Bundle_CalculateCRC mem fragment = Inr f"
    by (auto dest: not_isl_Inr)
  have inside': "i * budget < length (m_data pb)"
    using inside by (simp add: budget_def)
  have ps: "(if size_add (i * budget) size0 > length (m_data pb)
             then size_sub (length (m_data pb)) (i * budget) else size0) = payloadSize"
    by (simp only: sum rest payloadSize_def)
  have "make_fragment mem b pb m budget n i =
      (if i * budget \<ge> length (m_data pb) then Inr None
       else if i * budget + payloadSize > length (m_data pb) then Inl BufferOverrun
       else Inr (Some f))"
    by (simp only: make_fragment_def Let_def size sum.case offset ps
        fragmentPrimary_def [symmetric] slice_def [symmetric] fragment_def [symmetric] f)
  with inside' within have made: "make_fragment mem b pb m budget n i = Inr (Some f)"
    by simp
  have flag: "IsFragment fragmentPrimary"
    by (simp add: fragmentPrimary_def SetFragmentation_def IsFragment_def
        BUNDLE_IS_A_FRAGMENT_def or.commute [of _ "push_bit 6 1"])
  have slice_first: "GetPayloadBlock (AddBlock slice
        \<lparr>m_primaryBlock = fragmentPrimary, m_canonicalBlocks = []\<rparr>) = Some slice"
    by (simp add: GetPayloadBlock_def GetBlockByType_def AddBlock_def slice_def
        PayloadBlock_new_def PAYLOAD_BLOCK_def)
  have last: "length (m_data pb) - i * budget \<le> budget" if "i = n - 1"
  proof -
    from positive that have "n * budget = i * budget + budget" by (cases n) simp_all
    with rounds show ?thesis by (simp add: budget_def)
  qed
  have "take payloadSize (drop (i * budget) (m_data pb))
      = take budget (drop (i * budget) (m_data pb))"
  proof (cases "i = n - 1")
    case True
    with last have "payloadSize = length (m_data pb) - i * budget"
      by (simp add: payloadSize_def size0_def payload)
    with last [OF True] show ?thesis by simp
  next
    case False
    then show ?thesis by (simp add: payloadSize_def size0_def)
  qed
  moreover have "GetPayload fragment = m_data slice"
    unfolding fragment_def by (subst GetPayload_foldl_AddBlock) (simp add: slice_first)
  moreover have "m_data slice = take payloadSize (drop (i * budget) (m_data pb))"
    by (simp add: slice_def PayloadBlock_new_def)
  ultimately have piece: "GetPayload fragment = take budget (drop (i * budget) (m_data pb))"
    by simp
  from CalculateCRC_bundle [OF f] made flag piece show ?thesis
    by (simp add: prim fragment_offset_def fragmentPrimary_def budget_def [symmetric])
qed


lemma make_fragments_inside:
  assumes full: "Bundle_ToCbor mem b = Inr full"
    and big: "m < length full"
    and pb: "GetPayloadBlock b = Some pb"
    and oh: "headerOverhead mem b = Inr overhead"
    and rounds: "length (m_data pb) \<le> n * maxPayloadPerFragment m overhead"
    and few: "n \<le> length (m_data pb)"
    and inside: "\<forall>i \<in> set indices. i * maxPayloadPerFragment m overhead < length (m_data pb)"
  shows "\<exists>fs. make_fragments mem b pb m (maxPayloadPerFragment m overhead) n indices = Inr fs
     \<and> list_all2 (\<lambda>i f. IsFragment (m_primaryBlock f)
           \<and> fragment_offset f = i * maxPayloadPerFragment m overhead
           \<and> m_totalApplicationDataUnitLength (m_primaryBlock f) = length (m_data pb)
           \<and> GetPayload f = take (maxPayloadPerFragment m overhead)
                               (drop (i * maxPayloadPerFragment m overhead) (m_data pb)))
         indices fs"
  using inside
proof (induction indices)
  case Nil
  then show ?case by simp
next
  case (Cons i indices)
  from Cons.prems have "i * maxPayloadPerFragment m overhead < length (m_data pb)" by simp
  from make_fragment_inside [OF full big pb oh this rounds few]
  obtain f where f: "make_fragment mem b pb m (maxPayloadPerFragment m overhead) n i = Inr (Some f)"
    and pf: "IsFragment (m_primaryBlock f)
      \<and> fragment_offset f = i * maxPayloadPerFragment m overhead
      \<and> m_totalApplicationDataUnitLength (m_primaryBlock f) = length (m_data pb)
      \<and> GetPayload f = take (maxPayloadPerFragment m overhead)
                          (drop (i * maxPayloadPerFragment m overhead) (m_data pb))"
    by blast
  from Cons obtain fs
    where fs: "make_fragments mem b pb m (maxPayloadPerFragment m overhead) n indices = Inr fs"
      and pfs: "list_all2 (\<lambda>i f. IsFragment (m_primaryBlock f)
           \<and> fragment_offset f = i * maxPayloadPerFragment m overhead
           \<and> m_totalApplicationDataUnitLength (m_primaryBlock f) = length (m_data pb)
           \<and> GetPayload f = take (maxPayloadPerFragment m overhead)
                               (drop (i * maxPayloadPerFragment m overhead) (m_data pb)))
         indices fs"
    by auto
  from f fs have "make_fragments mem b pb m (maxPayloadPerFragment m overhead) n (i # indices)
      = Inr (f # fs)"
    by simp
  with pf pfs show ?case by simp
qed

lemma rounds_cover:
  fixes budget :: nat
  assumes "0 < budget"
  shows "totalLen \<le> ((totalLen + budget - 1) div budget) * budget"
proof -
  have "totalLen + budget - 1 < ((totalLen + budget - 1) div budget) * budget + budget"
    using assms dividend_less_div_times [of budget "totalLen + budget - 1"]
    by (simp add: ac_simps)
  with assms show ?thesis by simp
qed


lemma rounds_few:
  fixes budget :: nat
  assumes "0 < budget"
  shows "(totalLen + budget - 1) div budget \<le> totalLen"
proof (cases totalLen)
  case 0
  with assms show ?thesis by simp
next
  case (Suc t)
  then have "(totalLen + budget - 1) div budget = t div budget + 1"
    using assms by (simp add: div_add_self2)
  also have "\<dots> \<le> t + 1" by simp
  finally show ?thesis using Suc by simp
qed


text \<open>
  Where the encoder accepts the bundle, its encoding is longer than the maximum fragment size
  and the budget is positive, \<open>FragmentBundle\<close> returns the fragments that cover the payload
  in pieces of the budget.
\<close>

lemma FragmentBundle_split:
  assumes nf: "\<not> MustNotFragment (m_primaryBlock b)"
    and na: "\<not> IsAdministrativeRecord (m_primaryBlock b)"
    and full: "Bundle_ToCbor mem b = Inr full"
    and big: "m < length full"
    and pb: "GetPayloadBlock b = Some pb"
    and oh: "headerOverhead mem b = Inr overhead"
    and pos: "0 < maxPayloadPerFragment m overhead"
  shows "\<exists>st' frags. FragmentBundle mem st b m = Inr (st', frags)
     \<and> length frags = (length (m_data pb) + maxPayloadPerFragment m overhead - 1)
                       div maxPayloadPerFragment m overhead
     \<and> (\<forall>i < length frags.
          IsFragment (m_primaryBlock (frags ! i))
          \<and> fragment_offset (frags ! i) = i * maxPayloadPerFragment m overhead
          \<and> m_totalApplicationDataUnitLength (m_primaryBlock (frags ! i)) = length (m_data pb)
          \<and> GetPayload (frags ! i) = take (maxPayloadPerFragment m overhead)
                (drop (i * maxPayloadPerFragment m overhead) (m_data pb)))"
proof -
  define budget where "budget = maxPayloadPerFragment m overhead"
  define n where "n = (length (m_data pb) + budget - 1) div budget"
  have pb_mem: "pb \<in> set (m_canonicalBlocks b)"
    using pb by (auto simp: GetPayloadBlock_def GetBlockByType_def dest: find_Some_mem)
  have small: "length (m_data pb) \<le> 1024"
    using Bundle_ToCbor_isl(2) [OF full pb_mem] by (simp add: CanonicalBlock_ToCbor_isl)
  have half: "budget \<le> 512"
    using FragmentBundle_budget_half [OF full big oh] Bundle_ToCbor_Inr [OF full] big
    by (simp add: budget_def)
  have "size_add (length (m_data pb)) budget = length (m_data pb) + budget"
    using small half by (intro size_add_small) simp
  moreover have "size_sub (length (m_data pb) + budget) 1 = length (m_data pb) + budget - 1"
    using small half pos by (intro size_sub_small) (simp_all add: budget_def)
  ultimately have count: "size_sub (size_add (length (m_data pb)) budget) 1 div budget = n"
    by (simp only: n_def)
  then have count': "size_sub (size_add (length (m_data pb)) budget) (Suc 0) div budget = n"
    by simp
  have rounds: "length (m_data pb) \<le> n * maxPayloadPerFragment m overhead"
    using rounds_cover [of budget "length (m_data pb)"] pos by (simp add: n_def budget_def)
  have few: "n \<le> length (m_data pb)"
    using rounds_few [of budget "length (m_data pb)"] pos by (simp add: n_def budget_def)
  have inside: "\<forall>i \<in> set [0..<n]. i * maxPayloadPerFragment m overhead < length (m_data pb)"
    using ceil_div_offset [of budget _ "length (m_data pb)"] pos by (simp add: n_def budget_def)
  from make_fragments_inside [OF full big pb oh rounds few inside]
  obtain fs where fs: "make_fragments mem b pb m budget n [0..<n] = Inr fs"
    and pfs: "list_all2 (\<lambda>i f. IsFragment (m_primaryBlock f)
           \<and> fragment_offset f = i * budget
           \<and> m_totalApplicationDataUnitLength (m_primaryBlock f) = length (m_data pb)
           \<and> GetPayload f = take budget (drop (i * budget) (m_data pb)))
         [0..<n] fs"
    unfolding budget_def by blast
  from pfs have len: "length fs = n"
    by (auto dest: list_all2_lengthD)
  have nth: "IsFragment (m_primaryBlock (fs ! i))
      \<and> fragment_offset (fs ! i) = i * budget
      \<and> m_totalApplicationDataUnitLength (m_primaryBlock (fs ! i)) = length (m_data pb)
      \<and> GetPayload (fs ! i) = take budget (drop (i * budget) (m_data pb))" if "i < n" for i
    using list_all2_nthD [OF pfs, of i] that by simp
  have "FragmentBundle mem st b m =
      (case make_fragments mem b pb m budget n [0..<n] of
         Inl e \<Rightarrow> Inl e
       | Inr frags \<Rightarrow>
           Inr (if frags \<noteq> []
                then st\<lparr>m_fragmentedBundles := m_fragmentedBundles st + 1,
                        m_createdFragments := m_createdFragments st + length frags\<rparr>
                else st, frags))"
    using nf na big pos
    by (simp add: FragmentBundle_def full pb oh Let_def budget_def [symmetric] count')
  then have "\<exists>st'. FragmentBundle mem st b m = Inr (st', fs)"
    by (simp add: fs)
  with len nth show ?thesis
    unfolding budget_def [symmetric] n_def [symmetric] by auto
qed

text \<open>A block whose data is longer than the buffer of the encoder is not encoded.\<close>

lemma CanonicalBlock_ToCbor_oversize:
  assumes "1024 < length (m_data blk)"
  shows "CanonicalBlock_ToCbor mem blk = Inl BufferOverrun"
proof -
  have "Encode mem (ByteString (m_data blk)) = Inl BufferOverrun"
    using assms by (simp add: EncodeUnsigned_fresh Write_def length_fresh_header del: length_append)
  then have "first_error (map (Encode mem) (CanonicalBlock_array blk)) = Inl BufferOverrun"
    by (simp add: CanonicalBlock_array_def EncodeUnsigned_fresh del: Encode.simps(5))
  then show ?thesis
    by (simp add: CanonicalBlock_ToCbor_def EncodeUnsigned_fresh)
qed

lemma FragmentBundle_refused_or_error:
  assumes "\<And>full. Bundle_ToCbor mem b \<noteq> Inr full"
  shows "FragmentBundle mem st b m = Inr (st, []) \<or> (\<exists>e. FragmentBundle mem st b m = Inl e)"
  using assms by (cases "Bundle_ToCbor mem b") (auto simp: FragmentBundle_def)

section \<open>Lemmas on the completion of a fragment set\<close>

lemma copy_payloads_fits:
  "list_all (\<lambda>x. fragment_offset x + length (GetPayload x) \<le> length buffer) frags
   \<Longrightarrow> \<exists>buffer'. copy_payloads buffer frags = Inr buffer'"
proof (induction frags arbitrary: buffer)
  case Nil
  then show ?case by simp
next
  case (Cons x frags)
  then obtain b1 where w: "Write (fragment_offset x) (GetPayload x) buffer = Inr b1"
    by (auto simp: Write_def)
  then have "length b1 = length buffer"
    by (auto simp: Write_def split: if_splits)
  with Cons.prems Cons.IH [of b1] w show ?case by simp
qed

lemma CanonicalBlock_CalculateCRC_ok:
  "m_crcTypeB blk = NO_CRC \<or> length (m_data blk) \<le> 1024
   \<Longrightarrow> \<not> isl (CanonicalBlock_CalculateCRC mem blk)"
  using CanonicalBlock_CalculateCRC_isl [of blk mem]
  by (auto simp: CanonicalBlock_CalculateCRC_def)

lemma blocks_CalculateCRC_ok:
  "list_all (\<lambda>blk. m_crcTypeB blk = NO_CRC \<or> length (m_data blk) \<le> 1024) blks
   \<Longrightarrow> \<not> isl (blocks_CalculateCRC mem blks)"
proof (induction blks)
  case Nil
  then show ?case by simp
next
  case (Cons blk blks)
  then show ?case
    using CanonicalBlock_CalculateCRC_ok [of blk mem]
    by (auto split: sum.splits)
qed

lemma PrimaryBlock_CalculateCRC_ok:
  "m_crcType p = NO_CRC
     \<or> (length (m_destinationEID p) \<le> 1024 \<and> length (m_sourceNodeEID p) \<le> 1024
        \<and> length (m_reportToEID p) \<le> 1024)
   \<Longrightarrow> \<not> isl (PrimaryBlock_CalculateCRC mem p)"
  using PrimaryBlock_CalculateCRC_isl [of p mem]
  by (auto simp: PrimaryBlock_CalculateCRC_def)

lemma AddBlock_crc_data:
  "map (\<lambda>blk. (m_crcTypeB blk, m_data blk)) (m_canonicalBlocks (AddBlock blk b))
     = map (\<lambda>blk. (m_crcTypeB blk, m_data blk)) (m_canonicalBlocks b)
       @ [(m_crcTypeB blk, m_data blk)]"
  by (simp add: AddBlock_def Let_def)

lemma foldl_AddBlock_crc_data:
  "map (\<lambda>blk. (m_crcTypeB blk, m_data blk))
       (m_canonicalBlocks (foldl (\<lambda>f blk. AddBlock blk f) b blks))
     = map (\<lambda>blk. (m_crcTypeB blk, m_data blk)) (m_canonicalBlocks b)
       @ map (\<lambda>blk. (m_crcTypeB blk, m_data blk)) blks"
  by (induction blks arbitrary: b) (simp_all add: AddBlock_crc_data)

text \<open>
  \<open>Reassemble\<close> returns when every payload lies inside the total length and the encoder
  accepts what \<open>CalculateCRC\<close> gives it of the first fragment.
\<close>

lemma Reassemble_returns:
  assumes fits: "list_all (\<lambda>x. fragment_offset x + length (GetPayload x) \<le> n) frags"
    and primary: "m_crcType (m_primaryBlock (hd frags)) = NO_CRC
       \<or> (length (m_destinationEID (m_primaryBlock (hd frags))) \<le> 1024
          \<and> length (m_sourceNodeEID (m_primaryBlock (hd frags))) \<le> 1024
          \<and> length (m_reportToEID (m_primaryBlock (hd frags))) \<le> 1024)"
    and blocks: "list_all (\<lambda>blk. m_blockType blk = PAYLOAD_BLOCK \<or> m_crcTypeB blk = NO_CRC
                             \<or> length (m_data blk) \<le> 1024) (m_canonicalBlocks (hd frags))"
  shows "\<exists>r. Reassemble mem n frags = Inr r"
proof -
  from fits obtain payload where c: "copy_payloads (replicate n 0) frags = Inr payload"
    using copy_payloads_fits [of "replicate n 0" frags] by auto
  define assembled where
    "assembled = foldl (\<lambda>f blk. AddBlock blk f)
       (AddBlock (PayloadBlock_new payload)
          \<lparr>m_primaryBlock = SetFragmentation False (m_primaryBlock (hd frags)),
           m_canonicalBlocks = []\<rparr>)
       (filter (\<lambda>blk. m_blockType blk \<noteq> PAYLOAD_BLOCK) (m_canonicalBlocks (hd frags)))"
  have "m_primaryBlock assembled = SetFragmentation False (m_primaryBlock (hd frags))"
    by (simp add: assembled_def foldl_AddBlock_primary AddBlock_primary)
  with primary have p: "\<not> isl (PrimaryBlock_CalculateCRC mem (m_primaryBlock assembled))"
    by (intro PrimaryBlock_CalculateCRC_ok) (simp add: SetFragmentation_def)
  have "map (\<lambda>blk. (m_crcTypeB blk, m_data blk)) (m_canonicalBlocks assembled)
      = (NO_CRC, payload)
        # map (\<lambda>blk. (m_crcTypeB blk, m_data blk))
            (filter (\<lambda>blk. m_blockType blk \<noteq> PAYLOAD_BLOCK) (m_canonicalBlocks (hd frags)))"
    by (simp add: assembled_def foldl_AddBlock_crc_data AddBlock_crc_data PayloadBlock_new_def)
  then have "list_all (\<lambda>(t, d). t = NO_CRC \<or> length d \<le> 1024)
      (map (\<lambda>blk. (m_crcTypeB blk, m_data blk)) (m_canonicalBlocks assembled))"
    using blocks by (auto simp: list_all_iff)
  then have "list_all (\<lambda>blk. m_crcTypeB blk = NO_CRC \<or> length (m_data blk) \<le> 1024)
      (m_canonicalBlocks assembled)"
    by (simp add: list_all_iff)
  from p blocks_CalculateCRC_ok [OF this, of mem]
  have "\<not> isl (Bundle_CalculateCRC mem assembled)"
    by (auto simp: Bundle_CalculateCRC_def split: sum.splits)
  then obtain r where "Bundle_CalculateCRC mem assembled = Inr r"
    by (auto dest: not_isl_Inr)
  then show ?thesis
    by (simp add: Reassemble_def c assembled_def)
qed

lemma Reassemble_payload:
  assumes "Reassemble mem n frags = Inr r"
  shows "copy_payloads (replicate n 0) frags = Inr (GetPayload r)"
proof -
  from assms obtain payload where c: "copy_payloads (replicate n 0) frags = Inr payload"
    and crc: "Bundle_CalculateCRC mem
            (foldl (\<lambda>f blk. AddBlock blk f)
               (AddBlock (PayloadBlock_new payload)
                  \<lparr>m_primaryBlock = SetFragmentation False (m_primaryBlock (hd frags)),
                   m_canonicalBlocks = []\<rparr>)
               (filter (\<lambda>blk. m_blockType blk \<noteq> PAYLOAD_BLOCK)
                  (m_canonicalBlocks (hd frags)))) = Inr r"
    by (auto simp: Reassemble_def split: sum.splits)
  have pb: "GetPayloadBlock (AddBlock (PayloadBlock_new payload)
                  \<lparr>m_primaryBlock = p, m_canonicalBlocks = []\<rparr>)
        = Some (PayloadBlock_new payload)" for p
    by (simp add: GetPayloadBlock_def GetBlockByType_def AddBlock_def PayloadBlock_new_def
        PAYLOAD_BLOCK_def)
  have d: "m_data (PayloadBlock_new payload) = payload"
    by (simp add: PayloadBlock_new_def)
  from CalculateCRC_bundle [OF crc] c show ?thesis
    by (simp add: GetPayload_foldl_AddBlock pb d)
qed

section \<open>Lemmas on the previous-node block\<close>

lemma EndpointID_new_none: "EndpointID_new ''dtn:none'' = ''dtn:none''"
  by (simp add: EndpointID_new_def GetScheme_def ParseDtn_def)

lemma EndpointID_ToCbor_Inr:
  assumes "EndpointID_ToCbor mem eid = Inr buffer"
  shows "buffer = 0x82 # drop 1 (AddAtStart 1024 mem)"
  using assms Encode_Array_cases [of mem "[TextString (GetScheme eid), TextString (GetSsp eid)]"]
  by (auto simp: EndpointID_ToCbor_def EncodeUnsigned_bytes_def EncodeHeader_def
      simp del: Encode.simps)

lemma GetPreviousNode_stamp:
  assumes "m_data blk = 0x82 # rest"
  shows "GetPreviousNode blk = ''dtn:none''"
proof -
  have "fst (DecodeHeader (0x82 :: 8 word)) = 4"
    by (simp add: DecodeHeader_def)
  then have "Decode (m_data blk) = None"
    using Decode_array_header [of "m_data blk"] assms by simp
  then show ?thesis
    by (simp add: GetPreviousNode_def EndpointID_FromCbor_def EndpointID_new_none)
qed


lemma find_append_last:
  "P y \<Longrightarrow> find P (xs @ [y]) = (case find P xs of Some x \<Rightarrow> Some x | None \<Rightarrow> Some y)"
  by (induction xs) simp_all

section \<open>Lemmas on the copy of the payloads\<close>

text \<open>
  Fragments that follow one another without gap or overlap from the offset \<open>n\<close> on are copied
  to the concatenation of their payloads.
\<close>

lemma copy_payloads_contiguous:
  assumes "\<forall>k < length frags.
      fragment_offset (frags ! k) = n + length (concat (map GetPayload (take k frags)))"
    and "n + length (concat (map GetPayload frags)) \<le> length buffer"
  shows "copy_payloads buffer frags =
      Inr (take n buffer @ concat (map GetPayload frags)
           @ drop (n + length (concat (map GetPayload frags))) buffer)"
  using assms
proof (induction frags arbitrary: buffer n)
  case Nil
  then show ?case by simp
next
  case (Cons x frags)
  from Cons.prems(1) [rule_format, of 0] have off: "fragment_offset x = n" by simp
  let ?b1 = "take n buffer @ GetPayload x @ drop (n + length (GetPayload x)) buffer"
  from Cons.prems(2) have w: "Write (fragment_offset x) (GetPayload x) buffer = Inr ?b1"
    by (simp add: Write_def off)
  have len: "length ?b1 = length buffer"
    using Cons.prems(2) by simp
  have offs: "\<forall>k < length frags.
      fragment_offset (frags ! k)
        = (n + length (GetPayload x)) + length (concat (map GetPayload (take k frags)))"
  proof (intro allI impI)
    fix k assume "k < length frags"
    with Cons.prems(1) [rule_format, of "Suc k"] show "fragment_offset (frags ! k)
        = (n + length (GetPayload x)) + length (concat (map GetPayload (take k frags)))"
      by simp
  qed
  have room: "(n + length (GetPayload x)) + length (concat (map GetPayload frags)) \<le> length ?b1"
    using Cons.prems(2) by simp
  have t: "take (n + length (GetPayload x)) ?b1 = take n buffer @ GetPayload x"
    using Cons.prems(2) by simp
  have d: "drop (n + length (GetPayload x) + m) ?b1 = drop (n + length (GetPayload x) + m) buffer"
    for m using Cons.prems(2) by (simp add: ac_simps)
  from Cons.IH [OF offs room]
  have "copy_payloads ?b1 frags =
      Inr ((take n buffer @ GetPayload x) @ concat (map GetPayload frags)
           @ drop (n + length (GetPayload x) + length (concat (map GetPayload frags))) buffer)"
    by (simp only: t d)
  with w show ?case
    by (simp add: add.assoc)
qed

section \<open>Claims\<close>

text \<open>
  C3 (code defect). \<open>CalculateCRC32\<close> runs the reflected (right-shifting) loop with the
  unreflected constant \<open>0x1EDC6F41\<close>, so it does not compute CRC-32/Castagnoli: on the
  one-byte input \<open>00\<close> it returns \<open>0xEDA28EAD\<close>, where the checksum defined by the
  reflected form \<open>0x82F63B78\<close> is \<open>0x527D5351\<close>.
\<close>

theorem C3_CalculateCRC32_not_castagnoli:
  "CalculateCRC32 [0] = 3986853549 \<and> crc32c_spec [0] = 1383945041
   \<and> CalculateCRC32 [0] \<noteq> crc32c_spec [0]"
  by code_simp

text \<open>
  C1, as stated, fails: a bundle whose Bundle ID is already present is not rejected. In both
  copies of the store \<open>Push\<close> of \<open>bundle_two\<close>, which has the Bundle ID of the stored
  \<open>bundle_one\<close>, returns true and overwrites the stored bundle.
\<close>

theorem C1_Push_duplicate_counterexample:
  "umap_find (GetId bundle_two) (m_bundles store_one) = Some bundle_one
   \<and> snd (Push store_one (Some bundle_two)) = True
   \<and> m_bundles (fst (Push store_one (Some bundle_two))) = [(GetId bundle_one, bundle_two)]
   \<and> umap_find (GetId bundle_two) (m_bundles store_one_max) = Some bundle_one
   \<and> snd (PushMax store_one_max (Some bundle_two)) = True"
  by (simp add: Push_def PushMax_def store_one_def store_one_max_def bundle_one_def bundle_two_def
      GetId_def BundleID_eq_def)

text \<open>
  C1, amended. \<open>Push\<close> of a non-null bundle \<open>b\<close> returns true and leaves \<open>b\<close> stored under
  its Bundle ID, also when that ID was present before (the stored bundle is then replaced);
  every other ID keeps its entry, so nothing is evicted. The copy of the store that has
  \<open>MaxBundles\<close> rejects the call, changing nothing, exactly when the store already holds
  that many bundles, and behaves in the same way otherwise.
\<close>

theorem C1_Push_stores_or_replaces:
  "snd (Push st (Some b))
   \<and> umap_find (GetId b) (m_bundles (fst (Push st (Some b)))) = Some b
   \<and> (\<forall>k. \<not> BundleID_eq k (GetId b) \<longrightarrow>
          umap_find k (m_bundles (fst (Push st (Some b)))) = umap_find k (m_bundles st))
   \<and> (if m_maxBundles sm \<le> length (m_bundles sm)
       then PushMax sm (Some b) = (sm, False)
       else snd (PushMax sm (Some b))
          \<and> umap_find (GetId b) (m_bundles (fst (PushMax sm (Some b)))) = Some b
          \<and> (\<forall>k. \<not> BundleID_eq k (GetId b) \<longrightarrow>
                umap_find k (m_bundles (fst (PushMax sm (Some b)))) = umap_find k (m_bundles sm)))"
  by (simp add: Push_def PushMax_def umap_find_assign_same umap_find_assign_other)

theorem C1_Push_stores_or_replaces_witness:
  "\<not> BundleID_eq (GetId bundle_three) (GetId bundle_two)
   \<and> umap_find (GetId bundle_three) (m_bundles (fst (Push store_one (Some bundle_two)))) = None
   \<and> \<not> m_maxBundles store_one_max \<le> length (m_bundles store_one_max)
   \<and> snd (PushMax store_one_max (Some bundle_two))
   \<and> umap_find (GetId bundle_two) (m_bundles (fst (PushMax store_one_max (Some bundle_two))))
       = Some bundle_two"
proof -
  have ne: "\<not> BundleID_eq (GetId bundle_three) (GetId bundle_two)"
    by (simp add: bundle_two_def bundle_three_def GetId_def BundleID_eq_def primary_ab_def)
  have room: "\<not> m_maxBundles store_one_max \<le> length (m_bundles store_one_max)"
    by (simp add: store_one_max_def)
  have old: "umap_find (GetId bundle_three) (m_bundles store_one) = None"
    by (simp add: store_one_def bundle_one_def bundle_three_def GetId_def BundleID_eq_def
        primary_ab_def)
  from ne room old C1_Push_stores_or_replaces [of store_one bundle_two store_one_max]
  show ?thesis by simp
qed

text \<open>
  C4, as stated, fails: \<open>Get\<close> does not look at the expiry. \<open>bundle_one\<close> was created at
  DTN second 100 with a lifetime of 5 s; at simulation time 200 s it is expired, and \<open>Get\<close>
  still returns it.
\<close>

theorem C4_Get_expired_counterexample:
  "IsExpired 200000000000 bundle_one
   \<and> snd (Get store_one (GetId bundle_one)) = Some bundle_one"
  by (simp add: IsExpired_def Get_def store_one_def bundle_one_def primary_ab_def ToTime_def
      GetId_def BundleID_eq_def)

text \<open>
  C4, amended. \<open>Get\<close> returns the bundle stored under the ID whenever there is one, expired
  or not, returns absence exactly when none is stored, and leaves the stored bundles as
  they are. Expiry is applied by \<open>Cleanup\<close> only: what \<open>Get\<close> returns right after a
  \<open>Cleanup\<close> at time \<open>now\<close> is not expired at \<open>now\<close>.
\<close>

theorem C4_Get_ignores_expiry:
  "snd (Get st k) = umap_find k (m_bundles st)
   \<and> m_bundles (fst (Get st k)) = m_bundles st
   \<and> (snd (Get (fst (Cleanup now st)) k) = Some b \<longrightarrow> \<not> IsExpired now b)"
proof -
  have "snd (Get st k) = umap_find k (m_bundles st)" for st :: "'a MemoryBundleStore_scheme"
    by (simp add: Get_def split: option.splits)
  moreover have "m_bundles (fst (Get st k)) = m_bundles st"
    by (simp add: Get_def split: option.splits)
  moreover have "umap_find k (m_bundles (fst (Cleanup now st))) = Some b \<Longrightarrow> \<not> IsExpired now b"
    using umap_find_filter [of k "\<lambda>v. \<not> IsExpired now v" "m_bundles st" b]
    by (simp add: Cleanup_def Let_def)
  ultimately show ?thesis by simp
qed

theorem C4_Get_ignores_expiry_witness:
  "snd (Get (fst (Cleanup 0 store_one)) (GetId bundle_one)) = Some bundle_one
   \<and> \<not> IsExpired 0 bundle_one"
  using C4_Get_ignores_expiry [of store_one "GetId bundle_one" 0 bundle_one]
  by (simp add: IsExpired_def Get_def Cleanup_def store_one_def bundle_one_def primary_ab_def
      ToTime_def GetId_def BundleID_eq_def)

text \<open>
  C2 (code defect). Decoding what \<open>Bundle::ToCbor\<close> produces never yields a bundle:
  \<open>Cbor::Decode\<close> has no case for arrays, so \<open>ToCbor\<close> drops every block (its output
  is the header of an empty array, \<open>0x80\<close>, at the start of a 1024-byte buffer), and
  \<open>Bundle::FromCbor\<close> returns no bundle for it. This holds for every bundle that
  \<open>ToCbor\<close> encodes without overrunning its buffer, whatever the buffers contained.
\<close>

theorem C2_FromCbor_of_ToCbor_is_empty:
  "Bundle_ToCbor mem bundle = Inr buffer \<Longrightarrow> Bundle_FromCbor mem' buffer = Inr None"
  using Bundle_ToCbor_Inr [of mem "bundle" buffer] by (simp add: Bundle_FromCbor_def)

theorem C2_FromCbor_of_ToCbor_is_empty_witness:
  "Bundle_ToCbor (\<lambda>i. 0) bundle_one = Inr (0x80 # drop 1 (AddAtStart 1024 (\<lambda>i. 0)))
   \<and> Bundle_FromCbor (\<lambda>i. 0) (0x80 # drop 1 (AddAtStart 1024 (\<lambda>i. 0))) = Inr None"
proof -
  from Bundle_ToCbor_bundle_one [of "\<lambda>i. 0"] Bundle_ToCbor_cases [of "\<lambda>i. 0" bundle_one]
  have enc: "Bundle_ToCbor (\<lambda>i. 0) bundle_one = Inr (0x80 # drop 1 (AddAtStart 1024 (\<lambda>i. 0)))"
    by auto
  from enc C2_FromCbor_of_ToCbor_is_empty [OF enc, of "\<lambda>i. 0"] show ?thesis by simp
qed

text \<open>
  C10 (code defect). When a sender reports the endpoint reachable, \<open>SendBundle\<close> writes
  the previous-node block before it calls \<open>Send\<close>, keeps what it wrote whatever \<open>Send\<close>
  answers, and leaves the primary block and the other blocks as they were. But what it
  writes does not name the local node: the encoder keeps only the header of the array, so
  for every node ID the data are the byte 82 followed by the uninitialised rest of the
  buffer, and \<open>GetPreviousNode\<close> reads them as \<open>dtn:none\<close>. And a block is created not
  only when there is none: a block of type 6 that is not an object of the class
  \<open>PreviousNodeBlock\<close> is left as it is, the new block is added behind it, and the lookup
  by type still finds the old one.
\<close>

theorem C10_SendBundle_previous_node_unreadable:
  assumes "find (\<lambda>sender. IsEndpointReachable sender ep) (m_senders st) = Some sender"
    and "SendBundle mem st b rcv ep = Inr (st', b', r)"
  shows "UpdatePreviousNode mem (m_localNodeID st) b = Inr b'
     \<and> r = Send sender b' ep
     \<and> m_primaryBlock b' = m_primaryBlock b
     \<and> EndpointID_ToCbor mem (m_localNodeID st) = Inr (0x82 # drop 1 (AddAtStart 1024 mem))
     \<and> (case DynamicCast_PreviousNodeBlock (GetBlockByType b PREVIOUS_NODE_BLOCK) of
           Some blk \<Rightarrow>
             m_canonicalBlocks b' =
               (m_canonicalBlocks b)
                 [length (takeWhile (\<lambda>x. m_blockType x \<noteq> PREVIOUS_NODE_BLOCK)
                            (m_canonicalBlocks b))
                    := blk\<lparr>m_data := 0x82 # drop 1 (AddAtStart 1024 mem)\<rparr>]
             \<and> m_canonicalBlocks b
                 ! length (takeWhile (\<lambda>x. m_blockType x \<noteq> PREVIOUS_NODE_BLOCK)
                             (m_canonicalBlocks b)) = blk
             \<and> GetPreviousNode (blk\<lparr>m_data := 0x82 # drop 1 (AddAtStart 1024 mem)\<rparr>)
                 = ''dtn:none''
         | None \<Rightarrow>
             m_canonicalBlocks b' =
               m_canonicalBlocks b
               @ [\<lparr>dyn_class = PreviousNodeBlockClass, m_blockType = PREVIOUS_NODE_BLOCK,
                   m_blockNumber = 2, m_blockControlFlags = 0, m_crcTypeB = NO_CRC,
                   m_data = 0x82 # drop 1 (AddAtStart 1024 mem), m_crcValueB = []\<rparr>]
             \<and> GetPreviousNode
                   \<lparr>dyn_class = PreviousNodeBlockClass, m_blockType = PREVIOUS_NODE_BLOCK,
                    m_blockNumber = 2, m_blockControlFlags = 0, m_crcTypeB = NO_CRC,
                    m_data = 0x82 # drop 1 (AddAtStart 1024 mem), m_crcValueB = []\<rparr>
                 = ''dtn:none''
             \<and> GetBlockByType b' PREVIOUS_NODE_BLOCK =
                 (case GetBlockByType b PREVIOUS_NODE_BLOCK of
                    Some old \<Rightarrow> Some old
                  | None \<Rightarrow>
                      Some \<lparr>dyn_class = PreviousNodeBlockClass, m_blockType = PREVIOUS_NODE_BLOCK,
                            m_blockNumber = 2, m_blockControlFlags = 0, m_crcTypeB = NO_CRC,
                            m_data = 0x82 # drop 1 (AddAtStart 1024 mem), m_crcValueB = []\<rparr>))"
proof -
  from assms have upd: "UpdatePreviousNode mem (m_localNodeID st) b = Inr b'"
    and res: "r = Send sender b' ep"
    by (auto simp: SendBundle_def split: sum.splits if_splits)
  from upd obtain buffer where "EndpointID_ToCbor mem (m_localNodeID st) = Inr buffer"
    by (auto simp: UpdatePreviousNode_def PreviousNodeBlock_new_def SetPreviousNode_def
        split: option.splits sum.splits)
  with EndpointID_ToCbor_Inr [OF this]
  have enc: "EndpointID_ToCbor mem (m_localNodeID st) = Inr (0x82 # drop 1 (AddAtStart 1024 mem))"
    by simp
  have none: "GetPreviousNode (blk\<lparr>m_data := 0x82 # drop 1 (AddAtStart 1024 mem)\<rparr>) = ''dtn:none''"
    for blk by (rule GetPreviousNode_stamp) simp
  show ?thesis
  proof (cases "DynamicCast_PreviousNodeBlock (GetBlockByType b PREVIOUS_NODE_BLOCK)")
    case None
    define added where
      "added = \<lparr>dyn_class = PreviousNodeBlockClass, m_blockType = PREVIOUS_NODE_BLOCK,
         m_blockNumber = 2, m_blockControlFlags = 0, m_crcTypeB = NO_CRC,
         m_data = 0x82 # drop 1 (AddAtStart 1024 mem), m_crcValueB = []\<rparr>"
    have new: "GetPreviousNode added = ''dtn:none''"
      by (rule GetPreviousNode_stamp) (simp add: added_def)
    from None upd enc
    have blocks: "m_canonicalBlocks b' = m_canonicalBlocks b @ [added]"
      and prim: "m_primaryBlock b' = m_primaryBlock b"
      by (auto simp: UpdatePreviousNode_def PreviousNodeBlock_new_def SetPreviousNode_def
          AddBlock_def added_def)
    have "m_blockType added = PREVIOUS_NODE_BLOCK"
      by (simp add: added_def)
    with blocks have "GetBlockByType b' PREVIOUS_NODE_BLOCK =
        (case GetBlockByType b PREVIOUS_NODE_BLOCK of
           Some old \<Rightarrow> Some old
         | None \<Rightarrow> Some added)"
      by (simp add: GetBlockByType_def find_append_last)
    with None upd res enc new blocks prim show ?thesis
      unfolding added_def by simp
  next
    case (Some blk)
    then have f: "find (\<lambda>x. m_blockType x = PREVIOUS_NODE_BLOCK) (m_canonicalBlocks b) = Some blk"
      by (auto simp: DynamicCast_PreviousNodeBlock_def GetBlockByType_def
          split: option.splits if_splits)
    then have ex: "\<exists>x \<in> set (m_canonicalBlocks b). m_blockType x = PREVIOUS_NODE_BLOCK"
      by (auto simp: find_Some_iff)
    from Some upd enc
    have "m_canonicalBlocks b' =
        replace_first (\<lambda>blk. m_blockType blk = PREVIOUS_NODE_BLOCK)
          (blk\<lparr>m_data := 0x82 # drop 1 (AddAtStart 1024 mem)\<rparr>) (m_canonicalBlocks b)"
      and prim: "m_primaryBlock b' = m_primaryBlock b"
      by (auto simp: UpdatePreviousNode_def SetPreviousNode_def)
    with Some upd res enc none [of blk] show ?thesis
      using replace_first_list_update [OF ex] find_takeWhile [OF f]
      by simp
  qed
qed

theorem C10_SendBundle_previous_node_unreadable_witness:
  "m_localNodeID engine_a_failing = ''dtn://a/''
   \<and> SendBundle (\<lambda>i. 0) engine_a_failing bundle_one eid_b ''10.0.0.2''
     = Inr (engine_a_failing\<lparr>m_failedBundles := 1\<rparr>, bundle_one_stamped, False)
   \<and> SendBundle (\<lambda>i. 0) engine_a_failing
         (bundle_one\<lparr>m_canonicalBlocks := [payload_block [1, 2, 3], previous_node_empty]\<rparr>)
         eid_b ''10.0.0.2''
     = Inr (engine_a_failing\<lparr>m_failedBundles := 1\<rparr>, bundle_one_stamped, False)
   \<and> SendBundle (\<lambda>i. 0) engine_a_failing
         (bundle_one\<lparr>m_canonicalBlocks := [payload_block [1, 2, 3], previous_node_plain]\<rparr>)
         eid_b ''10.0.0.2''
     = Inr (engine_a_failing\<lparr>m_failedBundles := 1\<rparr>,
            bundle_one\<lparr>m_canonicalBlocks :=
                         [payload_block [1, 2, 3], previous_node_plain, previous_node_a]\<rparr>,
            False)
   \<and> GetBlockByType
         (bundle_one\<lparr>m_canonicalBlocks :=
                      [payload_block [1, 2, 3], previous_node_plain, previous_node_a]\<rparr>)
         PREVIOUS_NODE_BLOCK = Some previous_node_plain
   \<and> GetPreviousNode previous_node_a = ''dtn:none''"
proof -
  have f: "find (\<lambda>sender. IsEndpointReachable sender ''10.0.0.2'') (m_senders engine_a_failing)
     = Some sender_failing"
    by (simp add: engine_a_failing_def Initialize_def sender_failing_def)
  have e: "EndpointID_ToCbor (\<lambda>i. 0) eid_a = Inr (0x82 # drop 1 (AddAtStart 1024 (\<lambda>i. 0)))"
    by (rule EndpointID_ToCbor_short) (simp add: eid_a_def)
  note eval = SendBundle_def engine_a_failing_def Initialize_def sender_failing_def
    UpdatePreviousNode_def DynamicCast_PreviousNodeBlock_def GetBlockByType_def bundle_one_def
    payload_block_def PAYLOAD_BLOCK_def PREVIOUS_NODE_BLOCK_def PreviousNodeBlock_new_def
    SetPreviousNode_def AddBlock_def previous_node_a_def previous_node_empty_def
    previous_node_plain_def bundle_one_stamped_def
  have s1: "SendBundle (\<lambda>i. 0) engine_a_failing bundle_one eid_b ''10.0.0.2''
     = Inr (engine_a_failing\<lparr>m_failedBundles := 1\<rparr>, bundle_one_stamped, False)"
    using e by (simp add: eval)
  have s2: "SendBundle (\<lambda>i. 0) engine_a_failing
         (bundle_one\<lparr>m_canonicalBlocks := [payload_block [1, 2, 3], previous_node_empty]\<rparr>)
         eid_b ''10.0.0.2''
     = Inr (engine_a_failing\<lparr>m_failedBundles := 1\<rparr>, bundle_one_stamped, False)"
    using e by (simp add: eval)
  have s3: "SendBundle (\<lambda>i. 0) engine_a_failing
         (bundle_one\<lparr>m_canonicalBlocks := [payload_block [1, 2, 3], previous_node_plain]\<rparr>)
         eid_b ''10.0.0.2''
     = Inr (engine_a_failing\<lparr>m_failedBundles := 1\<rparr>,
            bundle_one\<lparr>m_canonicalBlocks :=
                         [payload_block [1, 2, 3], previous_node_plain, previous_node_a]\<rparr>,
            False)"
    using e by (simp add: eval)
  have n: "m_localNodeID engine_a_failing = ''dtn://a/''"
    by (simp add: engine_a_failing_def Initialize_def eid_a_def)
  have c1: "DynamicCast_PreviousNodeBlock (GetBlockByType bundle_one PREVIOUS_NODE_BLOCK) = None"
    by (simp add: eval)
  have c3: "DynamicCast_PreviousNodeBlock
        (GetBlockByType
           (bundle_one\<lparr>m_canonicalBlocks := [payload_block [1, 2, 3], previous_node_plain]\<rparr>)
           PREVIOUS_NODE_BLOCK) = None"
    "GetBlockByType
           (bundle_one\<lparr>m_canonicalBlocks := [payload_block [1, 2, 3], previous_node_plain]\<rparr>)
           PREVIOUS_NODE_BLOCK = Some previous_node_plain"
    by (simp_all add: eval)
  from C10_SendBundle_previous_node_unreadable [OF f s1] c1
  have g1: "GetPreviousNode previous_node_a = ''dtn:none''"
    by (simp add: previous_node_a_def)
  from C10_SendBundle_previous_node_unreadable [OF f s3] c3
  have g3: "GetBlockByType
         (bundle_one\<lparr>m_canonicalBlocks :=
                      [payload_block [1, 2, 3], previous_node_plain, previous_node_a]\<rparr>)
         PREVIOUS_NODE_BLOCK = Some previous_node_plain"
    by simp
  from n s1 s2 s3 g1 g3 C10_SendBundle_previous_node_unreadable [OF f s2]
  show ?thesis by simp
qed

text \<open>
  C5 (code defect). In the spray phase a forwarding attempt first decrements the stored
  count; when the send fails, the code writes back the decremented value, so the entry is
  \<open>c - 1\<close> and a copy is spent on the failed send.
\<close>

theorem C5_failed_send_spends_a_copy:
  assumes "GetCopyCount st (GetId b) = c" and "c > 1"
    and "spray_attempt mem st b peer = Inr (st', b', False)"
  shows "GetCopyCount st' (GetId b) = c - 1"
  using assms DecreaseCopyCount_spray [OF assms(1,2)]
  by (auto simp: spray_attempt_def Let_def GetCopyCount_SetCopyCount
      split: prod.splits sum.splits bool.splits)

theorem C5_failed_send_spends_a_copy_witness:
  "GetCopyCount (spray_engine sender_failing 4) (GetId bundle_one) = 4
   \<and> spray_attempt (\<lambda>i. 0) (spray_engine sender_failing 4) bundle_one peer_b
       = Inr ((spray_engine sender_failing 3)\<lparr>m_failedBundles := 1\<rparr>, bundle_one_stamped, False)
   \<and> GetCopyCount ((spray_engine sender_failing 3)\<lparr>m_failedBundles := 1\<rparr>) (GetId bundle_one) = 3"
proof -
  have c: "GetCopyCount (spray_engine sender_failing 4) (GetId bundle_one) = 4"
    by (simp add: GetCopyCount_def spray_engine_def BundleID_eq_def)
  from c spray_attempt_failing_4
    C5_failed_send_spends_a_copy [OF c _ spray_attempt_failing_4]
  show ?thesis by simp
qed

text \<open>
  C6 (code defect). In the spray phase (\<open>c > 1\<close>) a forwarding attempt first lowers the
  stored count to \<open>c - 1\<close> and then calls \<open>SendBundle\<close> with \<open>m_bundlesMutex\<close> held.
  When a sender reaches the endpoint of the peer and transmits the bundle, \<open>SendBundle\<close>
  locks the mutex again and the attempt does not return: the statement that would write the
  local share is not reached, and the count stays at \<open>c - 1\<close>, whatever \<open>c - c div 2\<close> is.
\<close>

theorem C6_successful_send_does_not_return:
  assumes "GetCopyCount st (GetId b) = c" and "c > 1"
    and "find (\<lambda>sender. IsEndpointReachable sender (endpoint peer)) (m_senders st) = Some sender"
    and "UpdatePreviousNode mem (m_localNodeID st) b = Inr b'"
    and "Send sender b' (endpoint peer)"
  shows "spray_attempt mem st b peer = Inl Deadlock
     \<and> GetCopyCount (fst (DecreaseCopyCount st (GetId b))) (GetId b) = c - 1"
proof -
  obtain st1 newCount where d: "DecreaseCopyCount st (GetId b) = (st1, newCount)"
    by (cases "DecreaseCopyCount st (GetId b)")
  with DecreaseCopyCount_frame [of st "GetId b"]
  have frame: "m_senders st1 = m_senders st" "m_localNodeID st1 = m_localNodeID st"
    by simp_all
  from assms(3-5) have "SendBundle_locked mem st1 b (nodeID peer) (endpoint peer) = Inl Deadlock"
    by (simp add: SendBundle_locked_def frame)
  then have "spray_attempt mem st b peer = Inl Deadlock"
    by (simp add: spray_attempt_def d)
  with DecreaseCopyCount_spray [OF assms(1,2)] show ?thesis by simp
qed

theorem C6_successful_send_does_not_return_witness:
  "GetCopyCount (spray_engine sender_up 4) (GetId bundle_one) = 4
   \<and> find (\<lambda>sender. IsEndpointReachable sender (endpoint peer_b))
         (m_senders (spray_engine sender_up 4)) = Some sender_up
   \<and> UpdatePreviousNode (\<lambda>i. 0) (m_localNodeID (spray_engine sender_up 4)) bundle_one
       = Inr bundle_one_stamped
   \<and> Send sender_up bundle_one_stamped (endpoint peer_b)
   \<and> spray_attempt (\<lambda>i. 0) (spray_engine sender_up 4) bundle_one peer_b = Inl Deadlock
   \<and> GetCopyCount (fst (DecreaseCopyCount (spray_engine sender_up 4) (GetId bundle_one)))
         (GetId bundle_one) = 3
   \<and> (4::nat) - 4 div 2 = 2"
proof -
  have c: "GetCopyCount (spray_engine sender_up 4) (GetId bundle_one) = 4"
    by (simp add: GetCopyCount_def spray_engine_def BundleID_eq_def)
  have f: "find (\<lambda>sender. IsEndpointReachable sender (endpoint peer_b))
         (m_senders (spray_engine sender_up 4)) = Some sender_up"
    by (simp add: spray_engine_def sender_up_def)
  have u: "UpdatePreviousNode (\<lambda>i. 0) (m_localNodeID (spray_engine sender_up 4)) bundle_one
       = Inr bundle_one_stamped"
    using EndpointID_ToCbor_eid_a
    by (simp add: spray_engine_def UpdatePreviousNode_def DynamicCast_PreviousNodeBlock_def
        GetBlockByType_def bundle_one_def payload_block_def PAYLOAD_BLOCK_def
        PREVIOUS_NODE_BLOCK_def PreviousNodeBlock_new_def SetPreviousNode_def AddBlock_def
        previous_node_a_def bundle_one_stamped_def)
  have t: "Send sender_up bundle_one_stamped (endpoint peer_b)"
    by (simp add: sender_up_def)
  from c f u t C6_successful_send_does_not_return [OF c _ f u t] show ?thesis by simp
qed

text \<open>
  C8, as stated, fails: \<open>NotifyNewBundle\<close> puts the source peer into the sent-to list of
  the descriptor although nothing was sent. After the engine of node \<open>a\<close> is told of
  \<open>bundle_one\<close> with source peer \<open>c\<close>, the sent-to list is \<open>[c]\<close> and no send
  was recorded.
\<close>

theorem C8_source_peer_counterexample:
  "map_sum id (\<lambda>st. (map (\<lambda>(k, d). sentNodes d) (m_bundlesD st), m_bundleSentTrace st,
                       sent_to_recorded st))
     (run (\<lambda>i. 0) (Initialize store_empty [sender_up] eid_a)
        [NotifyNewBundleEv (Some bundle_one) eid_c])
   = Inr ([[eid_c]], [], False)"
  by (simp add: Initialize_def store_empty_def NotifyNewBundle_def PushMax_def
      UpdateBundleDescriptor_def AddSentNode_def SentTo_def BundleID_eq_refl
      sent_to_recorded_def send_recorded_def)

text \<open>
  C8, amended. In every state the epidemic engine reaches from \<open>Initialize\<close>, each peer
  in the sent-to list of a descriptor is either a source peer that \<open>NotifyNewBundle\<close> was
  called with for a bundle of the descriptor's ID, or the receiver of a recorded successful
  send of such a bundle.
\<close>

theorem C8_sent_to_justified:
  assumes "run mem (Initialize store senders localNodeID) evs = Inr st"
  shows "sent_to_justified evs st"
proof -
  have "list_all (entry_ok [] (m_bundleSentTrace (Initialize store senders localNodeID)))
          (m_bundlesD (Initialize store senders localNodeID))"
    by (simp add: Initialize_def)
  from run_entries [OF assms this]
  show ?thesis
    by (force simp: sent_to_justified_def entry_ok_def list_all_iff)
qed

theorem C8_sent_to_justified_witness:
  "run (\<lambda>i. 0) (Initialize store_empty [sender_up] eid_a)
     [NotifyNewBundleEv (Some bundle_one) eid_c, NotifyPeerAppearedEv 101000000000 peer_b]
   = Inr engine_after_meeting_b
   \<and> sent_to_justified
       [NotifyNewBundleEv (Some bundle_one) eid_c, NotifyPeerAppearedEv 101000000000 peer_b]
       engine_after_meeting_b"
  using run_meeting_b C8_sent_to_justified [OF run_meeting_b] by simp

text \<open>
  C7 (code defect). The encoder works in a buffer of 1024 bytes, into which it writes the
  data of a block at once, and every encoding it returns has 1024 bytes. So a bundle with a
  payload of more than 1024 bytes is not encoded, and \<open>FragmentBundle\<close>, which begins by
  encoding the bundle, makes no fragment of it; a bundle that is encoded has 1024 bytes and
  counts as fitting whenever the maximum fragment size is 1024 or more; and below 2 the
  budget is 0 and the number of fragments is a division by zero. In each of these cases the
  call either returns no fragment and leaves the manager as it was, or does not return.
  For the payload of 10000 bytes and the maximum fragment size 3000, where four fragments
  are expected, the encoder runs over its buffer.
\<close>

theorem C7_FragmentBundle_no_fragments:
  assumes "1024 < length (GetPayload b) \<or> 1024 \<le> m \<or> m < 2"
  shows "FragmentBundle mem st b m = Inr (st, []) \<or> (\<exists>e. FragmentBundle mem st b m = Inl e)"
proof (cases "Bundle_ToCbor mem b")
  case (Inl e)
  then show ?thesis by (intro FragmentBundle_refused_or_error) simp
next
  case (Inr full)
  note size = Bundle_ToCbor_Inr [OF Inr]
  have fits: "length (GetPayload b) \<le> 1024"
  proof (cases "GetPayloadBlock b")
    case None
    then show ?thesis by (simp add: GetPayload_def)
  next
    case (Some pb)
    then have "pb \<in> set (m_canonicalBlocks b)"
      by (auto simp: GetPayloadBlock_def GetBlockByType_def dest: find_Some_mem)
    from Bundle_ToCbor_isl(2) [OF Inr this] Some show ?thesis
      by (simp add: CanonicalBlock_ToCbor_isl GetPayload_def)
  qed
  with assms consider "1024 \<le> m" | "m < 2" by auto
  then show ?thesis
  proof cases
    case 1
    with size show ?thesis by (simp add: FragmentBundle_def Inr)
  next
    case 2
    show ?thesis
    proof (cases "headerOverhead mem b")
      case (Inl e)
      then show ?thesis
        by (auto simp: FragmentBundle_def Inr split: option.splits)
    next
      case (Inr overhead)
      with 2 headerOverhead_size [OF Inr] have "maxPayloadPerFragment m overhead = 0"
        by (simp add: maxPayloadPerFragment_def)
      with Inr show ?thesis
        by (auto simp: FragmentBundle_def \<open>Bundle_ToCbor mem b = Inr full\<close>
            split: option.splits)
    qed
  qed
qed

theorem C7_FragmentBundle_no_fragments_witness:
  "length (GetPayload bundle_large) = 10000
   \<and> \<not> MustNotFragment (m_primaryBlock bundle_large)
   \<and> \<not> IsAdministrativeRecord (m_primaryBlock bundle_large)
   \<and> FragmentBundle (\<lambda>i. 0) manager_new bundle_large 3000 = Inl BufferOverrun"
proof -
  have len: "length (GetPayload bundle_large) = 10000"
    by (simp add: GetPayload_def GetPayloadBlock_def GetBlockByType_def bundle_large_def
        payload_block_def)
  have flags: "\<not> MustNotFragment (m_primaryBlock bundle_large)"
    "\<not> IsAdministrativeRecord (m_primaryBlock bundle_large)"
    by (simp_all add: MustNotFragment_def IsAdministrativeRecord_def bundle_large_def
        primary_ab_def)
  obtain p where p: "PrimaryBlock_ToCbor (\<lambda>i. 0) primary_ab = Inr p"
    using PrimaryBlock_ToCbor_primary_ab by blast
  have "CanonicalBlock_ToCbor (\<lambda>i. 0) (payload_block (replicate 10000 0)) = Inl BufferOverrun"
    by (rule CanonicalBlock_ToCbor_oversize) (simp add: payload_block_def)
  with p have enc: "Bundle_ToCbor (\<lambda>i. 0) bundle_large = Inl BufferOverrun"
    by (simp add: Bundle_ToCbor_def bundle_large_def)
  from len have "1024 < length (GetPayload bundle_large) \<or> 1024 \<le> (3000::nat) \<or> (3000::nat) < 2"
    by simp
  from C7_FragmentBundle_no_fragments [OF this, of "\<lambda>i. 0" manager_new] flags enc len
  show ?thesis by (simp add: FragmentBundle_def)
qed

text \<open>
  C9. A fragment whose offset is already recorded in its fragment set is rejected and the
  manager is left exactly as it was, whether the set is complete or not. A fragment \<open>g\<close>
  of the same bundle that is still missing then completes reassembly when it closes the
  coverage (the walk over the fragments sorted by offset finds no gap and reaches the total
  length), every payload lies inside the total length, and the encoder accepts what
  \<open>CalculateCRC\<close> gives it of the first fragment \<open>h\<close>: the call returns the reassembled
  bundle, which is not a fragment and has as payload the bytes of the fragments copied to
  their offsets, of the total length; the set is marked complete and holds the sorted
  fragments, the first of them with its shared blocks as the new bundle has them.
\<close>

theorem C9_duplicate_fragment:
  assumes set_f: "umap_find (GetOriginalBundleId f) (m_fragmentSets st) = Some info"
    and frag_f: "IsFragment (m_primaryBlock f)"
    and dup: "list_ex (\<lambda>x. fragment_offset x = fragment_offset f) (fragments info)"
  shows "AddFragment mem st (Some f) = Inr (st, None)
     \<and> (umap_find (GetOriginalBundleId g) (m_fragmentSets st) = Some info
        \<and> IsFragment (m_primaryBlock g)
        \<and> \<not> list_ex (\<lambda>x. fragment_offset x = fragment_offset g) (fragments info)
        \<and> distinct (map fragment_offset (fragments info))
        \<and> \<not> complete info
        \<and> covered_walk 0 (sort_key fragment_offset (fragments info @ [g])) = Some c
        \<and> totalLength info \<le> c
        \<and> list_all (\<lambda>x. fragment_offset x + length (GetPayload x) \<le> totalLength info)
             (fragments info @ [g])
        \<and> h = hd (sort_key fragment_offset (fragments info @ [g]))
        \<and> (m_crcType (m_primaryBlock h) = NO_CRC
             \<or> (length (m_destinationEID (m_primaryBlock h)) \<le> 1024
                \<and> length (m_sourceNodeEID (m_primaryBlock h)) \<le> 1024
                \<and> length (m_reportToEID (m_primaryBlock h)) \<le> 1024))
        \<and> list_all (\<lambda>blk. m_blockType blk = PAYLOAD_BLOCK \<or> m_crcTypeB blk = NO_CRC
                           \<or> length (m_data blk) \<le> 1024) (m_canonicalBlocks h)
        \<longrightarrow> (\<exists>r. AddFragment mem st (Some g) =
                   Inr (st\<lparr>m_fragmentSets :=
                             umap_assign (GetOriginalBundleId g)
                               (info\<lparr>fragments :=
                                        h\<lparr>m_canonicalBlocks :=
                                             share_back (m_canonicalBlocks h)
                                               (tl (m_canonicalBlocks r))\<rparr>
                                        # tl (sort_key fragment_offset (fragments info @ [g])),
                                      complete := True\<rparr>) (m_fragmentSets st),
                           m_reassembledBundles := m_reassembledBundles st + 1\<rparr>, Some r)
                 \<and> \<not> IsFragment (m_primaryBlock r)
                 \<and> length (GetPayload r) = totalLength info
                 \<and> copy_payloads (replicate (totalLength info) 0)
                       (sort_key fragment_offset (fragments info @ [g])) = Inr (GetPayload r)))"
proof (intro conjI impI)
  from dup have ne: "fragments info \<noteq> []" by auto
  from set_f frag_f dup ne show "AddFragment mem st (Some f) = Inr (st, None)"
    by (simp add: AddFragment_def Let_def umap_assign_same)
  assume g: "umap_find (GetOriginalBundleId g) (m_fragmentSets st) = Some info
        \<and> IsFragment (m_primaryBlock g)
        \<and> \<not> list_ex (\<lambda>x. fragment_offset x = fragment_offset g) (fragments info)
        \<and> distinct (map fragment_offset (fragments info))
        \<and> \<not> complete info
        \<and> covered_walk 0 (sort_key fragment_offset (fragments info @ [g])) = Some c
        \<and> totalLength info \<le> c
        \<and> list_all (\<lambda>x. fragment_offset x + length (GetPayload x) \<le> totalLength info)
             (fragments info @ [g])
        \<and> h = hd (sort_key fragment_offset (fragments info @ [g]))
        \<and> (m_crcType (m_primaryBlock h) = NO_CRC
             \<or> (length (m_destinationEID (m_primaryBlock h)) \<le> 1024
                \<and> length (m_sourceNodeEID (m_primaryBlock h)) \<le> 1024
                \<and> length (m_reportToEID (m_primaryBlock h)) \<le> 1024))
        \<and> list_all (\<lambda>blk. m_blockType blk = PAYLOAD_BLOCK \<or> m_crcTypeB blk = NO_CRC
                           \<or> length (m_data blk) \<le> 1024) (m_canonicalBlocks h)"
  define ordered where "ordered = sort_key fragment_offset (fragments info @ [g])"
  from g have h: "h = hd ordered" by (simp add: ordered_def)
  from g have "list_all (\<lambda>x. fragment_offset x + length (GetPayload x) \<le> totalLength info)
      ordered"
    by (simp add: list_all_iff ordered_def)
  from Reassemble_returns [OF this, of mem] g h
  obtain r where built: "Reassemble mem (totalLength info) ordered = Inr r"
    by auto
  from g ne built
  have "AddFragment mem st (Some g) =
      Inr (st\<lparr>m_fragmentSets :=
                umap_assign (GetOriginalBundleId g)
                  (info\<lparr>fragments :=
                           h\<lparr>m_canonicalBlocks :=
                                share_back (m_canonicalBlocks h) (tl (m_canonicalBlocks r))\<rparr>
                           # tl ordered,
                         complete := True\<rparr>) (m_fragmentSets st),
              m_reassembledBundles := m_reassembledBundles st + 1\<rparr>, Some r)"
    by (simp add: AddFragment_def TryReassemble_def Let_def ordered_def [symmetric] h)
  with Reassemble_result [OF built] Reassemble_payload [OF built]
  show "\<exists>r. AddFragment mem st (Some g) =
                   Inr (st\<lparr>m_fragmentSets :=
                             umap_assign (GetOriginalBundleId g)
                               (info\<lparr>fragments :=
                                        h\<lparr>m_canonicalBlocks :=
                                             share_back (m_canonicalBlocks h)
                                               (tl (m_canonicalBlocks r))\<rparr>
                                        # tl (sort_key fragment_offset (fragments info @ [g])),
                                      complete := True\<rparr>) (m_fragmentSets st),
                           m_reassembledBundles := m_reassembledBundles st + 1\<rparr>, Some r)
                 \<and> \<not> IsFragment (m_primaryBlock r)
                 \<and> length (GetPayload r) = totalLength info
                 \<and> copy_payloads (replicate (totalLength info) 0)
                       (sort_key fragment_offset (fragments info @ [g])) = Inr (GetPayload r)"
    unfolding ordered_def by blast
qed


theorem C9_duplicate_fragment_witness:
  "AddFragment (\<lambda>i. 0) manager_first (Some fragment_first) = Inr (manager_first, None)
   \<and> AddFragment (\<lambda>i. 0) manager_first (Some fragment_second) =
       Inr (manager_first
              \<lparr>m_fragmentSets :=
                 [(GetOriginalBundleId fragment_first,
                   info_first\<lparr>fragments :=
                                 [fragment_first
                                    \<lparr>m_canonicalBlocks := [payload_block [1, 2], hop_block 2]\<rparr>,
                                  fragment_second],
                               complete := True\<rparr>)],
               m_reassembledBundles := 1\<rparr>, Some reassembled_one)
   \<and> \<not> IsFragment (m_primaryBlock reassembled_one)
   \<and> GetPayload reassembled_one = [1, 2, 3]"
proof -
  have set_f: "umap_find (GetOriginalBundleId fragment_first) (m_fragmentSets manager_first)
      = Some info_first"
    by (simp add: fragment_eval)
  have frag_f: "IsFragment (m_primaryBlock fragment_first)"
    by (simp add: fragment_eval)
  have dup: "list_ex (\<lambda>x. fragment_offset x = fragment_offset fragment_first)
      (fragments info_first)"
    by (simp add: fragment_eval)
  have ordered: "sort_key fragment_offset (fragments info_first @ [fragment_second])
      = [fragment_first, fragment_second]"
    by (simp add: fragment_eval)
  have g: "umap_find (GetOriginalBundleId fragment_second) (m_fragmentSets manager_first)
          = Some info_first
        \<and> IsFragment (m_primaryBlock fragment_second)
        \<and> \<not> list_ex (\<lambda>x. fragment_offset x = fragment_offset fragment_second)
              (fragments info_first)
        \<and> distinct (map fragment_offset (fragments info_first))
        \<and> \<not> complete info_first
        \<and> covered_walk 0 (sort_key fragment_offset (fragments info_first @ [fragment_second]))
            = Some 3
        \<and> totalLength info_first \<le> 3
        \<and> list_all (\<lambda>x. fragment_offset x + length (GetPayload x) \<le> totalLength info_first)
             (fragments info_first @ [fragment_second])
        \<and> fragment_first = hd (sort_key fragment_offset (fragments info_first @ [fragment_second]))
        \<and> (m_crcType (m_primaryBlock fragment_first) = NO_CRC
             \<or> (length (m_destinationEID (m_primaryBlock fragment_first)) \<le> 1024
                \<and> length (m_sourceNodeEID (m_primaryBlock fragment_first)) \<le> 1024
                \<and> length (m_reportToEID (m_primaryBlock fragment_first)) \<le> 1024))
        \<and> list_all (\<lambda>blk. m_blockType blk = PAYLOAD_BLOCK \<or> m_crcTypeB blk = NO_CRC
                           \<or> length (m_data blk) \<le> 1024) (m_canonicalBlocks fragment_first)"
    unfolding ordered by (simp add: fragment_eval)
  have built: "Reassemble (\<lambda>i. 0) (totalLength info_first)
      (sort_key fragment_offset (fragments info_first @ [fragment_second])) = Inr reassembled_one"
    using Reassemble_fragments by (simp add: info_first_def)
  have key: "umap_assign (GetOriginalBundleId fragment_second) v (m_fragmentSets manager_first)
      = [(GetOriginalBundleId fragment_first, v)]" for v
    by (simp add: fragment_eval)
  have shared: "share_back (m_canonicalBlocks fragment_first) (tl (m_canonicalBlocks r))
      = [payload_block [1, 2], hop_block 2]" if "r = reassembled_one" for r
    using that by (simp add: fragment_eval reassembled_one_def)
  have payload: "GetPayload reassembled_one = [1, 2, 3]"
    by (simp add: reassembled_one_def fragment_eval)
  have whole: "\<not> IsFragment (m_primaryBlock reassembled_one)"
    by (simp add: reassembled_one_def fragment_eval)
  have second: "AddFragment (\<lambda>i. 0) manager_first (Some fragment_second) =
       Inr (manager_first
              \<lparr>m_fragmentSets :=
                 [(GetOriginalBundleId fragment_first,
                   info_first\<lparr>fragments :=
                                 [fragment_first
                                    \<lparr>m_canonicalBlocks := [payload_block [1, 2], hop_block 2]\<rparr>,
                                  fragment_second],
                               complete := True\<rparr>)],
               m_reassembledBundles := 1\<rparr>, Some reassembled_one)"
  proof -
    from C9_duplicate_fragment [OF set_f frag_f dup, of "\<lambda>i. 0" fragment_second 3 fragment_first] g
    obtain r where r: "AddFragment (\<lambda>i. 0) manager_first (Some fragment_second) =
        Inr (manager_first\<lparr>m_fragmentSets :=
               umap_assign (GetOriginalBundleId fragment_second)
                 (info_first\<lparr>fragments :=
                     fragment_first\<lparr>m_canonicalBlocks :=
                        share_back (m_canonicalBlocks fragment_first) (tl (m_canonicalBlocks r))\<rparr>
                     # tl (sort_key fragment_offset (fragments info_first @ [fragment_second])),
                   complete := True\<rparr>) (m_fragmentSets manager_first),
               m_reassembledBundles := m_reassembledBundles manager_first + 1\<rparr>, Some r)"
      by blast
    from g built have "\<exists>s. AddFragment (\<lambda>i. 0) manager_first (Some fragment_second)
        = Inr (s, Some reassembled_one)"
      using dup by (auto simp: AddFragment_def TryReassemble_def Let_def)
    with r have "r = reassembled_one" by auto
    with r have "AddFragment (\<lambda>i. 0) manager_first (Some fragment_second) =
        Inr (manager_first\<lparr>m_fragmentSets :=
               [(GetOriginalBundleId fragment_first,
                 info_first\<lparr>fragments :=
                     fragment_first\<lparr>m_canonicalBlocks := [payload_block [1, 2], hop_block 2]\<rparr>
                     # tl [fragment_first, fragment_second],
                   complete := True\<rparr>)],
               m_reassembledBundles := m_reassembledBundles manager_first + 1\<rparr>,
             Some reassembled_one)"
      by (simp only: key ordered shared [OF refl])
    then show ?thesis
      by (simp add: manager_first_def)
  qed
  from C9_duplicate_fragment [OF set_f frag_f dup, of "\<lambda>i. 0" fragment_second 3 fragment_first]
    second payload whole
  show ?thesis by simp
qed

end
